(* ===== verification/Shell_Prelude.thy ===== *)
theory Shell_Prelude
  imports Main "HOL-Library.AList" "HOL-Library.Word"
begin

text \<open>
  Shared vocabulary of the development: Rust's \<open>Result\<close>, the parts of \<open>str\<close>, \<open>u64\<close>,
  \<open>HashMap\<close> and \<open>format!\<close> that the modelled code uses, and two interfaces used by every
  component: \<open>kv_store\<close> (the laws of a hash map) and \<open>preserved\<close> (an invariant kept by
  every step of a machine, lifted to whole runs).

  A Rust \<open>String\<close> is the list of its UTF-8 bytes, one \<open>char\<close> (8 bits) per byte, so that
  \<open>len()\<close> is \<open>length\<close>; \<open>chars()\<close> is recovered by dropping continuation bytes.
  \<open>u64\<close> and \<open>usize\<close> values are naturals; where the code saturates, checks or truncates,
  the operation is written out here.
\<close>

section \<open>Results\<close>

datatype ('a, 'e) result = Ok 'a | Err 'e

definition is_ok :: "('a, 'e) result \<Rightarrow> bool" where
  "is_ok r = (case r of Ok _ \<Rightarrow> True | Err _ \<Rightarrow> False)"

definition ok_or :: "'e \<Rightarrow> 'a option \<Rightarrow> ('a, 'e) result" where
  "ok_or e x = (case x of None \<Rightarrow> Err e | Some a \<Rightarrow> Ok a)"

fun map_err :: "('e \<Rightarrow> 'f) \<Rightarrow> ('a, 'e) result \<Rightarrow> ('a, 'f) result" where
  "map_err f (Ok a) = Ok a"
| "map_err f (Err e) = Err (f e)"

fun bind_result :: "('a, 'e) result \<Rightarrow> ('a \<Rightarrow> ('b, 'e) result) \<Rightarrow> ('b, 'e) result" where
  "bind_result (Ok a) f = f a"
| "bind_result (Err e) f = Err e"

section \<open>Unsigned 64-bit arithmetic\<close>

definition u64_max :: nat where
  "u64_max = 18446744073709551615"

definition saturating_add :: "nat \<Rightarrow> nat \<Rightarrow> nat" where
  "saturating_add a b = min (a + b) u64_max"

definition saturating_mul :: "nat \<Rightarrow> nat \<Rightarrow> nat" where
  "saturating_mul a b = min (a * b) u64_max"

definition checked_add :: "nat \<Rightarrow> nat \<Rightarrow> nat option" where
  "checked_add a b = (if a + b \<le> u64_max then Some (a + b) else None)"

section \<open>Bytes and strings\<close>

definition byte_of :: "char \<Rightarrow> nat" where
  "byte_of c = of_char c"

definition is_ascii_digit :: "char \<Rightarrow> bool" where
  "is_ascii_digit c = (48 \<le> byte_of c \<and> byte_of c \<le> 57)"

definition is_ascii_lowercase :: "char \<Rightarrow> bool" where
  "is_ascii_lowercase c = (97 \<le> byte_of c \<and> byte_of c \<le> 122)"

definition is_ascii_uppercase :: "char \<Rightarrow> bool" where
  "is_ascii_uppercase c = (65 \<le> byte_of c \<and> byte_of c \<le> 90)"

definition is_ascii_alphanumeric :: "char \<Rightarrow> bool" where
  "is_ascii_alphanumeric c = (is_ascii_digit c \<or> is_ascii_lowercase c \<or> is_ascii_uppercase c)"

definition is_ascii_hexdigit :: "char \<Rightarrow> bool" where
  "is_ascii_hexdigit c = (is_ascii_digit c \<or> (97 \<le> byte_of c \<and> byte_of c \<le> 102) \<or>
     (65 \<le> byte_of c \<and> byte_of c \<le> 70))"

text \<open>A UTF-8 byte that continues a code point started by an earlier byte.\<close>

definition is_continuation :: "char \<Rightarrow> bool" where
  "is_continuation c = (128 \<le> byte_of c \<and> byte_of c \<le> 191)"

text \<open>\<open>chars().count()\<close> of a valid UTF-8 string.\<close>

definition chars_count :: "string \<Rightarrow> nat" where
  "chars_count s = length (filter (\<lambda>c. \<not> is_continuation c) s)"

text \<open>\<open>chars().take(n).collect()\<close>: the prefix before the start of the code point number \<open>n\<close>.\<close>

fun chars_take :: "nat \<Rightarrow> string \<Rightarrow> string" where
  "chars_take n [] = []"
| "chars_take n (c # s) =
     (if is_continuation c then c # chars_take n s
      else case n of 0 \<Rightarrow> [] | Suc m \<Rightarrow> c # chars_take m s)"

definition strip_prefix :: "string \<Rightarrow> string \<Rightarrow> string option" where
  "strip_prefix p s = (if take (length p) s = p then Some (drop (length p) s) else None)"

definition starts_with :: "string \<Rightarrow> string \<Rightarrow> bool" where
  "starts_with p s = (take (length p) s = p)"

fun split_once :: "char \<Rightarrow> string \<Rightarrow> (string \<times> string) option" where
  "split_once c [] = None"
| "split_once c (x # s) =
     (if x = c then Some ([], s)
      else case split_once c s of None \<Rightarrow> None | Some (a, b) \<Rightarrow> Some (x # a, b))"

definition rsplit_once :: "char \<Rightarrow> string \<Rightarrow> (string \<times> string) option" where
  "rsplit_once c s =
     (case split_once c (rev s) of None \<Rightarrow> None | Some (a, b) \<Rightarrow> Some (rev b, rev a))"

fun split_on :: "char \<Rightarrow> string \<Rightarrow> string list" where
  "split_on c [] = [[]]"
| "split_on c (x # s) =
     (if x = c then [] # split_on c s
      else case split_on c s of [] \<Rightarrow> [[x]] | w # ws \<Rightarrow> (x # w) # ws)"

section \<open>Number formatting\<close>

definition digit_char :: "nat \<Rightarrow> char" where
  "digit_char d = char_of (if d < 10 then 48 + d else 87 + d)"

text \<open>Digits of a number in base 10 (\<open>{}\<close>) or 16 (\<open>{:x}\<close>), most significant first.\<close>

fun show_base :: "nat \<Rightarrow> nat \<Rightarrow> string" where
  "show_base b n =
     (if b < 2 \<or> n < b then [digit_char n] else show_base b (n div b) @ [digit_char (n mod b)])"

declare show_base.simps [simp del]

definition show_nat :: "nat \<Rightarrow> string" where
  "show_nat n = show_base 10 n"

text \<open>\<open>{:0w}\<close>: pad on the left with zeros up to width \<open>w\<close>.\<close>

definition pad0 :: "nat \<Rightarrow> string \<Rightarrow> string" where
  "pad0 w s = replicate (w - length s) (CHR ''0'') @ s"

section \<open>Text\<close>

text \<open>Unicode white space in UTF-8, one to three bytes.\<close>

definition white1 :: "char \<Rightarrow> bool" where
  "white1 a = (9 \<le> byte_of a \<and> byte_of a \<le> 13 \<or> byte_of a = 32)"

definition white2 :: "char \<Rightarrow> char \<Rightarrow> bool" where
  "white2 a b = (byte_of a = 0xC2 \<and> (byte_of b = 0x85 \<or> byte_of b = 0xA0))"

definition white3 :: "char \<Rightarrow> char \<Rightarrow> char \<Rightarrow> bool" where
  "white3 a b c =
     (byte_of a = 0xE1 \<and> byte_of b = 0x9A \<and> byte_of c = 0x80 \<or>
      byte_of a = 0xE2 \<and> byte_of b = 0x80 \<and>
        (0x80 \<le> byte_of c \<and> byte_of c \<le> 0x8A \<or> byte_of c = 0xA8 \<or> byte_of c = 0xA9 \<or> byte_of c = 0xAF) \<or>
      byte_of a = 0xE2 \<and> byte_of b = 0x81 \<and> byte_of c = 0x9F \<or>
      byte_of a = 0xE3 \<and> byte_of b = 0x80 \<and> byte_of c = 0x80)"

text \<open>\<open>str::trim\<close>: from the start, and from the end on the reversed bytes.\<close>

fun trim_start :: "string \<Rightarrow> string" where
  "trim_start [] = []"
| "trim_start [a] = (if white1 a then [] else [a])"
| "trim_start [a, b] = (if white1 a then trim_start [b] else if white2 a b then [] else [a, b])"
| "trim_start (a # b # c # s) =
     (if white1 a then trim_start (b # c # s) else if white2 a b then trim_start (c # s)
      else if white3 a b c then trim_start s else a # b # c # s)"

fun trim_rev :: "string \<Rightarrow> string" where
  "trim_rev [] = []"
| "trim_rev [a] = (if white1 a then [] else [a])"
| "trim_rev [a, b] = (if white1 a then trim_rev [b] else if white2 b a then [] else [a, b])"
| "trim_rev (a # b # c # s) =
     (if white1 a then trim_rev (b # c # s) else if white2 b a then trim_rev (c # s)
      else if white3 c b a then trim_rev s else a # b # c # s)"

definition str_trim :: "string \<Rightarrow> string" where
  "str_trim s = rev (trim_rev (rev (trim_start s)))"

text \<open>\<open>str::from_utf8\<close>: the width of the well-formed sequence at the start of a string, 0 if there is none, and the check.\<close>

definition utf8_width :: "char \<Rightarrow> string \<Rightarrow> nat" where
  "utf8_width a s =
     (if byte_of a < 0x80 then 1
      else case s of
        [] \<Rightarrow> 0
      | b # s1 \<Rightarrow>
          if 0xC2 \<le> byte_of a \<and> byte_of a \<le> 0xDF then (if is_continuation b then 2 else 0)
          else case s1 of
            [] \<Rightarrow> 0
          | c # s2 \<Rightarrow>
              if 0xE0 \<le> byte_of a \<and> byte_of a \<le> 0xEF then
                (if is_continuation b \<and> is_continuation c \<and> (byte_of a = 0xE0 \<longrightarrow> 0xA0 \<le> byte_of b) \<and>
                    (byte_of a = 0xED \<longrightarrow> byte_of b \<le> 0x9F) then 3 else 0)
              else case s2 of
                [] \<Rightarrow> 0
              | d # _ \<Rightarrow>
                  if 0xF0 \<le> byte_of a \<and> byte_of a \<le> 0xF4 \<and> is_continuation b \<and> is_continuation c \<and> is_continuation d \<and>
                     (byte_of a = 0xF0 \<longrightarrow> 0x90 \<le> byte_of b) \<and> (byte_of a = 0xF4 \<longrightarrow> byte_of b \<le> 0x8F) then 4 else 0)"

fun utf8_valid :: "string \<Rightarrow> bool" where
  "utf8_valid [] = True"
| "utf8_valid (a # s) = (let n = utf8_width a s in 0 < n \<and> utf8_valid (drop (n - 1) s))"

section \<open>Hash maps\<close>

text \<open>
  A \<open>HashMap\<close> is an association list with distinct keys. Its order stands for the
  unspecified iteration order of the hash map; components that iterate prove that their
  result does not depend on it.
\<close>

type_synonym ('k, 'v) hashmap = "('k \<times> 'v) list"

definition hm_get :: "('k, 'v) hashmap \<Rightarrow> 'k \<Rightarrow> 'v option" where
  "hm_get m k = map_of m k"

definition hm_insert :: "'k \<Rightarrow> 'v \<Rightarrow> ('k, 'v) hashmap \<Rightarrow> ('k, 'v) hashmap" where
  "hm_insert k v m = AList.update k v m"

definition hm_remove :: "'k \<Rightarrow> ('k, 'v) hashmap \<Rightarrow> ('k, 'v) hashmap" where
  "hm_remove k m = AList.delete k m"

definition hm_retain :: "('k \<Rightarrow> 'v \<Rightarrow> bool) \<Rightarrow> ('k, 'v) hashmap \<Rightarrow> ('k, 'v) hashmap" where
  "hm_retain P m = filter (\<lambda>(k, v). P k v) m"

text \<open>A \<open>values_mut()\<close> loop that rewrites each value.\<close>

definition hm_map_values :: "('v \<Rightarrow> 'v) \<Rightarrow> ('k, 'v) hashmap \<Rightarrow> ('k, 'v) hashmap" where
  "hm_map_values f m = map (\<lambda>(k, v). (k, f v)) m"

definition hm_values :: "('k, 'v) hashmap \<Rightarrow> 'v list" where
  "hm_values m = map snd m"

definition hm_contains_key :: "('k, 'v) hashmap \<Rightarrow> 'k \<Rightarrow> bool" where
  "hm_contains_key m k = (hm_get m k \<noteq> None)"

definition hm_wf :: "('k, 'v) hashmap \<Rightarrow> bool" where
  "hm_wf m = distinct (map fst m)"

section \<open>Runs\<close>

text \<open>A labelled run of a step relation.\<close>

inductive run :: "('s \<Rightarrow> 'e \<Rightarrow> 's \<Rightarrow> bool) \<Rightarrow> 's \<Rightarrow> 'e list \<Rightarrow> 's \<Rightarrow> bool" for step where
  run_nil: "run step s [] s"
| run_cons: "step s e t \<Longrightarrow> run step t es u \<Longrightarrow> run step s (e # es) u"


inductive_cases run_nilE [elim!]: "run step s [] t"
inductive_cases run_consE [elim]: "run step s (e # es) t"

section \<open>Interfaces\<close>

text \<open>The contract of a hash map: what a lookup returns after an insert or a removal.\<close>

locale kv_store =
  fixes get :: "'m \<Rightarrow> 'k \<Rightarrow> 'v option"
    and ins :: "'k \<Rightarrow> 'v \<Rightarrow> 'm \<Rightarrow> 'm"
    and rem :: "'k \<Rightarrow> 'm \<Rightarrow> 'm"
    and wf :: "'m \<Rightarrow> bool"
    and emp :: 'm
  assumes get_emp [simp]: "get emp k = None"
    and get_ins: "get (ins k v m) k' = (if k' = k then Some v else get m k')"
    and get_rem: "get (rem k m) k' = (if k' = k then None else get m k')"
    and wf_emp [simp]: "wf emp"
    and wf_ins [simp]: "wf m \<Longrightarrow> wf (ins k v m)"
    and wf_rem [simp]: "wf m \<Longrightarrow> wf (rem k m)"
begin

lemma get_ins_same [simp]: "get (ins k v m) k = Some v"
  by (simp add: get_ins)

lemma get_ins_other [simp]: "k' \<noteq> k \<Longrightarrow> get (ins k v m) k' = get m k'"
  by (simp add: get_ins)

lemma get_rem_same [simp]: "get (rem k m) k = None"
  by (simp add: get_rem)

lemma get_rem_other [simp]: "k' \<noteq> k \<Longrightarrow> get (rem k m) k' = get m k'"
  by (simp add: get_rem)

lemma get_ins_SomeD:
  "get (ins k v m) k' = Some w \<Longrightarrow> (k' = k \<and> w = v) \<or> (k' \<noteq> k \<and> get m k' = Some w)"
  by (simp add: get_ins split: if_splits)

lemma all_ins:
  assumes "P k v" and "\<And>k' w. get m k' = Some w \<Longrightarrow> P k' w" and "get (ins k v m) k' = Some w"
  shows "P k' w"
  using assms get_ins_SomeD by blast

lemma all_rem:
  assumes "\<And>k' w. get m k' = Some w \<Longrightarrow> P k' w" and "get (rem k m) k' = Some w"
  shows "P k' w"
  using assms by (simp add: get_rem split: if_splits)

end

text \<open>A hash map that is iterated: its values, \<open>retain\<close> and \<open>values_mut\<close>.\<close>

locale kv_iter = kv_store +
  fixes vals :: "'a \<Rightarrow> 'c list"
    and keep :: "('b \<Rightarrow> 'c \<Rightarrow> bool) \<Rightarrow> 'a \<Rightarrow> 'a"
    and mapv :: "('c \<Rightarrow> 'c) \<Rightarrow> 'a \<Rightarrow> 'a"
  assumes vals_get: "wf m \<Longrightarrow> v \<in> set (vals m) \<longleftrightarrow> (\<exists>k. get m k = Some v)"
    and get_keep: "wf m \<Longrightarrow> get (keep P m) k =
      (case get m k of None \<Rightarrow> None | Some v \<Rightarrow> if P k v then Some v else None)"
    and get_mapv: "get (mapv f m) k = map_option f (get m k)"
    and wf_keep [simp]: "wf m \<Longrightarrow> wf (keep P m)"
    and wf_mapv [simp]: "wf m \<Longrightarrow> wf (mapv f m)"
begin

lemma valsI: "wf m \<Longrightarrow> get m k = Some v \<Longrightarrow> v \<in> set (vals m)"
  by (auto simp: vals_get)

lemma keep_SomeD: "wf m \<Longrightarrow> get (keep P m) k = Some v \<Longrightarrow> get m k = Some v \<and> P k v"
  by (auto simp: get_keep split: option.splits if_splits)

lemma mapv_SomeD: "get (mapv f m) k = Some v \<Longrightarrow> \<exists>w. get m k = Some w \<and> v = f w"
  by (auto simp: get_mapv)

end

text \<open>An invariant kept by every step of a machine holds after every run of it.\<close>

locale preserved =
  fixes step :: "'s \<Rightarrow> 'e \<Rightarrow> 's \<Rightarrow> bool"
    and inv :: "'s \<Rightarrow> bool"
  assumes step_inv: "step s e t \<Longrightarrow> inv s \<Longrightarrow> inv t"
begin

lemma run_inv: "run step s es t \<Longrightarrow> inv s \<Longrightarrow> inv t"
  by (induction rule: run.induct) (auto intro: step_inv)

end

lemma run_append: "run step s es t \<Longrightarrow> run step t fs u \<Longrightarrow> run step s (es @ fs) u"
  by (induction rule: run.induct) (auto intro: run.intros)

section \<open>Lemmas on hash maps\<close>

lemma hm_get_Some_iff: "hm_wf m \<Longrightarrow> hm_get m k = Some v \<longleftrightarrow> (k, v) \<in> set m"
  by (simp add: hm_wf_def hm_get_def)

lemma hm_wf_retain: "hm_wf m \<Longrightarrow> hm_wf (hm_retain P m)"
  by (simp add: hm_wf_def hm_retain_def distinct_map inj_on_def)

lemma hm_get_retain:
  assumes "hm_wf m"
  shows "hm_get (hm_retain P m) k =
    (case hm_get m k of None \<Rightarrow> None | Some v \<Rightarrow> if P k v then Some v else None)"
proof -
  have iff: "hm_get (hm_retain P m) k = Some v \<longleftrightarrow> (k, v) \<in> set m \<and> P k v" for v
    unfolding hm_get_Some_iff [OF hm_wf_retain [OF assms]] by (simp add: hm_retain_def)
  show ?thesis
  proof (cases "hm_get (hm_retain P m) k")
    case None
    then have "\<not> P k v" if "hm_get m k = Some v" for v
      using iff [of v] that assms by (simp add: hm_get_Some_iff)
    with None show ?thesis by (auto split: option.split)
  next
    case (Some v)
    then have "hm_get m k = Some v" "P k v"
      using iff [of v] assms by (simp_all add: hm_get_Some_iff)
    with Some show ?thesis by simp
  qed
qed

lemma hm_get_insert: "hm_get (hm_insert k v m) k' = (if k' = k then Some v else hm_get m k')"
  by (simp add: hm_get_def hm_insert_def update_conv')

lemma hm_get_remove: "hm_get (hm_remove k m) k' = (if k' = k then None else hm_get m k')"
  by (simp add: hm_get_def hm_remove_def delete_conv')

lemma hm_wf_insert: "hm_wf m \<Longrightarrow> hm_wf (hm_insert k v m)"
  unfolding hm_wf_def hm_insert_def by (rule distinct_update)

lemma hm_wf_remove: "hm_wf m \<Longrightarrow> hm_wf (hm_remove k m)"
  unfolding hm_wf_def hm_remove_def by (rule distinct_delete)

lemma hm_values_iff: "hm_wf m \<Longrightarrow> v \<in> set (hm_values m) \<longleftrightarrow> (\<exists>k. hm_get m k = Some v)"
  by (auto simp: hm_get_Some_iff hm_values_def image_iff) force

lemma hm_get_map_values: "hm_get (hm_map_values f m) k = map_option f (hm_get m k)"
  by (induction m) (auto simp: hm_get_def hm_map_values_def)

lemma hm_wf_map_values: "hm_wf m \<Longrightarrow> hm_wf (hm_map_values f m)"
  by (simp add: hm_wf_def hm_map_values_def case_prod_unfold comp_def)

lemma hm_empty: "hm_get [] k = None" "hm_wf []"
  by (simp_all add: hm_get_def hm_wf_def)

interpretation hm: kv_iter hm_get hm_insert hm_remove hm_wf "[]" hm_values hm_retain hm_map_values
  by unfold_locales
    (rule hm_empty hm_get_insert hm_get_remove hm_get_map_values
     | erule hm_wf_insert hm_wf_remove hm_values_iff hm_get_retain hm_wf_retain hm_wf_map_values)+

lemma hm_contains_key_iff [simp]: "hm_contains_key m k \<longleftrightarrow> (\<exists>v. hm_get m k = Some v)"
  by (auto simp: hm_contains_key_def)

section \<open>Lemmas on results, strings and numbers\<close>

lemma ok_or_simps [simp]: "ok_or e None = Err e" "ok_or e (Some a) = Ok a"
  by (simp_all add: ok_or_def)

lemma is_ok_simps [simp]: "is_ok (Ok a)" "\<not> is_ok (Err e)"
  by (simp_all add: is_ok_def)

lemma is_ok_iff: "is_ok r \<longleftrightarrow> (\<exists>a. r = Ok a)"
  by (cases r) simp_all

lemma strip_prefix_Some: "strip_prefix p s = Some r \<longleftrightarrow> s = p @ r"
proof
  assume "strip_prefix p s = Some r"
  then have "take (length p) s = p" "r = drop (length p) s"
    by (auto simp: strip_prefix_def split: if_splits)
  then show "s = p @ r" using append_take_drop_id [of "length p" s] by simp
qed (simp add: strip_prefix_def)

lemma strip_prefix_append [simp]: "strip_prefix p (p @ r) = Some r"
  by (simp add: strip_prefix_Some)

lemma split_once_append [simp]: "c \<notin> set a \<Longrightarrow> split_once c (a @ c # b) = Some (a, b)"
  by (induction a) auto

lemma split_onceD: "split_once c s = Some (a, b) \<Longrightarrow> s = a @ c # b \<and> c \<notin> set a"
proof (induction s arbitrary: a)
  case (Cons x s)
  show ?case
  proof (cases "x = c")
    case False
    with Cons.prems obtain a' where "split_once c s = Some (a', b)" "a = x # a'"
      by (simp split: option.splits prod.splits)
    with Cons.IH [of a'] False show ?thesis by simp
  qed (use Cons.prems in simp)
qed simp

lemma split_once_Some: "split_once c s = Some (a, b) \<longleftrightarrow> s = a @ c # b \<and> c \<notin> set a"
  by (auto dest: split_onceD)

lemma split_once_None: "split_once c s = None \<longleftrightarrow> c \<notin> set s"
  by (induction s) (auto split: option.splits)

lemma rsplit_once_Some: "rsplit_once c s = Some (a, b) \<longleftrightarrow> s = a @ c # b \<and> c \<notin> set b"
proof -
  have "rsplit_once c s = Some (a, b) \<longleftrightarrow> split_once c (rev s) = Some (rev b, rev a)"
    by (auto simp: rsplit_once_def split: option.splits)
  also have "\<dots> \<longleftrightarrow> rev s = rev b @ c # rev a \<and> c \<notin> set b"
    by (simp add: split_once_Some)
  also have "rev b @ c # rev a = rev (a @ c # b)"
    by simp
  finally show ?thesis
    by (simp only: rev_is_rev_conv)
qed

lemma chars_count_take: "chars_count (chars_take n s) \<le> n"
  by (induction n s rule: chars_take.induct) (auto simp: chars_count_def split: nat.splits)

lemma saturating_add_le: "saturating_add a b \<le> u64_max"
  by (simp add: saturating_add_def)

end
