(* ===== verification/Framing.thy ===== *)
theory Framing
  imports Shell_Prelude
begin

text \<open>
  The length-prefixed frame codec of the local transport
  (\<^verbatim>\<open>crates/local-transport/src/framing.rs\<close>): a little-endian \<open>u32\<close> payload length followed
  by the payload. A \<open>Read\<close> stream is the list of what its successive \<open>read\<close> calls meet: a
  chunk of available bytes, an interrupted call or an I/O failure; the end of the list is
  end of file. One \<open>read\<close> into a buffer smaller than the chunk leaves the rest of it.
\<close>

unbundle bit_operations_syntax

section \<open>Wire format\<close>

type_synonym u8 = "8 word"
type_synonym u32 = "32 word"

definition MAX_FRAME_BYTES :: nat where
  "MAX_FRAME_BYTES = 64 * 1024"

definition LENGTH_PREFIX_BYTES :: nat where
  "LENGTH_PREFIX_BYTES = 4"

datatype FrameError =
    Oversized nat nat \<comment> \<open>declared, max\<close>
  | Truncated nat nat \<comment> \<open>expected, got\<close>

text \<open>The kinds of \<open>io::Error\<close> the transport tells apart.\<close>

datatype io_kind = Interrupted | WouldBlock | TimedOut | OtherIo

datatype FrameReadError = Frame FrameError | Io io_kind

definition to_le_bytes :: "u32 \<Rightarrow> u8 list" where
  "to_le_bytes w = [ucast w, ucast (drop_bit 8 w), ucast (drop_bit 16 w), ucast (drop_bit 24 w)]"

fun from_le_bytes :: "u8 list \<Rightarrow> u32" where
  "from_le_bytes [] = 0"
| "from_le_bytes (b # bs) = ucast b OR push_bit 8 (from_le_bytes bs)"

definition encode_frame :: "u8 list \<Rightarrow> u8 list" where
  "encode_frame payload = to_le_bytes (of_nat (length payload)) @ payload"

definition encode_frame_checked :: "u8 list \<Rightarrow> nat \<Rightarrow> (u8 list, FrameError) result" where
  "encode_frame_checked payload mx =
     (if mx < length payload then Err (Oversized (length payload) mx)
      else Ok (encode_frame payload))"

section \<open>Reading\<close>

datatype read_event = Chunk "u8 list" | Fault io_kind

type_synonym reader = "read_event list"

text \<open>
  \<open>read_some\<close>: fill a buffer of \<open>need\<close> bytes, stopping early only at end of file (no more
  events, or a zero-length read); interrupted calls are retried, other failures are returned.
\<close>

fun read_some :: "nat \<Rightarrow> reader \<Rightarrow> (u8 list, io_kind) result \<times> reader" where
  "read_some 0 evs = (Ok [], evs)"
| "read_some (Suc n) [] = (Ok [], [])"
| "read_some (Suc n) (Fault k # evs) =
     (if k = Interrupted then read_some (Suc n) evs else (Err k, evs))"
| "read_some (Suc n) (Chunk bs # evs) =
     (if bs = [] then (Ok [], evs)
      else if length bs \<le> Suc n then
        (case read_some (Suc n - length bs) evs of
           (Ok got, evs') \<Rightarrow> (Ok (bs @ got), evs')
         | (Err k, evs') \<Rightarrow> (Err k, evs'))
      else (Ok (take (Suc n) bs), Chunk (drop (Suc n) bs) # evs))"

definition read_frame :: "reader \<Rightarrow> nat \<Rightarrow> (u8 list option, FrameReadError) result \<times> reader" where
  "read_frame rd mx =
     (case read_some LENGTH_PREFIX_BYTES rd of
        (Err k, rd1) \<Rightarrow> (Err (Io k), rd1)
      | (Ok prefix, rd1) \<Rightarrow>
          if length prefix = 0 then (Ok None, rd1)
          else if length prefix < LENGTH_PREFIX_BYTES then
            (Err (Frame (Truncated LENGTH_PREFIX_BYTES (length prefix))), rd1)
          else
            let declared = unat (from_le_bytes prefix)
            in if mx < declared then (Err (Frame (Oversized declared mx)), rd1)
               else
                 (case read_some declared rd1 of
                    (Err k, rd2) \<Rightarrow> (Err (Io k), rd2)
                  | (Ok payload, rd2) \<Rightarrow>
                      if length payload < declared then
                        (Err (Frame (Truncated declared (length payload))), rd2)
                      else (Ok (Some payload), rd2)))"

text \<open>Reading frames until the stream ends or a frame fails (the receive loops of the server).\<close>

fun read_frames :: "nat \<Rightarrow> reader \<Rightarrow> nat \<Rightarrow> u8 list list \<times> FrameReadError option" where
  "read_frames 0 rd mx = ([], None)"
| "read_frames (Suc fuel) rd mx =
     (case read_frame rd mx of
        (Ok None, _) \<Rightarrow> ([], None)
      | (Err e, _) \<Rightarrow> ([], Some e)
      | (Ok (Some p), rd') \<Rightarrow>
          (case read_frames fuel rd' mx of (ps, e) \<Rightarrow> (p # ps, e)))"

section \<open>Specification of streams\<close>

text \<open>The bytes a stream still delivers, and the streams that deliver them without failing.\<close>

fun reader_bytes :: "reader \<Rightarrow> u8 list" where
  "reader_bytes [] = []"
| "reader_bytes (Chunk bs # evs) = bs @ reader_bytes evs"
| "reader_bytes (Fault k # evs) = reader_bytes evs"

fun clean_reader :: "reader \<Rightarrow> bool" where
  "clean_reader [] = True"
| "clean_reader (Chunk bs # evs) = (bs \<noteq> [] \<and> clean_reader evs)"
| "clean_reader (Fault k # evs) = (k = Interrupted \<and> clean_reader evs)"

text \<open>The outcome of one \<open>read_frame\<close> on a stream that delivers its bytes without failing,
  as a function of those bytes alone.\<close>

definition frame_outcome :: "u8 list \<Rightarrow> nat \<Rightarrow> (u8 list option, FrameReadError) result" where
  "frame_outcome bs mx =
     (if bs = [] then Ok None
      else if length bs < 4 then Err (Frame (Truncated 4 (length bs)))
      else let declared = unat (from_le_bytes (take 4 bs)); rest = drop 4 bs
        in if mx < declared then Err (Frame (Oversized declared mx))
           else if length rest < declared then Err (Frame (Truncated declared (length rest)))
           else Ok (Some (take declared rest)))"

definition frame_rest :: "u8 list \<Rightarrow> nat \<Rightarrow> u8 list" where
  "frame_rest bs mx =
     (if length bs < 4 then []
      else let declared = unat (from_le_bytes (take 4 bs))
        in if mx < declared then drop 4 bs else drop declared (drop 4 bs))"

section \<open>Lemmas\<close>

lemma length_to_le_bytes [simp]: "length (to_le_bytes w) = 4"
  by (simp add: to_le_bytes_def)

lemma from_to_le_bytes [simp]: "from_le_bytes (to_le_bytes w) = w"
proof (rule bit_word_eqI)
  fix n
  assume "n < LENGTH(32)"
  then consider "n < 8" | "8 \<le> n" "n < 16" | "16 \<le> n" "n < 24" | "24 \<le> n" "n < 32"
    by fastforce
  then show "bit (from_le_bytes (to_le_bytes w)) n = bit w n"
    by cases (auto simp: to_le_bytes_def bit_simps)
qed

lemma read_some_clean:
  "clean_reader rd \<Longrightarrow>
    \<exists>rd'. read_some n rd = (Ok (take n (reader_bytes rd)), rd') \<and> clean_reader rd' \<and>
      reader_bytes rd' = drop n (reader_bytes rd)"
proof (induction n rd rule: read_some.induct)
  case (4 n bs evs)
  then show ?case
    by (fastforce split: prod.splits result.splits)
qed auto

lemma read_some_zero [simp]: "read_some 0 rd = (Ok [], rd)"
  by (cases rd) simp_all

lemma read_frame_clean:
  assumes "clean_reader rd"
  shows "\<exists>rd'. read_frame rd mx = (frame_outcome (reader_bytes rd) mx, rd') \<and> clean_reader rd' \<and>
    reader_bytes rd' = frame_rest (reader_bytes rd) mx"
proof -
  let ?bs = "reader_bytes rd"
  from read_some_clean [OF assms, of 4] obtain rd1 where
    1: "read_some 4 rd = (Ok (take 4 ?bs), rd1)" "clean_reader rd1" "reader_bytes rd1 = drop 4 ?bs"
    by blast
  let ?d = "unat (from_le_bytes (take 4 ?bs))"
  from read_some_clean [OF 1(2), of ?d] obtain rd2 where
    2: "read_some ?d rd1 = (Ok (take ?d (drop 4 ?bs)), rd2)" "clean_reader rd2"
      "reader_bytes rd2 = drop ?d (drop 4 ?bs)"
    using 1(3) by auto
  show ?thesis
  proof (cases "length ?bs < 4 \<or> mx < ?d")
    case True
    with 1 show ?thesis
      by (auto simp: read_frame_def frame_outcome_def frame_rest_def LENGTH_PREFIX_BYTES_def Let_def)
  next
    case False
    with 1 2 show ?thesis
      by (auto simp: read_frame_def frame_outcome_def frame_rest_def LENGTH_PREFIX_BYTES_def Let_def)
  qed
qed

lemma frame_outcome_encode:
  assumes "length p \<le> mx" and "mx < 2 ^ 32"
  shows "frame_outcome (encode_frame p @ bs) mx = Ok (Some p)"
    and "frame_rest (encode_frame p @ bs) mx = bs"
proof -
  have "unat (of_nat (length p) :: u32) = length p"
    using assms by (simp add: unat_of_nat take_bit_nat_eq_self)
  moreover have "encode_frame p @ bs \<noteq> []"
    by (simp add: encode_frame_def to_le_bytes_def)
  ultimately show "frame_outcome (encode_frame p @ bs) mx = Ok (Some p)"
    and "frame_rest (encode_frame p @ bs) mx = bs"
    using assms by (simp_all add: frame_outcome_def frame_rest_def encode_frame_def Let_def)
qed

section \<open>Properties\<close>

text \<open>
  C13. Round trip of the codec over any stream: when every payload is within the limit, reading
  a stream that delivers the encoded frames one after the other, cut into chunks in any way
  and with any interrupted calls in between, returns exactly the payloads in order and then
  reports a clean end of file.
\<close>

theorem framing_stream_roundtrip:
  assumes "clean_reader rd" and "reader_bytes rd = concat (map encode_frame ps)"
    and "\<forall>p \<in> set ps. length p \<le> mx" and "mx < 2 ^ 32"
  shows "read_frames (Suc (length ps)) rd mx = (ps, None)"
  using assms
proof (induction ps arbitrary: rd)
  case Nil
  then show ?case
    using read_frame_clean [OF Nil.prems(1), of mx] by (auto simp: frame_outcome_def)
next
  case (Cons p ps)
  let ?bs = "concat (map encode_frame ps)"
  obtain rd' where rd': "read_frame rd mx = (frame_outcome (encode_frame p @ ?bs) mx, rd')"
    "clean_reader rd'" "reader_bytes rd' = frame_rest (encode_frame p @ ?bs) mx"
    using read_frame_clean [OF Cons.prems(1), of mx] Cons.prems(2) by auto
  have "length p \<le> mx" using Cons.prems(3) by simp
  note enc = frame_outcome_encode [OF this Cons.prems(4), of ?bs]
  have "read_frames (Suc (length ps)) rd' mx = (ps, None)"
    using Cons.IH [OF rd'(2)] rd'(3) enc(2) Cons.prems(3,4) by simp
  with rd'(1) enc(1) show ?case by simp
qed

theorem framing_stream_roundtrip_witness:
  "read_frames 3 [Chunk [3, 0], Fault Interrupted, Chunk [0, 0, 7, 8], Chunk [9, 1, 0, 0, 0, 5]] 16
     = ([[7, 8, 9], [5]], None)"
  using framing_stream_roundtrip
    [of "[Chunk [3, 0], Fault Interrupted, Chunk [0, 0, 7, 8], Chunk [9, 1, 0, 0, 0, 5]]"
      "[[7, 8, 9], [5]]" 16]
  by (simp add: encode_frame_def to_le_bytes_def numeral_3_eq_3 del: read_frames.simps)

text \<open>
  C4. The reader refines a specification on bytes: on any stream that does not fail, the result
  of \<open>read_frame\<close> and the bytes it leaves depend only on the bytes the stream delivers, never
  on how the carrier cuts them into chunks, and the result is \<open>frame_outcome\<close>: end of file on no
  bytes, \<open>Truncated\<close> on a partial prefix or payload, \<open>Oversized\<close> on a declared length above the
  limit, the payload otherwise.
\<close>

theorem read_frame_refines_bytes:
  assumes "clean_reader rd"
  shows "fst (read_frame rd mx) = frame_outcome (reader_bytes rd) mx \<and>
    reader_bytes (snd (read_frame rd mx)) = frame_rest (reader_bytes rd) mx"
  using read_frame_clean [OF assms, of mx] by auto

theorem read_frame_refines_bytes_witness:
  "fst (read_frame [Chunk [2], Chunk [0, 0, 0, 8], Chunk [1]] 16) = Ok (Some [8, 1]) \<and>
   fst (read_frame [Chunk [2, 0]] 16) = Err (Frame (Truncated 4 2))"
  using read_frame_refines_bytes [of "[Chunk [2], Chunk [0, 0, 0, 8], Chunk [1]]" 16]
    read_frame_refines_bytes [of "[Chunk [2, 0]]" 16]
  by (simp add: frame_outcome_def)

text \<open>
  A frame whose declared length is above the limit is refused on its length prefix alone:
  whatever the stream does afterwards (including failing), \<open>read_frame\<close> answers \<open>Oversized\<close> and
  has consumed exactly the four prefix bytes, none of the payload.
\<close>

lemma read_frame_oversized_unread:
  assumes "read_some LENGTH_PREFIX_BYTES rd = (Ok prefix, rd')" and "length prefix = 4"
    and "mx < unat (from_le_bytes prefix)"
  shows "read_frame rd mx = (Err (Frame (Oversized (unat (from_le_bytes prefix)) mx)), rd')"
  using assms by (simp add: read_frame_def LENGTH_PREFIX_BYTES_def)

end
