(* ===== verification/Credentials.thy ===== *)
theory Credentials
  imports Framing
begin

text \<open>
  Ephemeral credentials and the shared server state of the local transport
  (\<^verbatim>\<open>crates/local-transport/src/{credential,limits,server}.rs\<close>). The random bytes of a token and
  every clock reading are arguments of the operations. \<open>SystemTime\<close> and \<open>Duration\<close> are
  natural numbers of milliseconds; the monotone event counters are unbounded.
\<close>

section \<open>Credentials\<close>

definition TOKEN_PREFIX :: string where
  "TOKEN_PREFIX = ''lt_''"

definition TOKEN_HEX_CHARS :: nat where
  "TOKEN_HEX_CHARS = 32"

record Credential =
  cred_token :: string
  cred_expires_at :: nat

definition is_expired_at :: "Credential \<Rightarrow> nat \<Rightarrow> bool" where
  "is_expired_at c now = (cred_expires_at c \<le> now)"

definition hex :: "u8 list \<Rightarrow> string" where
  "hex bytes = concat (map (\<lambda>b. pad0 2 (show_base 16 (unat b))) bytes)"

definition issue :: "u8 list \<Rightarrow> nat \<Rightarrow> nat \<Rightarrow> Credential" where
  "issue bytes now ttl = \<lparr>cred_token = TOKEN_PREFIX @ hex bytes, cred_expires_at = now + ttl\<rparr>"

definition is_valid_format :: "string \<Rightarrow> bool" where
  "is_valid_format token =
     (case strip_prefix TOKEN_PREFIX token of
        None \<Rightarrow> False
      | Some rest \<Rightarrow> length rest = TOKEN_HEX_CHARS \<and> list_all is_ascii_hexdigit rest)"

datatype AuthError = Invalid | Replay | Stale | Malformed

section \<open>Server state\<close>

record Limits =
  max_frame_bytes :: nat
  handshake_deadline :: nat
  read_deadline :: nat
  write_deadline :: nat
  max_connections :: nat

definition default_limits :: Limits where
  "default_limits = \<lparr>max_frame_bytes = MAX_FRAME_BYTES, handshake_deadline = 10000,
     read_deadline = 30000, write_deadline = 30000, max_connections = 8\<rparr>"

record ServerStats =
  st_accepted :: nat
  st_authenticated :: nat
  st_rejected_auth :: nat
  st_rejected_busy :: nat
  st_closed_peer :: nat
  st_closed_protocol :: nat
  st_closed_timeout :: nat
  st_closed_io :: nat
  st_active :: nat
  credentials_issued :: nat
  credentials_consumed :: nat

definition default_stats :: ServerStats where
  "default_stats = \<lparr>st_accepted = 0, st_authenticated = 0, st_rejected_auth = 0, st_rejected_busy = 0,
     st_closed_peer = 0, st_closed_protocol = 0, st_closed_timeout = 0, st_closed_io = 0, st_active = 0,
     credentials_issued = 0, credentials_consumed = 0\<rparr>"

record IssuedCredential =
  ic_expires_at :: nat
  ic_used :: bool

record ConnLimiter =
  lim_current :: nat
  lim_max :: nat

definition new_limiter :: "nat \<Rightarrow> ConnLimiter" where
  "new_limiter mx = \<lparr>lim_current = 0, lim_max = mx\<rparr>"

text \<open>
  The compare-and-swap loop of \<open>try_acquire\<close> succeeds on the value it compared against, so its
  effect is one atomic test and increment.
\<close>

definition try_acquire :: "ConnLimiter \<Rightarrow> bool \<times> ConnLimiter" where
  "try_acquire l =
     (if lim_max l \<le> lim_current l then (False, l)
      else (True, l\<lparr>lim_current := lim_current l + 1\<rparr>))"

text \<open>\<open>fetch_sub\<close> wraps at zero on a 64-bit \<open>AtomicUsize\<close>.\<close>

definition release :: "ConnLimiter \<Rightarrow> ConnLimiter" where
  "release l = l\<lparr>lim_current := (if lim_current l = 0 then u64_max else lim_current l - 1)\<rparr>"

datatype PeerDesc = Tcp string | NamedPipe string | UnixSocket string

record PeerIdentity =
  peer_pid :: nat
  image_path :: "string option"

record ServerConn =
  conn_id :: nat
  conn_peer :: PeerDesc
  conn_identity :: "PeerIdentity option"
  conn_max_frame :: nat

record ServerState =
  srv_limits :: Limits
  srv_shutdown :: bool
  next_conn_id :: nat
  srv_credentials :: "(string, IssuedCredential) hashmap"
  srv_conns :: "(nat, ServerConn) hashmap"
  srv_limiter :: ConnLimiter
  srv_stats :: ServerStats

definition new_server :: "Limits \<Rightarrow> ServerState" where
  "new_server lim = \<lparr>srv_limits = lim, srv_shutdown = False, next_conn_id = 1, srv_credentials = [],
     srv_conns = [], srv_limiter = new_limiter (max_connections lim), srv_stats = default_stats\<rparr>"

text \<open>\<open>LocalServer::issue_credential\<close>: mint, sweep consumed or expired entries, register.\<close>

definition issue_credential ::
  "u8 list \<Rightarrow> nat \<Rightarrow> nat \<Rightarrow> nat \<Rightarrow> ServerState \<Rightarrow> Credential \<times> ServerState" where
  "issue_credential bytes issued_now ttl now s =
     (let credential = issue bytes issued_now ttl;
          swept = hm_retain (\<lambda>_ entry. \<not> ic_used entry \<and> now < ic_expires_at entry) (srv_credentials s);
          registry = hm_insert (cred_token credential)
            \<lparr>ic_expires_at = cred_expires_at credential, ic_used = False\<rparr> swept
      in (credential,
          s\<lparr>srv_credentials := registry,
            srv_stats := (srv_stats s)\<lparr>credentials_issued := credentials_issued (srv_stats s) + 1\<rparr>\<rparr>))"

definition authenticate :: "string \<Rightarrow> nat \<Rightarrow> ServerState \<Rightarrow> (unit, AuthError) result \<times> ServerState" where
  "authenticate token now s =
     (if \<not> is_valid_format token then (Err Malformed, s)
      else
        (case hm_get (srv_credentials s) token of
           None \<Rightarrow> (Err Invalid, s)
         | Some entry \<Rightarrow>
             if ic_expires_at entry \<le> now then
               (Err Stale, s\<lparr>srv_credentials := hm_remove token (srv_credentials s)\<rparr>)
             else if ic_used entry then (Err Replay, s)
             else
               (Ok (),
                s\<lparr>srv_credentials := hm_insert token (entry\<lparr>ic_used := True\<rparr>) (srv_credentials s),
                  srv_stats := (srv_stats s)\<lparr>credentials_consumed := credentials_consumed (srv_stats s) + 1\<rparr>\<rparr>)))"

definition stats_snapshot :: "ServerState \<Rightarrow> ServerStats" where
  "stats_snapshot s = (srv_stats s)\<lparr>st_active := lim_current (srv_limiter s)\<rparr>"

definition connections :: "ServerState \<Rightarrow> ServerConn list" where
  "connections s = hm_values (srv_conns s)"

text \<open>\<open>PeerIdentity::image_matches\<close>; the platform decides whether case is folded.\<close>

definition to_ascii_lower :: "char \<Rightarrow> char" where
  "to_ascii_lower c = (if is_ascii_uppercase c then char_of (byte_of c + 32) else c)"

definition eq_ignore_ascii_case :: "string \<Rightarrow> string \<Rightarrow> bool" where
  "eq_ignore_ascii_case a b = (map to_ascii_lower a = map to_ascii_lower b)"

definition image_matches :: "bool \<Rightarrow> PeerIdentity \<Rightarrow> string \<Rightarrow> bool" where
  "image_matches folds_case p expected =
     (case image_path p of
        None \<Rightarrow> False
      | Some img \<Rightarrow>
          if folds_case then eq_ignore_ascii_case img expected else img = expected)"

section \<open>Histories of the registry\<close>

datatype cred_op =
    Issue_Op "u8 list" nat nat nat \<comment> \<open>random bytes, time of issue, ttl, time of the sweep\<close>
  | Auth_Op string nat

fun issues :: "string \<Rightarrow> cred_op \<Rightarrow> bool" where
  "issues t (Issue_Op bytes n ttl now) = (cred_token (issue bytes n ttl) = t)"
| "issues t (Auth_Op _ _) = False"

text \<open>The state after a history and the verdicts it gave, oldest first.\<close>

fun cred_run :: "cred_op list \<Rightarrow> ServerState \<Rightarrow> (string \<times> (unit, AuthError) result) list \<times> ServerState" where
  "cred_run [] s = ([], s)"
| "cred_run (Issue_Op bytes n ttl now # ops) s = cred_run ops (snd (issue_credential bytes n ttl now s))"
| "cred_run (Auth_Op t now # ops) s =
     (case authenticate t now s of (r, s') \<Rightarrow>
        (case cred_run ops s' of (rs, s'') \<Rightarrow> ((t, r) # rs, s'')))"

definition accepted_count :: "string \<Rightarrow> (string \<times> (unit, AuthError) result) list \<Rightarrow> nat" where
  "accepted_count t rs = length (filter (\<lambda>(t', r). t' = t \<and> is_ok r) rs)"

definition redeemable :: "string \<Rightarrow> ServerState \<Rightarrow> bool" where
  "redeemable t s = (case hm_get (srv_credentials s) t of None \<Rightarrow> False | Some e \<Rightarrow> \<not> ic_used e)"

text \<open>An issue of token \<open>t\<close> with expiry \<open>x\<close> in a history.\<close>

definition origin :: "cred_op list \<Rightarrow> string \<Rightarrow> nat \<Rightarrow> bool" where
  "origin ops t x = (\<exists>b n ttl now. Issue_Op b n ttl now \<in> set ops \<and>
     cred_token (issue b n ttl) = t \<and> x = n + ttl)"

text \<open>The same operations in the shape of the interface below.\<close>

definition cred_wf :: "ServerState \<Rightarrow> bool" where
  "cred_wf s = hm_wf (srv_credentials s)"

definition auth_ok :: "string \<Rightarrow> nat \<Rightarrow> ServerState \<Rightarrow> bool \<times> ServerState" where
  "auth_ok t now s = (is_ok (fst (authenticate t now s)), snd (authenticate t now s))"

fun mint_op :: "u8 list \<times> nat \<times> nat \<times> nat \<Rightarrow> ServerState \<Rightarrow> ServerState" where
  "mint_op (bytes, n, ttl, now) s = snd (issue_credential bytes n ttl now s)"

fun mint_token :: "u8 list \<times> nat \<times> nat \<times> nat \<Rightarrow> string" where
  "mint_token (bytes, n, ttl, now) = cred_token (issue bytes n ttl)"

fun cred_event :: "cred_op \<Rightarrow> (u8 list \<times> nat \<times> nat \<times> nat) + string \<times> nat" where
  "cred_event (Issue_Op b n ttl now) = Inl (b, n, ttl, now)"
| "cred_event (Auth_Op t now) = Inr (t, now)"

section \<open>Interface: one-time tokens\<close>

text \<open>
  What the transport needs of a token store: redeeming accepts only a live token and leaves it
  dead, nothing but issuing a token makes it live. A client then never sees more acceptances of a
  token than it was issued.
\<close>

locale one_time =
  fixes live :: "'t \<Rightarrow> 's \<Rightarrow> bool"
    and redeem :: "'t \<Rightarrow> 'n \<Rightarrow> 's \<Rightarrow> bool \<times> 's"
    and mint :: "'i \<Rightarrow> 's \<Rightarrow> 's"
    and minted :: "'i \<Rightarrow> 't"
    and wf :: "'s \<Rightarrow> bool"
  assumes redeem_wf: "wf s \<Longrightarrow> wf (snd (redeem t n s))"
    and mint_wf: "wf s \<Longrightarrow> wf (mint i s)"
    and redeem_live: "wf s \<Longrightarrow> fst (redeem t n s) \<Longrightarrow> live t s \<and> \<not> live t (snd (redeem t n s))"
    and redeem_keeps_dead: "wf s \<Longrightarrow> \<not> live u s \<Longrightarrow> \<not> live u (snd (redeem t n s))"
    and mint_keeps_dead: "wf s \<Longrightarrow> \<not> live u s \<Longrightarrow> minted i \<noteq> u \<Longrightarrow> \<not> live u (mint i s)"
begin

text \<open>Acceptances of \<open>u\<close> along a history of redemptions (\<open>Inr\<close>) and issues (\<open>Inl\<close>).\<close>

fun hits :: "'t \<Rightarrow> ('i + 't \<times> 'n) list \<Rightarrow> 's \<Rightarrow> nat" where
  "hits u [] s = 0"
| "hits u (Inl i # h) s = hits u h (mint i s)"
| "hits u (Inr (t, n) # h) s =
     of_bool (t = u \<and> fst (redeem t n s)) + hits u h (snd (redeem t n s))"

fun mints :: "'t \<Rightarrow> ('i + 't \<times> 'n) list \<Rightarrow> nat" where
  "mints u [] = 0"
| "mints u (Inl i # h) = of_bool (minted i = u) + mints u h"
| "mints u (Inr x # h) = mints u h"

lemma hits_le_mints: "wf s \<Longrightarrow> hits u h s \<le> of_bool (live u s) + mints u h"
proof (induction h arbitrary: s)
  case (Cons x h)
  show ?case
  proof (cases x)
    case (Inl i)
    have "hits u h (mint i s) \<le> of_bool (live u (mint i s)) + mints u h"
      by (rule Cons.IH [OF mint_wf [OF Cons.prems]])
    with mint_keeps_dead [OF Cons.prems, of u i] show ?thesis
      unfolding Inl by (auto simp: of_bool_def split: if_splits)
  next
    case (Inr y)
    obtain t n where y: "y = (t, n)" by (cases y)
    have "hits u h (snd (redeem t n s)) \<le> of_bool (live u (snd (redeem t n s))) + mints u h"
      by (rule Cons.IH [OF redeem_wf [OF Cons.prems]])
    with redeem_live [OF Cons.prems, of t n] redeem_keeps_dead [OF Cons.prems, of u t n]
    show ?thesis unfolding Inr y by (auto simp: of_bool_def split: if_splits)
  qed
qed simp

end

section \<open>Lemmas\<close>

lemma auth_ok_simps [simp]:
  "fst (auth_ok t now s) = is_ok (fst (authenticate t now s))"
  "snd (auth_ok t now s) = snd (authenticate t now s)"
  by (simp_all add: auth_ok_def)

lemma authenticate_wf: "cred_wf s \<Longrightarrow> cred_wf (snd (authenticate t now s))"
  by (auto simp: cred_wf_def authenticate_def hm_wf_insert hm_wf_remove split: option.splits)

lemma issue_wf: "cred_wf s \<Longrightarrow> cred_wf (snd (issue_credential b n ttl now s))"
  by (simp add: cred_wf_def issue_credential_def Let_def hm_wf_insert hm_wf_retain)

lemma authenticate_redeemable:
  "is_ok (fst (authenticate t now s)) \<Longrightarrow> redeemable t s \<and> \<not> redeemable t (snd (authenticate t now s))"
  by (auto simp: authenticate_def redeemable_def hm_get_insert split: option.splits if_splits)

lemma authenticate_keeps_dead:
  "\<not> redeemable u s \<Longrightarrow> \<not> redeemable u (snd (authenticate t now s))"
  by (auto simp: authenticate_def redeemable_def hm_get_insert hm_get_remove split: option.splits)

lemma issue_keeps_dead:
  assumes "cred_wf s" and "\<not> redeemable u s" and "cred_token (issue b n ttl) \<noteq> u"
  shows "\<not> redeemable u (snd (issue_credential b n ttl now s))"
  using assms
  by (auto simp: redeemable_def issue_credential_def Let_def hm_get_insert hm_get_retain cred_wf_def
      split: option.splits if_splits)

interpretation cred: one_time redeemable auth_ok mint_op mint_token cred_wf
  by unfold_locales
    (auto dest: authenticate_wf issue_wf authenticate_redeemable authenticate_keeps_dead issue_keeps_dead)

lemma accepted_count_simps [simp]:
  "accepted_count t [] = 0"
  "accepted_count t ((u, r) # rs) = of_bool (u = t \<and> is_ok r) + accepted_count t rs"
  by (simp_all add: accepted_count_def)

lemma accepted_count_hits:
  "accepted_count t (fst (cred_run ops s)) = cred.hits t (map cred_event ops) s"
  by (induction ops s rule: cred_run.induct) (auto split: prod.splits)

lemma issues_mints: "length (filter (issues t) ops) = cred.mints t (map cred_event ops)"
proof (induction ops)
  case (Cons op ops)
  then show ?case by (cases op) simp_all
qed simp

lemma digit_char_hex: "d < 16 \<Longrightarrow> is_ascii_hexdigit (digit_char d)"
  by (auto simp: digit_char_def is_ascii_hexdigit_def is_ascii_digit_def byte_of_def)

lemma char_of_48: "char_of (48 :: nat) = CHR ''0''"
  by code_simp

lemma hex_byte:
  fixes b :: u8
  shows "pad0 2 (show_base 16 (unat b)) = [digit_char (unat b div 16), digit_char (unat b mod 16)]"
proof -
  have "unat b < 256" using unsigned_less [of b, where 'a = nat] by simp
  then have "unat b div 16 < 16" by linarith
  moreover have "unat b < 16 \<Longrightarrow> digit_char (unat b div 16) = CHR ''0''"
    by (simp add: digit_char_def char_of_48)
  ultimately show ?thesis
    by (cases "unat b < 16") (simp_all add: pad0_def show_base.simps [of 16])
qed

lemma hex_well_formed: "length (hex bytes) = 2 * length bytes \<and> list_all is_ascii_hexdigit (hex bytes)"
proof (induction bytes)
  case (Cons b bytes)
  have "unat b div 16 < 16" using unsigned_less [of b, where 'a = nat] by simp
  with Cons show ?case
    by (simp add: hex_def hex_byte digit_char_hex)
qed (simp add: hex_def)

lemma issued_format: "length bytes = 16 \<Longrightarrow> is_valid_format (cred_token (issue bytes n ttl))"
  using hex_well_formed [of bytes]
  by (simp add: is_valid_format_def issue_def TOKEN_HEX_CHARS_def)

lemma authenticate_entry:
  "hm_get (srv_credentials (snd (authenticate t now s))) u = Some e \<Longrightarrow>
   \<exists>e'. hm_get (srv_credentials s) u = Some e' \<and> ic_expires_at e' = ic_expires_at e"
  by (auto simp: authenticate_def hm_get_insert hm_get_remove split: option.splits if_splits)

lemma issue_entry:
  assumes "cred_wf s" and "hm_get (srv_credentials (snd (issue_credential b n ttl now s))) u = Some e"
  shows "hm_get (srv_credentials s) u = Some e \<or>
    u = cred_token (issue b n ttl) \<and> ic_expires_at e = n + ttl"
  using assms
  by (auto simp: issue_credential_def Let_def hm_get_insert hm_get_retain cred_wf_def issue_def
      split: option.splits if_splits)

lemma origin_append: "origin h t x \<Longrightarrow> origin (h @ k) t x"
  by (auto simp: origin_def)

lemma origin_issue: "origin (h @ [Issue_Op b n ttl now]) (cred_token (issue b n ttl)) (n + ttl)"
  by (auto simp: origin_def)

lemma issued_by_run:
  assumes "cred_wf s" and "\<forall>t e. hm_get (srv_credentials s) t = Some e \<longrightarrow> origin h t (ic_expires_at e)"
  shows "\<forall>t e. hm_get (srv_credentials (snd (cred_run ops s))) t = Some e \<longrightarrow>
    origin (h @ ops) t (ic_expires_at e)"
  using assms
proof (induction ops s arbitrary: h rule: cred_run.induct)
  case (2 b n ttl now ops s)
  have "\<forall>t e. hm_get (srv_credentials (snd (issue_credential b n ttl now s))) t = Some e \<longrightarrow>
      origin (h @ [Issue_Op b n ttl now]) t (ic_expires_at e)"
    using 2(3) by (auto dest!: issue_entry [OF 2(2)] intro: origin_append simp: origin_issue)
  from 2(1) [OF issue_wf [OF 2(2)] this] show ?case by simp
next
  case (3 t now ops s)
  obtain r s' where rs: "authenticate t now s = (r, s')" by fastforce
  have "\<forall>u e. hm_get (srv_credentials s') u = Some e \<longrightarrow>
      origin (h @ [Auth_Op t now]) u (ic_expires_at e)"
    using 3(3) authenticate_entry [of t now s] rs by (metis origin_append snd_conv)
  from 3(1) [OF rs [symmetric] _ this] authenticate_wf [OF 3(2), of t now] show ?case
    by (simp add: rs split: prod.splits)
qed simp

section \<open>Properties\<close>

text \<open>
  C6. Single use: along any history of issues and handshakes of a fresh server, whatever the clocks
  read, a token is accepted at most as often as it was issued. With unguessable fresh tokens that
  is at most once.
\<close>

theorem credential_single_use:
  "accepted_count t (fst (cred_run ops (new_server lim))) \<le> length (filter (issues t) ops)"
  using cred.hits_le_mints [of "new_server lim" t "map cred_event ops"]
  by (simp add: accepted_count_hits issues_mints cred_wf_def new_server_def hm_empty redeemable_def)

text \<open>
  Soundness of acceptance: a handshake that succeeds after any history presented a well-formed
  token that the server issued in that history with an expiry later than the handshake.
\<close>

lemma credential_accept_sound:
  assumes "authenticate t now (snd (cred_run ops (new_server lim))) = (Ok (), s')"
  shows "is_valid_format t \<and> (\<exists>b n ttl sweep. Issue_Op b n ttl sweep \<in> set ops \<and>
    cred_token (issue b n ttl) = t \<and> now < n + ttl)"
proof -
  let ?s = "snd (cred_run ops (new_server lim))"
  from assms obtain e where e: "is_valid_format t" "hm_get (srv_credentials ?s) t = Some e"
    "now < ic_expires_at e"
    by (auto simp: authenticate_def split: if_splits option.splits)
  have "origin ops t (ic_expires_at e)"
    using issued_by_run [of "new_server lim" "[]" ops] e(2)
    by (simp add: new_server_def cred_wf_def hm_empty)
  with e show ?thesis unfolding origin_def by metis
qed

text \<open>
  Life of a credential: the token of a freshly issued credential is accepted by the first
  handshake before its expiry; a second handshake before the expiry is refused as a replay, the
  first one at or after the expiry as stale, and from then on the token is unknown.
\<close>

lemma credential_lifecycle:
  assumes "length bytes = 16" and "t1 < n + ttl" and "t2 < n + ttl" and "n + ttl \<le> t3"
  shows "let (c, s0) = issue_credential bytes n ttl sweep s;
      (r1, s1) = authenticate (cred_token c) t1 s0; (r2, s2) = authenticate (cred_token c) t2 s1;
      (r3, s3) = authenticate (cred_token c) t3 s2; (r4, s4) = authenticate (cred_token c) t4 s3
    in r1 = Ok () \<and> r2 = Err Replay \<and> r3 = Err Stale \<and> r4 = Err Invalid"
  using assms issued_format [OF assms(1), of n ttl]
  by (simp add: issue_credential_def Let_def authenticate_def hm_get_insert hm_get_remove issue_def)

end
