(* ===== verification/Transport.thy ===== *)
theory Transport
  imports Credentials
begin

text \<open>
  The per-connection side of the local transport: error model, handshake, supervised message loop
  and client (\<^verbatim>\<open>crates/local-transport/src/{error,handshake,server,client}.rs\<close>). A carrier stream is
  the events its reads meet, the bytes written so far and the failures it will show. JSON
  serialization (\<^verbatim>\<open>serde_json\<close>) is a parameter. Each pass of the message loop takes its clock
  readings, the frames the application drained and the writes it queued as one \<open>loop_tick\<close>.
\<close>

section \<open>Errors\<close>

datatype TransportError =
    Transport_Io io_kind
  | Auth AuthError
  | Busy
  | Closed
  | Transport_Oversized nat nat
  | Protocol FrameError
  | Serialization

definition is_timeout_kind :: "io_kind \<Rightarrow> bool" where
  "is_timeout_kind k = (k = WouldBlock \<or> k = TimedOut)"

fun is_timeout :: "TransportError \<Rightarrow> bool" where
  "is_timeout (Transport_Io k) = is_timeout_kind k"
| "is_timeout _ = False"

definition from_reason :: "string option \<Rightarrow> TransportError" where
  "from_reason reason =
     (if reason = Some ''invalid'' then Auth Invalid
      else if reason = Some ''replay'' then Auth Replay
      else if reason = Some ''stale'' then Auth Stale
      else if reason = Some ''malformed'' then Auth Malformed
      else if reason = Some ''busy'' then Busy
      else Auth Malformed)"

fun reason_str :: "AuthError \<Rightarrow> string" where
  "reason_str Invalid = ''invalid''"
| "reason_str Replay = ''replay''"
| "reason_str Stale = ''stale''"
| "reason_str Malformed = ''malformed''"

fun from_frame_read_error :: "FrameReadError \<Rightarrow> TransportError" where
  "from_frame_read_error (Io k) = Transport_Io k"
| "from_frame_read_error (Frame f) = Protocol f"

section \<open>Carriers and handshake messages\<close>

text \<open>
  \<open>cr_wfault = Some (n, k)\<close>: \<open>n\<close> more bytes can be written, then writes fail with \<open>k\<close>;
  \<open>rejects_zero\<close>: the carrier refuses a zero read timeout, as the sockets of the standard library do.
\<close>

record carrier =
  cr_inp :: reader
  cr_out :: "u8 list"
  cr_wfault :: "(nat \<times> io_kind) option"
  cr_tfault :: "io_kind option"
  rejects_zero :: bool

definition set_timeout :: "nat option \<Rightarrow> carrier \<Rightarrow> (unit, io_kind) result" where
  "set_timeout d c =
     (if d = Some 0 \<and> rejects_zero c then Err OtherIo
      else case cr_tfault c of None \<Rightarrow> Ok () | Some k \<Rightarrow> Err k)"

definition write_all :: "u8 list \<Rightarrow> carrier \<Rightarrow> (unit, io_kind) result \<times> carrier" where
  "write_all bytes c =
     (case cr_wfault c of
        None \<Rightarrow> (Ok (), c\<lparr>cr_out := cr_out c @ bytes\<rparr>)
      | Some (n, k) \<Rightarrow>
          if length bytes \<le> n then
            (Ok (), c\<lparr>cr_out := cr_out c @ bytes, cr_wfault := Some (n - length bytes, k)\<rparr>)
          else (Err k, c\<lparr>cr_out := cr_out c @ take n bytes, cr_wfault := Some (0, k)\<rparr>))"

definition write_frame_all :: "u8 list \<Rightarrow> carrier \<Rightarrow> (unit, io_kind) result \<times> carrier" where
  "write_frame_all payload c = write_all (encode_frame payload) c"

definition carrier_read_frame ::
  "nat \<Rightarrow> carrier \<Rightarrow> (u8 list option, FrameReadError) result \<times> carrier" where
  "carrier_read_frame mx c = (case read_frame (cr_inp c) mx of (r, rd) \<Rightarrow> (r, c\<lparr>cr_inp := rd\<rparr>))"

record ClientHello =
  ch_token :: string

record ServerHello =
  sh_accepted :: bool
  sh_reason :: "string option"

text \<open>The (de)serializers of the two messages, a parameter.\<close>

record hello_codec =
  ser_client_hello :: "ClientHello \<Rightarrow> u8 list option"
  parse_client_hello :: "u8 list \<Rightarrow> ClientHello option"
  ser_server_hello :: "ServerHello \<Rightarrow> u8 list option"
  parse_server_hello :: "u8 list \<Rightarrow> ServerHello option"

section \<open>Server side of the handshake\<close>

datatype HandshakeResult =
    Authenticated
  | Rejected AuthError
  | Hs_Closed
  | Hs_TimedOut
  | Hs_Protocol
  | Hs_Io

definition perform_handshake ::
  "hello_codec \<Rightarrow> nat \<Rightarrow> ServerState \<Rightarrow> carrier \<Rightarrow> HandshakeResult \<times> ServerState \<times> carrier" where
  "perform_handshake j now s c =
     (case carrier_read_frame (max_frame_bytes (srv_limits s)) c of
        (Ok (Some bytes), c') \<Rightarrow>
          (case parse_client_hello j bytes of
             Some hello \<Rightarrow>
               (case authenticate (ch_token hello) now s of
                  (Ok _, s') \<Rightarrow> (Authenticated, s', c')
                | (Err e, s') \<Rightarrow> (Rejected e, s', c'))
           | None \<Rightarrow> (Rejected Malformed, s, c'))
      | (Ok None, c') \<Rightarrow> (Hs_Closed, s, c')
      | (Err (Io k), c') \<Rightarrow> ((if is_timeout_kind k then Hs_TimedOut else Hs_Io), s, c')
      | (Err (Frame _), c') \<Rightarrow> (Hs_Protocol, s, c'))"

definition write_handshake_reply ::
  "hello_codec \<Rightarrow> bool \<Rightarrow> string option \<Rightarrow> carrier \<Rightarrow> bool \<times> carrier" where
  "write_handshake_reply j acc reason c =
     (case ser_server_hello j \<lparr>sh_accepted = acc, sh_reason = reason\<rparr> of
        Some bytes \<Rightarrow> (case write_frame_all bytes c of (r, c') \<Rightarrow> (is_ok r, c'))
      | None \<Rightarrow> (False, c))"

text \<open>The reply each outcome of the handshake gets in \<open>connection_worker\<close>.\<close>

definition handshake_reply :: "hello_codec \<Rightarrow> HandshakeResult \<Rightarrow> carrier \<Rightarrow> carrier" where
  "handshake_reply j h c =
     (case h of
        Authenticated \<Rightarrow> snd (write_handshake_reply j True None c)
      | Rejected e \<Rightarrow> snd (write_handshake_reply j False (Some (reason_str e)) c)
      | Hs_Protocol \<Rightarrow> snd (write_handshake_reply j False (Some ''malformed'') c)
      | _ \<Rightarrow> c)"

definition REJECT_READ_TIMEOUT :: nat where
  "REJECT_READ_TIMEOUT = 200"

definition reject_busy :: "hello_codec \<Rightarrow> ServerState \<Rightarrow> carrier \<Rightarrow> carrier" where
  "reject_busy j s c =
     snd (write_handshake_reply j False (Some ''busy'')
       (snd (carrier_read_frame (max_frame_bytes (srv_limits s)) c)))"

section \<open>Message loop\<close>

definition WORKER_POLL_INTERVAL :: nat where
  "WORKER_POLL_INTERVAL = 20"

definition QUEUED_FRAMES :: nat where
  "QUEUED_FRAMES = 16"

datatype EndReason = PeerClosed | End_Protocol | End_Timeout | End_Io

record loop_tick =
  tk_top :: nat
  tk_after :: nat
  tk_drained :: nat
  tk_writes :: "u8 list list"

text \<open>The acknowledgements sent back for the queued writes are kept in order.\<close>

record worker =
  wk_stream :: carrier
  wk_last_activity :: nat
  wk_queue :: "u8 list list"
  wk_acks :: "(unit, TransportError) result list"

fun drain_writes :: "u8 list list \<Rightarrow> worker \<Rightarrow> EndReason option \<times> worker" where
  "drain_writes [] w = (None, w)"
| "drain_writes (payload # rest) w =
     (case write_frame_all payload (wk_stream w) of
        (r, c) \<Rightarrow>
          let w' = w\<lparr>wk_stream := c, wk_acks := wk_acks w @ [map_err Transport_Io r]\<rparr>
          in case r of
               Ok _ \<Rightarrow> drain_writes rest w'
             | Err k \<Rightarrow> (Some (if is_timeout_kind k then End_Timeout else End_Io), w'))"

definition worker_tick :: "Limits \<Rightarrow> loop_tick \<Rightarrow> worker \<Rightarrow> EndReason option \<times> worker" where
  "worker_tick lim tk w =
     (let remaining = read_deadline lim - (tk_top tk - wk_last_activity w);
          tick = min remaining WORKER_POLL_INTERVAL;
          w1 = w\<lparr>wk_queue := drop (tk_drained tk) (wk_queue w)\<rparr>
      in case set_timeout (Some tick) (wk_stream w1) of
           Err _ \<Rightarrow> (Some End_Io, w1)
         | Ok _ \<Rightarrow>
             (case carrier_read_frame (max_frame_bytes lim) (wk_stream w1) of
                (Ok (Some frame), c) \<Rightarrow>
                  let w2 = w1\<lparr>wk_stream := c, wk_last_activity := tk_after tk\<rparr>
                  in if QUEUED_FRAMES \<le> length (wk_queue w2) then (Some End_Timeout, w2)
                     else drain_writes (tk_writes tk) (w2\<lparr>wk_queue := wk_queue w2 @ [frame]\<rparr>)
              | (Ok None, c) \<Rightarrow> (Some PeerClosed, w1\<lparr>wk_stream := c\<rparr>)
              | (Err (Io k), c) \<Rightarrow>
                  if is_timeout_kind k then
                    if read_deadline lim \<le> tk_after tk - wk_last_activity w1
                    then (Some End_Timeout, w1\<lparr>wk_stream := c\<rparr>)
                    else drain_writes (tk_writes tk) (w1\<lparr>wk_stream := c\<rparr>)
                  else (Some End_Io, w1\<lparr>wk_stream := c\<rparr>)
              | (Err (Frame _), c) \<Rightarrow> (Some End_Protocol, w1\<lparr>wk_stream := c\<rparr>)))"

text \<open>The loop over its passes; \<open>None\<close>: still running after the passes given.\<close>

fun worker_loop :: "Limits \<Rightarrow> loop_tick list \<Rightarrow> worker \<Rightarrow> EndReason option \<times> worker" where
  "worker_loop lim [] w = (None, w)"
| "worker_loop lim (tk # tks) w =
     (case worker_tick lim tk w of
        (Some r, w') \<Rightarrow> (Some r, w')
      | (None, w') \<Rightarrow> worker_loop lim tks w')"

definition send_queued :: "ServerConn \<Rightarrow> u8 list \<Rightarrow> (u8 list, TransportError) result" where
  "send_queued conn payload =
     (if conn_max_frame conn < length payload
      then Err (Transport_Oversized (length payload) (conn_max_frame conn))
      else Ok payload)"

section \<open>Client\<close>

record LocalClient =
  lc_stream :: carrier
  lc_limits :: Limits
  lc_peer :: PeerDesc

definition connect_stream ::
  "hello_codec \<Rightarrow> carrier \<Rightarrow> PeerDesc \<Rightarrow> Credential \<Rightarrow> Limits \<Rightarrow> (LocalClient, TransportError) result" where
  "connect_stream j c peer cred lim =
     bind_result (map_err Transport_Io (set_timeout (Some (handshake_deadline lim)) c)) (\<lambda>_.
     bind_result (ok_or Serialization (ser_client_hello j \<lparr>ch_token = cred_token cred\<rparr>)) (\<lambda>payload.
     bind_result (map_err Protocol (encode_frame_checked payload (max_frame_bytes lim))) (\<lambda>frame.
     (case write_all frame c of
        (Err k, _) \<Rightarrow> Err (Transport_Io k)
      | (Ok _, c1) \<Rightarrow>
          (case carrier_read_frame (max_frame_bytes lim) c1 of
             (Err e, _) \<Rightarrow> Err (from_frame_read_error e)
           | (Ok None, _) \<Rightarrow> Err Closed
           | (Ok (Some bytes), c2) \<Rightarrow>
               bind_result (ok_or Serialization (parse_server_hello j bytes)) (\<lambda>ack.
               if \<not> sh_accepted ack then Err (from_reason (sh_reason ack))
               else bind_result (map_err Transport_Io (set_timeout None c2)) (\<lambda>_.
                 Ok \<lparr>lc_stream = c2, lc_limits = lim, lc_peer = peer\<rparr>)))))))"

definition client_send :: "u8 list \<Rightarrow> LocalClient \<Rightarrow> (unit, TransportError) result \<times> LocalClient" where
  "client_send payload cl =
     (if max_frame_bytes (lc_limits cl) < length payload
      then (Err (Transport_Oversized (length payload) (max_frame_bytes (lc_limits cl))), cl)
      else case write_all (encode_frame payload) (lc_stream cl) of
             (r, c) \<Rightarrow> (map_err Transport_Io r, cl\<lparr>lc_stream := c\<rparr>))"

definition client_recv :: "LocalClient \<Rightarrow> (u8 list option, TransportError) result \<times> LocalClient" where
  "client_recv cl =
     (case carrier_read_frame (max_frame_bytes (lc_limits cl)) (lc_stream cl) of
        (r, c) \<Rightarrow> (map_err from_frame_read_error r, cl\<lparr>lc_stream := c\<rparr>))"

definition client_recv_timeout ::
  "nat \<Rightarrow> LocalClient \<Rightarrow> (u8 list option, TransportError) result \<times> LocalClient" where
  "client_recv_timeout timeout cl =
     (case set_timeout (Some timeout) (lc_stream cl) of
        Err k \<Rightarrow> (Err (Transport_Io k), cl)
      | Ok _ \<Rightarrow>
          (case carrier_read_frame (max_frame_bytes (lc_limits cl)) (lc_stream cl) of
             (r, c) \<Rightarrow>
               ((case r of
                   Ok x \<Rightarrow> Ok x
                 | Err (Io k) \<Rightarrow> if is_timeout_kind k then Ok None else Err (Transport_Io k)
                 | Err e \<Rightarrow> Err (from_frame_read_error e)),
                cl\<lparr>lc_stream := c\<rparr>)))"

section \<open>Specification of the codec parameter\<close>

text \<open>
  What the handshake relies on of the JSON serializer: both messages serialize, within the
  frame limit, and parse back to the same value.
\<close>

definition hello_codec_ok :: "hello_codec \<Rightarrow> nat \<Rightarrow> bool" where
  "hello_codec_ok j mx =
     ((\<forall>h. \<exists>bs. ser_client_hello j h = Some bs \<and> parse_client_hello j bs = Some h \<and>
          (length (ch_token h) \<le> 64 \<longrightarrow> length bs \<le> mx)) \<and>
      (\<forall>h. \<exists>bs. ser_server_hello j h = Some bs \<and> parse_server_hello j bs = Some h \<and>
          ((\<forall>r. sh_reason h = Some r \<longrightarrow> length r \<le> 16) \<longrightarrow> length bs \<le> mx)))"

definition verdict_hello :: "(unit, AuthError) result \<Rightarrow> ServerHello" where
  "verdict_hello r = (case r of Ok _ \<Rightarrow> \<lparr>sh_accepted = True, sh_reason = None\<rparr>
     | Err e \<Rightarrow> \<lparr>sh_accepted = False, sh_reason = Some (reason_str e)\<rparr>)"

text \<open>The verdict of the credential check as the client sees it.\<close>

definition client_verdict :: "(unit, AuthError) result \<Rightarrow> TransportError option" where
  "client_verdict r = (case r of Ok _ \<Rightarrow> None | Err e \<Rightarrow> Some (Auth e))"

definition client_outcome :: "(LocalClient, TransportError) result \<Rightarrow> TransportError option" where
  "client_outcome r = (case r of Ok _ \<Rightarrow> None | Err e \<Rightarrow> Some e)"

text \<open>A concrete codec, one byte per character, for which the hypotheses hold.\<close>

definition byte_hello_codec :: hello_codec where
  "byte_hello_codec =
     \<lparr>ser_client_hello = (\<lambda>h. Some (map (\<lambda>c. of_nat (byte_of c)) (ch_token h))),
      parse_client_hello = (\<lambda>bs. Some \<lparr>ch_token = map (\<lambda>b. char_of (unat b)) bs\<rparr>),
      ser_server_hello = (\<lambda>h. Some (of_bool (sh_accepted h) #
        (case sh_reason h of None \<Rightarrow> [] | Some r \<Rightarrow> 1 # map (\<lambda>c. of_nat (byte_of c)) r))),
      parse_server_hello = (\<lambda>bs. case bs of [] \<Rightarrow> None
        | b # bs' \<Rightarrow> Some \<lparr>sh_accepted = (b = 1), sh_reason = (case bs' of [] \<Rightarrow> None
            | _ # r \<Rightarrow> Some (map (\<lambda>b. char_of (unat b)) r))\<rparr>)\<rparr>"

definition small_limits :: Limits where
  "small_limits = \<lparr>max_frame_bytes = 64, handshake_deadline = 1, read_deadline = 5,
     write_deadline = 5, max_connections = 2\<rparr>"

section \<open>Lemmas\<close>

lemma char_byte_roundtrip [simp]: "char_of (unat (of_nat (byte_of c) :: u8)) = c"
proof -
  have "byte_of c < 256" by (simp add: byte_of_def)
  then have "unat (of_nat (byte_of c) :: u8) = byte_of c"
    by (simp add: unat_of_nat take_bit_nat_eq_self)
  then show ?thesis by (simp add: byte_of_def)
qed

lemma byte_hello_codec_ok: "64 \<le> mx \<Longrightarrow> hello_codec_ok byte_hello_codec mx"
  by (auto simp: hello_codec_ok_def byte_hello_codec_def comp_def split: option.splits)

lemma from_reason_reason_str [simp]: "from_reason (Some (reason_str e)) = Auth e"
  by (cases e) (simp_all add: from_reason_def)

lemma length_reason_str: "length (reason_str e) \<le> 16"
  by (cases e) simp_all

lemma hello_codec_client:
  assumes "hello_codec_ok j mx"
  obtains bs where "ser_client_hello j h = Some bs" "parse_client_hello j bs = Some h"
    "length (ch_token h) \<le> 64 \<longrightarrow> length bs \<le> mx"
  using assms unfolding hello_codec_ok_def by blast

lemma hello_codec_server:
  assumes "hello_codec_ok j mx"
  obtains bs where "ser_server_hello j h = Some bs" "parse_server_hello j bs = Some h"
    "(\<forall>r. sh_reason h = Some r \<longrightarrow> length r \<le> 16) \<longrightarrow> length bs \<le> mx"
  using assms unfolding hello_codec_ok_def by blast

text \<open>Reading one complete frame off a carrier that does not fail.\<close>

lemma carrier_read_frame_encoded:
  assumes "clean_reader (cr_inp c)" and "reader_bytes (cr_inp c) = encode_frame p"
    and "length p \<le> mx" and "mx < 2 ^ 32"
  obtains rd where "carrier_read_frame mx c = (Ok (Some p), c\<lparr>cr_inp := rd\<rparr>)"
  using read_frame_clean [OF assms(1), of mx] frame_outcome_encode [OF assms(3,4), of "[]"] assms(2) that
  by (auto simp: carrier_read_frame_def)

lemma write_handshake_reply_out:
  assumes "cr_wfault c = None" and "ser_server_hello j \<lparr>sh_accepted = acc, sh_reason = r\<rparr> = Some bs"
  shows "cr_out (snd (write_handshake_reply j acc r c)) = cr_out c @ encode_frame bs"
  using assms by (simp add: write_handshake_reply_def write_frame_all_def write_all_def)

text \<open>The server's half of the exchange, as a function of the credential check.\<close>

lemma server_half:
  assumes codec: "hello_codec_ok j mx" and mx: "mx = max_frame_bytes (srv_limits s)" "mx < 2 ^ 32"
    and hello: "parse_client_hello j hb = Some h" "length hb \<le> mx"
    and c: "clean_reader (cr_inp c)" "reader_bytes (cr_inp c) = encode_frame hb"
      "cr_wfault c = None" "cr_out c = []"
    and ph: "perform_handshake j now s c = (hs, s', c')"
    and r: "r = fst (authenticate (ch_token h) now s)"
  obtains bs where "cr_out (handshake_reply j hs c') = encode_frame bs" "length bs \<le> mx"
    "parse_server_hello j bs = Some (verdict_hello r)"
proof -
  obtain rd where rd: "carrier_read_frame mx c = (Ok (Some hb), c\<lparr>cr_inp := rd\<rparr>)"
    using carrier_read_frame_encoded [OF c(1,2) hello(2) mx(2)] .
  have hs: "hs = (case r of Ok _ \<Rightarrow> Authenticated | Err e \<Rightarrow> Rejected e) \<and> c' = c\<lparr>cr_inp := rd\<rparr>"
    using ph r rd hello(1) mx(1)
    by (auto simp: perform_handshake_def split: prod.splits result.splits)
  obtain bs where bs: "ser_server_hello j (verdict_hello r) = Some bs"
    "parse_server_hello j bs = Some (verdict_hello r)"
    "(\<forall>x. sh_reason (verdict_hello r) = Some x \<longrightarrow> length x \<le> 16) \<longrightarrow> length bs \<le> mx"
    using hello_codec_server [OF codec, of "verdict_hello r"] .
  have "length bs \<le> mx"
    by (rule bs(3) [THEN mp]) (cases r; simp add: verdict_hello_def length_reason_str)
  moreover have "cr_out (handshake_reply j hs c') = encode_frame bs"
    using hs bs(1) c(3,4)
    by (cases r) (simp_all add: handshake_reply_def write_handshake_reply_out verdict_hello_def)
  ultimately show ?thesis using that bs(2) by blast
qed

text \<open>The client's half, as a function of the reply it reads.\<close>

lemma client_half:
  assumes "ser_client_hello j \<lparr>ch_token = cred_token cred\<rparr> = Some hb" "length hb \<le> max_frame_bytes lim"
    and "clean_reader (cr_inp c)" "reader_bytes (cr_inp c) = encode_frame bs"
      "cr_wfault c = None" "cr_tfault c = None" "0 < handshake_deadline lim"
    and "length bs \<le> max_frame_bytes lim" "max_frame_bytes lim < 2 ^ 32"
      "parse_server_hello j bs = Some ack"
  shows "client_outcome (connect_stream j c peer cred lim) =
    (if sh_accepted ack then None else Some (from_reason (sh_reason ack)))"
proof -
  let ?c = "c\<lparr>cr_out := cr_out c @ encode_frame hb\<rparr>"
  have "clean_reader (cr_inp ?c)" "reader_bytes (cr_inp ?c) = encode_frame bs"
    using assms(3,4) by simp_all
  from carrier_read_frame_encoded [OF this assms(8,9)]
  obtain rd where rd: "carrier_read_frame (max_frame_bytes lim) ?c = (Ok (Some bs), ?c\<lparr>cr_inp := rd\<rparr>)" .
  show ?thesis
    using assms(1,2,5-7,10) rd
    by (simp add: connect_stream_def client_outcome_def set_timeout_def write_all_def encode_frame_checked_def)
qed

lemma carrier_read_frame_stream:
  assumes "clean_reader (cr_inp c)" and "reader_bytes (cr_inp c) = concat (map encode_frame (p # ps))"
    and "length p \<le> mx" and "mx < 2 ^ 32"
  obtains rd where "carrier_read_frame mx c = (Ok (Some p), c\<lparr>cr_inp := rd\<rparr>)" "clean_reader rd"
    "reader_bytes rd = concat (map encode_frame ps)"
  using read_frame_clean [OF assms(1), of mx]
    frame_outcome_encode [OF assms(3,4), of "concat (map encode_frame ps)"] assms(2) that
  by (auto simp: carrier_read_frame_def)

lemma carrier_read_frame_eof:
  assumes "clean_reader (cr_inp c)" and "reader_bytes (cr_inp c) = []"
  obtains rd where "carrier_read_frame mx c = (Ok None, c\<lparr>cr_inp := rd\<rparr>)"
  using read_frame_clean [OF assms(1), of mx] assms(2) that
  by (auto simp: carrier_read_frame_def frame_outcome_def)

text \<open>Writes on a carrier that accepts them all.\<close>

lemma drain_writes_ok:
  "cr_wfault (wk_stream w) = None \<Longrightarrow>
   \<exists>w'. drain_writes ps w = (None, w') \<and> wk_queue w' = wk_queue w \<and>
     wk_last_activity w' = wk_last_activity w \<and>
     wk_stream w' = (wk_stream w)\<lparr>cr_out := cr_out (wk_stream w) @ concat (map encode_frame ps)\<rparr>"
proof (induction ps arbitrary: w)
  case (Cons p ps)
  let ?w = "w\<lparr>wk_stream := (wk_stream w)\<lparr>cr_out := cr_out (wk_stream w) @ encode_frame p\<rparr>,
      wk_acks := wk_acks w @ [Ok ()]\<rparr>"
  have "drain_writes (p # ps) w = drain_writes ps ?w"
    using Cons.prems by (simp add: write_frame_all_def write_all_def Let_def)
  with Cons.IH [of ?w] Cons.prems show ?case by auto
qed simp

lemma drain_writes_queue: "wk_queue (snd (drain_writes ps w)) = wk_queue w"
  by (induction ps w rule: drain_writes.induct) (auto simp: Let_def split: prod.splits result.splits)

lemma worker_tick_queue:
  "length (wk_queue w) \<le> QUEUED_FRAMES \<Longrightarrow> length (wk_queue (snd (worker_tick lim tk w))) \<le> QUEUED_FRAMES"
  by (auto simp: worker_tick_def Let_def drain_writes_queue
      split: result.splits prod.splits option.splits FrameReadError.splits)

text \<open>One pass that meets a complete frame.\<close>

lemma worker_tick_frame:
  assumes c: "clean_reader (cr_inp (wk_stream w))"
      "reader_bytes (cr_inp (wk_stream w)) = concat (map encode_frame (p # ps))"
      "cr_wfault (wk_stream w) = None" "cr_tfault (wk_stream w) = None"
    and p: "length p \<le> max_frame_bytes lim" "max_frame_bytes lim < 2 ^ 32"
    and q: "length (wk_queue w) < QUEUED_FRAMES"
    and tk: "tk_drained tk = 0" "tk_top tk - wk_last_activity w < read_deadline lim"
  obtains w' where "worker_tick lim tk w = (None, w')" "clean_reader (cr_inp (wk_stream w'))"
    "reader_bytes (cr_inp (wk_stream w')) = concat (map encode_frame ps)"
    "cr_wfault (wk_stream w') = None" "cr_tfault (wk_stream w') = None"
    "wk_queue w' = wk_queue w @ [p]" "wk_last_activity w' = tk_after tk"
    "cr_out (wk_stream w') = cr_out (wk_stream w) @ concat (map encode_frame (tk_writes tk))"
proof -
  obtain rd where rd: "carrier_read_frame (max_frame_bytes lim) (wk_stream w) =
      (Ok (Some p), (wk_stream w)\<lparr>cr_inp := rd\<rparr>)" "clean_reader rd"
      "reader_bytes rd = concat (map encode_frame ps)"
    using carrier_read_frame_stream [OF c(1,2) p] .
  let ?w = "w\<lparr>wk_stream := (wk_stream w)\<lparr>cr_inp := rd\<rparr>, wk_last_activity := tk_after tk,
      wk_queue := wk_queue w @ [p]\<rparr>"
  have "worker_tick lim tk w = drain_writes (tk_writes tk) ?w"
    using rd(1) tk q c(4)
    by (simp add: worker_tick_def Let_def set_timeout_def WORKER_POLL_INTERVAL_def min_def)
  moreover obtain w' where "drain_writes (tk_writes tk) ?w = (None, w') \<and> wk_queue w' = wk_queue ?w \<and>
     wk_last_activity w' = wk_last_activity ?w \<and>
     wk_stream w' = (wk_stream ?w)\<lparr>cr_out := cr_out (wk_stream ?w) @ concat (map encode_frame (tk_writes tk))\<rparr>"
    using drain_writes_ok [of ?w] c(3) by auto
  ultimately show ?thesis using that [of w'] rd(2,3) c(3,4) by simp
qed

lemma read_some_cut:
  "a \<noteq> [] \<Longrightarrow> length a < n \<Longrightarrow> k \<noteq> Interrupted \<Longrightarrow>
   read_some n (Chunk a # Fault k # rd) = (Err k, rd)"
  by (cases n) (auto simp: Suc_diff_le)

lemma read_frame_cut:
  assumes "encode_frame p = a @ b" and "a \<noteq> []" and "b \<noteq> []" and "length p \<le> mx" and "mx < 2 ^ 32"
  shows "read_frame (Chunk a # Fault TimedOut # rd) mx = (Err (Io TimedOut), rd)"
proof (cases "length a < 4")
  case True
  then show ?thesis
    using read_some_cut [OF assms(2), of 4 TimedOut rd] by (simp add: read_frame_def LENGTH_PREFIX_BYTES_def)
next
  case False
  let ?pre = "to_le_bytes (of_nat (length p))"
  have pre: "take 4 a = ?pre" and rest: "p = drop 4 a @ b"
    using assms(1) False by (auto simp: encode_frame_def append_eq_append_conv_if)
  have len: "unat (from_le_bytes ?pre) = length p"
    using assms(4,5) by (simp add: unat_of_nat take_bit_nat_eq_self)
  show ?thesis
  proof (cases "length a = 4")
    case True
    then have "read_some 4 (Chunk a # Fault TimedOut # rd) = (Ok ?pre, Fault TimedOut # rd)"
      using pre by (simp add: eval_nat_numeral)
    moreover have "0 < length p" using rest assms(3) by simp
    ultimately show ?thesis
      using len assms(4) by (cases "length p") (simp_all add: read_frame_def LENGTH_PREFIX_BYTES_def Let_def)
  next
    case longer: False
    have "read_some 4 (Chunk a # Fault TimedOut # rd) = (Ok ?pre, Chunk (drop 4 a) # Fault TimedOut # rd)"
      using pre False longer assms(2) by (simp add: eval_nat_numeral)
    moreover have "read_some (length p) (Chunk (drop 4 a) # Fault TimedOut # rd) = (Err TimedOut, rd)"
    proof (rule read_some_cut)
      have "0 < length b" using assms(3) by simp
      then show "length (drop 4 a) < length p" using rest by (metis length_append less_add_same_cancel1)
    qed (use False longer in auto)
    ultimately show ?thesis
      using len assms(4) by (simp add: read_frame_def LENGTH_PREFIX_BYTES_def Let_def)
  qed
qed

section \<open>Properties\<close>

text \<open>
  C14. The handshake carries the server's verdict to the client: when the hello the client wrote
  reaches the server and the server's reply reaches the client, each cut into chunks in any way,
  the client connects exactly when the credential check accepted the token, and otherwise fails
  with exactly the authentication error the check gave.
\<close>

theorem handshake_verdict:
  assumes "hello_codec_ok j (max_frame_bytes (srv_limits s))"
    and "max_frame_bytes lim = max_frame_bytes (srv_limits s)" and "max_frame_bytes lim < 2 ^ 32"
    and "0 < handshake_deadline lim" and "length (cred_token cred) \<le> 64"
    and "ser_client_hello j \<lparr>ch_token = cred_token cred\<rparr> = Some hello"
    and "clean_reader (cr_inp sc)" and "reader_bytes (cr_inp sc) = encode_frame hello"
    and "cr_wfault sc = None" and "cr_out sc = []"
    and "perform_handshake j now s sc = (hs, s', sc')"
    and "clean_reader (cr_inp cc)" and "reader_bytes (cr_inp cc) = cr_out (handshake_reply j hs sc')"
    and "cr_wfault cc = None" and "cr_tfault cc = None"
  shows "client_outcome (connect_stream j cc peer cred lim)
    = client_verdict (fst (authenticate (cred_token cred) now s))"
proof -
  let ?r = "fst (authenticate (cred_token cred) now s)"
  obtain hb where "ser_client_hello j \<lparr>ch_token = cred_token cred\<rparr> = Some hb"
    "parse_client_hello j hb = Some \<lparr>ch_token = cred_token cred\<rparr>"
    "length (ch_token \<lparr>ch_token = cred_token cred\<rparr>) \<le> 64 \<longrightarrow> length hb \<le> max_frame_bytes (srv_limits s)"
    using hello_codec_client [OF assms(1), of "\<lparr>ch_token = cred_token cred\<rparr>"] .
  with assms(2,5,6) have hello: "parse_client_hello j hello = Some \<lparr>ch_token = cred_token cred\<rparr>"
    "length hello \<le> max_frame_bytes lim"
    by simp_all
  obtain bs where "cr_out (handshake_reply j hs sc') = encode_frame bs" "length bs \<le> max_frame_bytes lim"
    "parse_server_hello j bs = Some (verdict_hello ?r)"
    using server_half [OF assms(1) refl _ hello(1) _ assms(7-11), of ?r] assms(2,3) hello(2) by auto
  then have "client_outcome (connect_stream j cc peer cred lim) =
      (if sh_accepted (verdict_hello ?r) then None else Some (from_reason (sh_reason (verdict_hello ?r))))"
    using client_half [OF assms(6) hello(2) assms(12) _ assms(14,15,4) _ assms(3)] assms(13) by simp
  then show ?thesis
    by (cases ?r) (simp_all add: verdict_hello_def client_verdict_def)
qed

theorem handshake_verdict_witness:
  "client_outcome (connect_stream byte_hello_codec
      \<lparr>cr_inp = [Chunk [11, 0], Chunk [0, 0, 0, 1, 109, 97, 108, 102, 111, 114, 109, 101, 100]],
       cr_out = [], cr_wfault = None, cr_tfault = None, rejects_zero = True\<rparr>
      (Tcp ''127.0.0.1:37771'') \<lparr>cred_token = ''x'', cred_expires_at = 0\<rparr> small_limits)
    = client_verdict (Err Malformed)"
proof -
  let ?s = "new_server small_limits"
  let ?sc = "\<lparr>cr_inp = [Chunk [1, 0, 0], Chunk [0, 120]], cr_out = [], cr_wfault = None,
      cr_tfault = None, rejects_zero = True\<rparr>"
  have hs: "perform_handshake byte_hello_codec 0 ?s ?sc = (Rejected Malformed, ?s, ?sc\<lparr>cr_inp := []\<rparr>)"
    by code_simp
  have reply: "cr_out (handshake_reply byte_hello_codec (Rejected Malformed) (?sc\<lparr>cr_inp := []\<rparr>)) =
      [11, 0, 0, 0, 0, 1, 109, 97, 108, 102, 111, 114, 109, 101, 100]"
    by code_simp
  have "fst (authenticate ''x'' 0 ?s) = Err Malformed" by code_simp
  moreover have "hello_codec_ok byte_hello_codec (max_frame_bytes (srv_limits ?s))"
    by (rule byte_hello_codec_ok) (simp add: new_server_def small_limits_def)
  ultimately show ?thesis
    using handshake_verdict [OF _ _ _ _ _ _ _ _ _ _ hs,
      of small_limits "\<lparr>cred_token = ''x'', cred_expires_at = 0\<rparr>" "[120]"
      "\<lparr>cr_inp = [Chunk [11, 0], Chunk [0, 0, 0, 1, 109, 97, 108, 102, 111, 114, 109, 101, 100]],
       cr_out = [], cr_wfault = None, cr_tfault = None, rejects_zero = True\<rparr>" "Tcp ''127.0.0.1:37771''"] reply
    by (simp add: new_server_def small_limits_def byte_hello_codec_def byte_of_def
       encode_frame_def to_le_bytes_def)
qed



text \<open>
  Bounded memory: whatever the client sends, the application does and the carrier fails, the
  receive queue of a connection never holds more than \<open>QUEUED_FRAMES\<close> frames.
\<close>

lemma worker_queue_bounded:
  assumes "length (wk_queue w) \<le> QUEUED_FRAMES"
  shows "length (wk_queue (snd (worker_loop lim tks w))) \<le> QUEUED_FRAMES"
  using assms
proof (induction lim tks w rule: worker_loop.induct)
  case (2 lim tk tks w)
  obtain r w' where w': "worker_tick lim tk w = (r, w')" by fastforce
  have "length (wk_queue w') \<le> QUEUED_FRAMES" using worker_tick_queue [OF 2(2), of lim tk] w' by simp
  with 2(1) [OF w' [symmetric]] w' show ?case by (cases r) auto
qed simp

text \<open>
  C16. A poll tick that expires inside a frame loses the bytes already read: the loop goes on as
  if nothing had arrived (nothing is delivered, the connection stays up), but the stream now starts
  in the middle of that frame, so the rest of it is taken for the start of the next one.
\<close>

theorem worker_tick_loses_partial_frame:
  assumes "encode_frame p = a @ b" and "a \<noteq> []" and "b \<noteq> []"
    and "length p \<le> max_frame_bytes lim" and "max_frame_bytes lim < 2 ^ 32"
    and "cr_inp (wk_stream w) = Chunk a # Fault TimedOut # Chunk b # rd" and "cr_tfault (wk_stream w) = None"
    and "tk_drained tk = 0" and "tk_writes tk = []"
    and "tk_top tk - wk_last_activity w < read_deadline lim"
    and "tk_after tk - wk_last_activity w < read_deadline lim"
  shows "worker_tick lim tk w = (None, w\<lparr>wk_stream := (wk_stream w)\<lparr>cr_inp := Chunk b # rd\<rparr>\<rparr>)"
proof -
  have "read_frame (Chunk a # Fault TimedOut # Chunk b # rd) (max_frame_bytes lim) =
      (Err (Io TimedOut), Chunk b # rd)"
    using assms(1-5) by (rule read_frame_cut)
  then have "carrier_read_frame (max_frame_bytes lim) (wk_stream w) =
      (Err (Io TimedOut), (wk_stream w)\<lparr>cr_inp := Chunk b # rd\<rparr>)"
    using assms(6) by (simp add: carrier_read_frame_def)
  then show ?thesis
    using assms(7-11)
    by (simp add: worker_tick_def Let_def set_timeout_def is_timeout_kind_def WORKER_POLL_INTERVAL_def min_def)
qed

theorem worker_tick_loses_partial_frame_witness:
  "worker_loop small_limits
     [\<lparr>tk_top = 1, tk_after = 2, tk_drained = 0, tk_writes = []\<rparr>,
      \<lparr>tk_top = 2, tk_after = 3, tk_drained = 0, tk_writes = []\<rparr>]
     \<lparr>wk_stream = \<lparr>cr_inp = [Chunk [3, 0, 0, 0], Fault TimedOut, Chunk [7, 8, 9]], cr_out = [],
        cr_wfault = None, cr_tfault = None, rejects_zero = True\<rparr>,
      wk_last_activity = 0, wk_queue = [], wk_acks = []\<rparr>
   = (Some End_Protocol,
      \<lparr>wk_stream = \<lparr>cr_inp = [], cr_out = [], cr_wfault = None, cr_tfault = None, rejects_zero = True\<rparr>,
       wk_last_activity = 0, wk_queue = [], wk_acks = []\<rparr>)"
proof -
  let ?w = "\<lambda>rd. \<lparr>wk_stream = \<lparr>cr_inp = rd, cr_out = [], cr_wfault = None, cr_tfault = None,
        rejects_zero = True\<rparr>, wk_last_activity = 0, wk_queue = [], wk_acks = []\<rparr>"
  have "worker_tick small_limits \<lparr>tk_top = 1, tk_after = 2, tk_drained = 0, tk_writes = []\<rparr>
      (?w [Chunk [3, 0, 0, 0], Fault TimedOut, Chunk [7, 8, 9]]) = (None, ?w [Chunk [7, 8, 9]])"
    using worker_tick_loses_partial_frame [of "[7, 8, 9]" "[3, 0, 0, 0]" "[7, 8, 9]" small_limits
      "?w [Chunk [3, 0, 0, 0], Fault TimedOut, Chunk [7, 8, 9]]" "[]"
      "\<lparr>tk_top = 1, tk_after = 2, tk_drained = 0, tk_writes = []\<rparr>"]
    by (simp add: small_limits_def encode_frame_def to_le_bytes_def)
  moreover have "worker_tick small_limits \<lparr>tk_top = 2, tk_after = 3, tk_drained = 0, tk_writes = []\<rparr>
      (?w [Chunk [7, 8, 9]]) = (Some End_Protocol, ?w [])"
    by code_simp
  ultimately show ?thesis by simp
qed

text \<open>
  A connection whose idle deadline has already passed when a pass begins (after a slow write,
  say) is ended as an I/O error on the socket carriers, which refuse the zero read timeout the loop
  computes, and is not counted as a read deadline.
\<close>

lemma worker_idle_deadline_as_io:
  assumes "read_deadline lim \<le> tk_top tk - wk_last_activity w" and "rejects_zero (wk_stream w)"
  shows "fst (worker_tick lim tk w) = Some End_Io"
  using assms by (simp add: worker_tick_def Let_def set_timeout_def)

end
