(* ===== verification/Transport_Server.thy ===== *)
theory Transport_Server
  imports Transport
begin

text \<open>
  The concurrent side of the local transport server: the accept loops and one worker thread per
  connection over the shared state (\<^verbatim>\<open>crates/local-transport/src/server.rs\<close>, \<open>accept_loop\<close> and
  \<open>connection_worker\<close>). A thread is a program counter; every lock section or atomic access of the
  code is one step, and the steps of all threads interleave freely. Everything the environment
  decides (accepted peers, the bytes of a handshake, failures, clock readings) is in the event.
\<close>

section \<open>Threads\<close>

datatype thread =
    Acc_Counted PeerDesc "PeerIdentity option" \<comment> \<open>accept loop: \<open>accepted\<close> counted, limiter not asked yet\<close>
  | Acc_Refused carrier \<comment> \<open>limiter refused: \<open>rejected_busy\<close> not counted yet\<close>
  | Wk_Start PeerDesc "PeerIdentity option" \<comment> \<open>worker spawned\<close>
  | Wk_Prepare nat PeerDesc "PeerIdentity option" \<comment> \<open>connection id taken\<close>
  | Wk_Handshake nat PeerDesc "PeerIdentity option"
  | Wk_Refuse HandshakeResult \<comment> \<open>handshake failed: to be counted\<close>
  | Wk_Authenticated nat PeerDesc "PeerIdentity option" \<comment> \<open>token consumed, \<open>authenticated\<close> not counted yet\<close>
  | Wk_Register nat PeerDesc "PeerIdentity option"
  | Wk_Ack nat \<comment> \<open>registered, the positive reply not written yet\<close>
  | Wk_Ack_Remove nat \<comment> \<open>reply failed: to be removed from the table\<close>
  | Wk_Ack_Release
  | Wk_Ack_Count
  | Wk_Serve nat worker \<comment> \<open>message loop\<close>
  | Wk_Remove nat EndReason \<comment> \<open>loop ended: to be removed from the table\<close>
  | Wk_Count EndReason
  | Wk_Release
  | Wk_Done

text \<open>What the environment decides in one step of a thread.\<close>

record choice =
  ch_now :: nat
  ch_prepared :: bool
  ch_stream :: carrier
  ch_ticks :: "loop_tick list"

section \<open>Steps\<close>

definition upd_stats :: "(ServerStats \<Rightarrow> ServerStats) \<Rightarrow> ServerState \<Rightarrow> ServerState" where
  "upd_stats f s = s\<lparr>srv_stats := f (srv_stats s)\<rparr>"

definition release_slot :: "ServerState \<Rightarrow> ServerState" where
  "release_slot s = s\<lparr>srv_limiter := release (srv_limiter s)\<rparr>"

fun count_refused :: "HandshakeResult \<Rightarrow> ServerStats \<Rightarrow> ServerStats" where
  "count_refused Authenticated st = st"
| "count_refused (Rejected _) st = st\<lparr>st_rejected_auth := st_rejected_auth st + 1\<rparr>"
| "count_refused Hs_Closed st = st\<lparr>st_closed_peer := st_closed_peer st + 1\<rparr>"
| "count_refused Hs_TimedOut st = st\<lparr>st_closed_timeout := st_closed_timeout st + 1\<rparr>"
| "count_refused Hs_Protocol st = st\<lparr>st_closed_protocol := st_closed_protocol st + 1\<rparr>"
| "count_refused Hs_Io st = st\<lparr>st_closed_io := st_closed_io st + 1\<rparr>"

fun count_end :: "EndReason \<Rightarrow> ServerStats \<Rightarrow> ServerStats" where
  "count_end PeerClosed st = st\<lparr>st_closed_peer := st_closed_peer st + 1\<rparr>"
| "count_end End_Protocol st = st\<lparr>st_closed_protocol := st_closed_protocol st + 1\<rparr>"
| "count_end End_Timeout st = st\<lparr>st_closed_timeout := st_closed_timeout st + 1\<rparr>"
| "count_end End_Io st = st\<lparr>st_closed_io := st_closed_io st + 1\<rparr>"

definition new_worker :: "nat \<Rightarrow> carrier \<Rightarrow> worker" where
  "new_worker now c = \<lparr>wk_stream = c, wk_last_activity = now, wk_queue = [], wk_acks = []\<rparr>"

text \<open>
  \<open>accept_loop\<close> after a connection came in, and \<open>connection_worker\<close>, one shared access at a time.
  The negative replies of a refused handshake touch only the connection's own stream and are
  given by \<open>handshake_reply\<close> and \<open>reject_busy\<close>.
\<close>

fun thread_step :: "hello_codec \<Rightarrow> choice \<Rightarrow> thread \<Rightarrow> ServerState \<Rightarrow> thread \<times> ServerState" where
  "thread_step j ch (Acc_Counted peer ident) s =
     (case try_acquire (srv_limiter s) of
        (granted, l) \<Rightarrow>
          if granted then (Wk_Start peer ident, s\<lparr>srv_limiter := l\<rparr>)
          else (Acc_Refused (ch_stream ch), s))"
| "thread_step j ch (Acc_Refused c) s =
     (Wk_Done, upd_stats (\<lambda>st. st\<lparr>st_rejected_busy := st_rejected_busy st + 1\<rparr>) s)"
| "thread_step j ch (Wk_Start peer ident) s =
     (Wk_Prepare (next_conn_id s) peer ident, s\<lparr>next_conn_id := next_conn_id s + 1\<rparr>)"
| "thread_step j ch (Wk_Prepare i peer ident) s =
     (if ch_prepared ch then (Wk_Handshake i peer ident, s)
      else (Wk_Release, upd_stats (\<lambda>st. st\<lparr>st_closed_io := st_closed_io st + 1\<rparr>) s))"
| "thread_step j ch (Wk_Handshake i peer ident) s =
     (case perform_handshake j (ch_now ch) s (ch_stream ch) of
        (Authenticated, s', _) \<Rightarrow> (Wk_Authenticated i peer ident, s')
      | (h, s', _) \<Rightarrow> (Wk_Refuse h, s'))"
| "thread_step j ch (Wk_Refuse h) s = (Wk_Release, upd_stats (count_refused h) s)"
| "thread_step j ch (Wk_Authenticated i peer ident) s =
     (Wk_Register i peer ident, upd_stats (\<lambda>st. st\<lparr>st_authenticated := st_authenticated st + 1\<rparr>) s)"
| "thread_step j ch (Wk_Register i peer ident) s =
     (Wk_Ack i, s\<lparr>srv_conns := hm_insert i
        \<lparr>conn_id = i, conn_peer = peer, conn_identity = ident,
         conn_max_frame = max_frame_bytes (srv_limits s)\<rparr> (srv_conns s)\<rparr>)"
| "thread_step j ch (Wk_Ack i) s =
     (case write_handshake_reply j True None (ch_stream ch) of
        (written, c) \<Rightarrow>
          if written then (Wk_Serve i (new_worker (ch_now ch) c), s) else (Wk_Ack_Remove i, s))"
| "thread_step j ch (Wk_Ack_Remove i) s = (Wk_Ack_Release, s\<lparr>srv_conns := hm_remove i (srv_conns s)\<rparr>)"
| "thread_step j ch Wk_Ack_Release s = (Wk_Ack_Count, release_slot s)"
| "thread_step j ch Wk_Ack_Count s =
     (Wk_Done, upd_stats (\<lambda>st. st\<lparr>st_closed_io := st_closed_io st + 1\<rparr>) s)"
| "thread_step j ch (Wk_Serve i w) s =
     (case worker_loop (srv_limits s) (ch_ticks ch) w of
        (None, w') \<Rightarrow> (Wk_Serve i w', s)
      | (Some r, _) \<Rightarrow> (Wk_Remove i r, s))"
| "thread_step j ch (Wk_Remove i r) s = (Wk_Count r, s\<lparr>srv_conns := hm_remove i (srv_conns s)\<rparr>)"
| "thread_step j ch (Wk_Count r) s = (Wk_Release, upd_stats (count_end r) s)"
| "thread_step j ch Wk_Release s = (Wk_Done, release_slot s)"
| "thread_step j ch Wk_Done s = (Wk_Done, s)"

datatype server_event =
    Ev_Accept PeerDesc "PeerIdentity option"
  | Ev_Thread nat choice
  | Ev_Issue "u8 list" nat nat nat
  | Ev_Stop

type_synonym server = "thread list \<times> ServerState"

inductive server_step :: "hello_codec \<Rightarrow> server \<Rightarrow> server_event \<Rightarrow> server \<Rightarrow> bool" for j where
  step_accept: "\<not> srv_shutdown s \<Longrightarrow>
    server_step j (ts, s) (Ev_Accept peer ident)
      (ts @ [Acc_Counted peer ident], upd_stats (\<lambda>st. st\<lparr>st_accepted := st_accepted st + 1\<rparr>) s)"
| step_thread: "n < length ts \<Longrightarrow> thread_step j ch (ts ! n) s = (t', s') \<Longrightarrow>
    server_step j (ts, s) (Ev_Thread n ch) (ts[n := t'], s')"
| step_issue: "server_step j (ts, s) (Ev_Issue bytes issued ttl now)
    (ts, snd (issue_credential bytes issued ttl now s))"
| step_stop: "server_step j (ts, s) Ev_Stop (ts, s\<lparr>srv_shutdown := True\<rparr>)"

section \<open>Invariant\<close>

definition tcount :: "('a \<Rightarrow> bool) \<Rightarrow> 'a list \<Rightarrow> nat" where
  "tcount P ts = length (filter P ts)"

text \<open>Threads that hold a slot of the limiter.\<close>

fun holds_slot :: "thread \<Rightarrow> bool" where
  "holds_slot (Acc_Counted _ _) = False"
| "holds_slot (Acc_Refused _) = False"
| "holds_slot Wk_Ack_Count = False"
| "holds_slot Wk_Done = False"
| "holds_slot _ = True"

text \<open>Threads whose connection no outcome counter has counted yet.\<close>

fun uncounted :: "thread \<Rightarrow> bool" where
  "uncounted Wk_Release = False"
| "uncounted Wk_Done = False"
| "uncounted _ = True"

text \<open>Threads past the credential check but not yet counted as authenticated.\<close>

fun entering :: "thread \<Rightarrow> bool" where
  "entering (Wk_Authenticated _ _ _) = True"
| "entering _ = False"

fun registered_id :: "thread \<Rightarrow> nat option" where
  "registered_id (Wk_Ack i) = Some i"
| "registered_id (Wk_Ack_Remove i) = Some i"
| "registered_id (Wk_Serve i _) = Some i"
| "registered_id (Wk_Remove i _) = Some i"
| "registered_id _ = None"

fun thread_id :: "thread \<Rightarrow> nat option" where
  "thread_id (Wk_Prepare i _ _) = Some i"
| "thread_id (Wk_Handshake i _ _) = Some i"
| "thread_id (Wk_Authenticated i _ _) = Some i"
| "thread_id (Wk_Register i _ _) = Some i"
| "thread_id t = registered_id t"

definition ended :: "ServerStats \<Rightarrow> nat" where
  "ended st = st_rejected_auth st + st_rejected_busy st + st_closed_peer st + st_closed_protocol st +
     st_closed_timeout st + st_closed_io st"

text \<open>A worker never refuses an accepted handshake.\<close>

fun refusal_ok :: "thread \<Rightarrow> bool" where
  "refusal_ok (Wk_Refuse h) = (h \<noteq> Authenticated)"
| "refusal_ok _ = True"

definition slots_inv :: "Limits \<Rightarrow> server \<Rightarrow> bool" where
  "slots_inv lim x = (case x of (ts, s) \<Rightarrow>
     srv_limits s = lim \<and> lim_max (srv_limiter s) = max_connections lim \<and>
     lim_current (srv_limiter s) = tcount holds_slot ts \<and> tcount holds_slot ts \<le> max_connections lim)"

definition stats_inv :: "server \<Rightarrow> bool" where
  "stats_inv x = (case x of (ts, s) \<Rightarrow>
     st_accepted (srv_stats s) = ended (srv_stats s) + tcount uncounted ts \<and>
     st_authenticated (srv_stats s) + tcount entering ts = credentials_consumed (srv_stats s) \<and>
     list_all refusal_ok ts)"

definition ids_inv :: "server \<Rightarrow> bool" where
  "ids_inv x = (case x of (ts, s) \<Rightarrow>
     hm_wf (srv_conns s) \<and>
     (\<forall>i. tcount (\<lambda>t. thread_id t = Some i) ts \<le> 1 \<and>
        (next_conn_id s \<le> i \<longrightarrow> tcount (\<lambda>t. thread_id t = Some i) ts = 0) \<and>
        (hm_contains_key (srv_conns s) i \<longleftrightarrow> 0 < tcount (\<lambda>t. registered_id t = Some i) ts)))"

definition server_inv :: "Limits \<Rightarrow> server \<Rightarrow> bool" where
  "server_inv lim x = (slots_inv lim x \<and> stats_inv x \<and> ids_inv x)"

section \<open>Lemmas\<close>

lemma tcount_simps [simp]:
  "tcount P [] = 0"
  "tcount P (ts @ [t]) = tcount P ts + of_bool (P t)"
  by (simp_all add: tcount_def)

lemma tcount_update:
  "n < length ts \<Longrightarrow> tcount P (ts[n := t]) + of_bool (P (ts ! n)) = tcount P ts + of_bool (P t)"
proof (induction ts arbitrary: n)
  case (Cons x ts)
  then show ?case by (cases n) (auto simp: tcount_def)
qed simp

lemma tcount_pos: "n < length ts \<Longrightarrow> P (ts ! n) \<Longrightarrow> 0 < tcount P ts"
  by (auto simp: tcount_def filter_empty_conv)

lemma tcount_mono: "(\<And>t. P t \<Longrightarrow> Q t) \<Longrightarrow> tcount P ts \<le> tcount Q ts"
  by (induction ts) (auto simp: tcount_def)

lemma registered_thread_id: "registered_id t = Some i \<Longrightarrow> thread_id t = Some i"
  by (cases t) simp_all

text \<open>The operations outside the thread's own phase keep what each invariant reads.\<close>

lemma authenticate_frame:
  assumes "authenticate t now s = (r, s')"
  shows "srv_limiter s' = srv_limiter s" "srv_limits s' = srv_limits s" "srv_conns s' = srv_conns s"
    "next_conn_id s' = next_conn_id s" "st_accepted (srv_stats s') = st_accepted (srv_stats s)"
    "ended (srv_stats s') = ended (srv_stats s)"
    "st_authenticated (srv_stats s') = st_authenticated (srv_stats s)"
    "credentials_consumed (srv_stats s') = credentials_consumed (srv_stats s) + of_bool (is_ok r)"
  using assms by (auto simp: authenticate_def ended_def split: if_splits option.splits)

lemma perform_handshake_frame:
  assumes "perform_handshake j now s c = (h, s', c')"
  shows "srv_limiter s' = srv_limiter s" "srv_limits s' = srv_limits s" "srv_conns s' = srv_conns s"
    "next_conn_id s' = next_conn_id s" "st_accepted (srv_stats s') = st_accepted (srv_stats s)"
    "ended (srv_stats s') = ended (srv_stats s)"
    "st_authenticated (srv_stats s') = st_authenticated (srv_stats s)"
    "credentials_consumed (srv_stats s') = credentials_consumed (srv_stats s) + of_bool (h = Authenticated)"
  using assms
  by (auto simp: perform_handshake_def authenticate_frame
      split: prod.splits result.splits option.splits FrameReadError.splits if_splits)

text \<open>The effect of one step of a thread on the limiter, the counters and the tables.\<close>

lemma thread_step_slots:
  assumes "thread_step j ch t s = (t', s')" and "holds_slot t \<longrightarrow> 0 < lim_current (srv_limiter s)"
  shows "srv_limits s' = srv_limits s \<and> lim_max (srv_limiter s') = lim_max (srv_limiter s) \<and>
    lim_current (srv_limiter s') + of_bool (holds_slot t) = lim_current (srv_limiter s) + of_bool (holds_slot t') \<and>
    (holds_slot t' \<longrightarrow> holds_slot t \<or> lim_current (srv_limiter s) < lim_max (srv_limiter s))"
proof (cases t)
  case (Acc_Counted p i)
  then show ?thesis using assms by (auto simp: try_acquire_def split: if_splits)
next
  case (Wk_Handshake i p d)
  then show ?thesis
    using assms by (auto dest: perform_handshake_frame split: prod.splits HandshakeResult.splits)
qed (use assms in \<open>auto simp: upd_stats_def release_slot_def release_def split: if_splits prod.splits option.splits\<close>)

lemma thread_step_stats:
  assumes "thread_step j ch t s = (t', s')" and "refusal_ok t"
  shows "refusal_ok t' \<and> st_accepted (srv_stats s') = st_accepted (srv_stats s) \<and>
    ended (srv_stats s') + of_bool (uncounted t') = ended (srv_stats s) + of_bool (uncounted t) \<and>
    st_authenticated (srv_stats s') + of_bool (entering t') + credentials_consumed (srv_stats s) =
      st_authenticated (srv_stats s) + of_bool (entering t) + credentials_consumed (srv_stats s')"
proof (cases t)
  case (Acc_Counted p i)
  then show ?thesis using assms by (auto simp: try_acquire_def split: if_splits)
next
  case (Wk_Handshake i p d)
  obtain h s1 c where ph: "perform_handshake j (ch_now ch) s (ch_stream ch) = (h, s1, c)"
    by (metis prod_cases3)
  show ?thesis
    using Wk_Handshake assms perform_handshake_frame [OF ph] ph by (cases h) auto
next
  case (Wk_Refuse h)
  then show ?thesis using assms by (cases h) (auto simp: upd_stats_def ended_def)
next
  case (Wk_Count r)
  then show ?thesis using assms by (cases r) (auto simp: upd_stats_def ended_def)
qed (use assms in \<open>auto simp: upd_stats_def release_slot_def ended_def split: if_splits prod.splits option.splits\<close>)

lemma thread_step_ids:
  assumes "thread_step j ch t s = (t', s')"
  shows "next_conn_id s \<le> next_conn_id s' \<and>
    (thread_id t' = thread_id t \<or> thread_id t' = None \<or>
     thread_id t = None \<and> thread_id t' = Some (next_conn_id s) \<and> next_conn_id s' = next_conn_id s + 1) \<and>
    (srv_conns s' = srv_conns s \<and> registered_id t' = registered_id t \<or>
     (\<exists>i c. srv_conns s' = hm_insert i c (srv_conns s) \<and> registered_id t = None \<and> thread_id t = Some i \<and>
        registered_id t' = Some i) \<or>
     (\<exists>i. srv_conns s' = hm_remove i (srv_conns s) \<and> registered_id t = Some i \<and> registered_id t' = None))"
proof (cases t)
  case (Acc_Counted p i)
  then show ?thesis using assms by (auto simp: try_acquire_def split: if_splits)
next
  case (Wk_Handshake i p d)
  then show ?thesis
    using assms by (auto dest: perform_handshake_frame split: prod.splits HandshakeResult.splits)
qed (use assms in \<open>auto simp: upd_stats_def release_slot_def split: if_splits prod.splits option.splits\<close>)

lemma slots_thread:
  assumes "slots_inv lim (ts, s)" and "n < length ts" and "thread_step j ch (ts ! n) s = (t', s')"
  shows "slots_inv lim (ts[n := t'], s')"
proof -
  have "holds_slot (ts ! n) \<longrightarrow> 0 < lim_current (srv_limiter s)"
    using assms(1) tcount_pos [OF assms(2)] by (auto simp: slots_inv_def)
  from thread_step_slots [OF assms(3) this] tcount_update [OF assms(2), of holds_slot t'] assms(1)
  show ?thesis by (auto simp: slots_inv_def of_bool_def split: if_splits)
qed

lemma stats_thread:
  assumes "stats_inv (ts, s)" and "n < length ts" and "thread_step j ch (ts ! n) s = (t', s')"
  shows "stats_inv (ts[n := t'], s')"
proof -
  have "refusal_ok (ts ! n)" using assms(1,2) by (simp add: stats_inv_def list_all_length)
  have "refusal_ok t'" and "list_all refusal_ok ts" using assms(1)
    \<open>refusal_ok (ts ! n)\<close> thread_step_stats [OF assms(3)] by (auto simp: stats_inv_def)
  then have "list_all refusal_ok (ts[n := t'])"
    using set_update_subset_insert [of ts n t'] by (auto simp: list_all_iff)
  with thread_step_stats [OF assms(3) \<open>refusal_ok (ts ! n)\<close>] tcount_update [OF assms(2), of uncounted t']
    tcount_update [OF assms(2), of entering t'] assms(1)
  show ?thesis by (simp add: stats_inv_def)
qed

lemma ids_thread:
  assumes "ids_inv (ts, s)" and "n < length ts" and "thread_step j ch (ts ! n) s = (t', s')"
  shows "ids_inv (ts[n := t'], s')"
proof -
  let ?th = "\<lambda>i. tcount (\<lambda>t. thread_id t = Some i)" and ?rg = "\<lambda>i. tcount (\<lambda>t. registered_id t = Some i)"
  note step = thread_step_ids [OF assms(3)]
  have upd: "?th i (ts[n := t']) + of_bool (thread_id (ts ! n) = Some i) = ?th i ts + of_bool (thread_id t' = Some i)"
    "?rg i (ts[n := t']) + of_bool (registered_id (ts ! n) = Some i) = ?rg i ts + of_bool (registered_id t' = Some i)"
    for i
    by (rule tcount_update [OF assms(2)])+
  have ids: "?th i ts \<le> 1" "next_conn_id s \<le> i \<Longrightarrow> ?th i ts = 0"
    "hm_contains_key (srv_conns s) i \<longleftrightarrow> 0 < ?rg i ts" for i
    using assms(1) by (auto simp: ids_inv_def)
  have le: "?rg i ts \<le> 1" for i
    by (rule order_trans [OF tcount_mono ids(1) [of i]]) (rule registered_thread_id)
  have th: "?th i (ts[n := t']) \<le> 1 \<and> (next_conn_id s' \<le> i \<longrightarrow> ?th i (ts[n := t']) = 0)" for i
    using upd(1) [of i] ids(1,2) [of i] step by (auto simp: of_bool_def split: if_splits)
  have wf: "hm_wf (srv_conns s')"
    using step assms(1) by (auto simp: ids_inv_def hm_wf_insert hm_wf_remove)
  have rg: "hm_contains_key (srv_conns s') i \<longleftrightarrow> 0 < ?rg i (ts[n := t'])" for i
    using upd(2) [of i] ids(3) [of i] le [of i] step
    by (auto simp: of_bool_def hm_get_insert hm_get_remove split: if_splits)
  show ?thesis using th wf rg by (simp add: ids_inv_def)
qed

lemma issue_credential_frame:
  "srv_limits (snd (issue_credential b n ttl now s)) = srv_limits s"
  "srv_limiter (snd (issue_credential b n ttl now s)) = srv_limiter s"
  "srv_conns (snd (issue_credential b n ttl now s)) = srv_conns s"
  "next_conn_id (snd (issue_credential b n ttl now s)) = next_conn_id s"
  "st_accepted (srv_stats (snd (issue_credential b n ttl now s))) = st_accepted (srv_stats s)"
  "ended (srv_stats (snd (issue_credential b n ttl now s))) = ended (srv_stats s)"
  "st_authenticated (srv_stats (snd (issue_credential b n ttl now s))) = st_authenticated (srv_stats s)"
  "credentials_consumed (srv_stats (snd (issue_credential b n ttl now s))) = credentials_consumed (srv_stats s)"
  by (simp_all add: issue_credential_def Let_def ended_def)

lemma server_step_inv:
  assumes "server_step j x e y" and "server_inv lim x"
  shows "server_inv lim y"
  using assms(1)
proof cases
  case (step_accept s ts peer ident)
  then show ?thesis using assms(2)
    by (simp add: server_inv_def slots_inv_def stats_inv_def ids_inv_def upd_stats_def ended_def
        del: hm_contains_key_iff)
next
  case (step_thread n ts ch s t' s')
  then show ?thesis using assms(2)
    by (auto simp: server_inv_def intro: slots_thread stats_thread ids_thread)
next
  case (step_issue ts s bytes issued ttl now)
  then show ?thesis using assms(2)
    by (simp add: server_inv_def slots_inv_def stats_inv_def ids_inv_def issue_credential_frame
        del: hm_contains_key_iff)
next
  case (step_stop ts s)
  then show ?thesis using assms(2)
    by (simp add: server_inv_def slots_inv_def stats_inv_def ids_inv_def del: hm_contains_key_iff)
qed

interpretation srv: preserved "server_step j" "server_inv lim" for j lim
  by unfold_locales (rule server_step_inv)

lemma new_server_inv: "server_inv lim ([], new_server lim)"
  by (simp add: server_inv_def slots_inv_def stats_inv_def ids_inv_def new_server_def new_limiter_def
      default_stats_def ended_def hm_empty)

text \<open>The registered connections are among the slot holders.\<close>

lemma conns_le_slots:
  assumes "ids_inv (ts, s)"
  shows "length (srv_conns s) \<le> tcount holds_slot ts"
proof -
  let ?reg = "filter (\<lambda>t. registered_id t \<noteq> None) ts"
  have "k \<in> set (map (\<lambda>t. the (registered_id t)) ?reg)" if "k \<in> set (map fst (srv_conns s))" for k
  proof -
    have "hm_contains_key (srv_conns s) k"
      using that by (simp add: hm_contains_key_def hm_get_def map_of_eq_None_iff del: hm_contains_key_iff)
    then have "0 < tcount (\<lambda>t. registered_id t = Some k) ts"
      using assms by (simp add: ids_inv_def del: hm_contains_key_iff)
    then obtain t where "t \<in> set ts" "registered_id t = Some k"
      by (auto simp: tcount_def filter_empty_conv)
    then show ?thesis by force
  qed
  then have "card (set (map fst (srv_conns s))) \<le> card (set (map (\<lambda>t. the (registered_id t)) ?reg))"
    by (intro card_mono) auto
  also have "\<dots> \<le> length ?reg" using card_length [of "map (\<lambda>t. the (registered_id t)) ?reg"] by simp
  also have "\<dots> \<le> tcount holds_slot ts"
    unfolding tcount_def [symmetric] by (rule tcount_mono) (auto elim: registered_id.elims)
  finally show ?thesis
    using assms distinct_card [of "map fst (srv_conns s)"] by (simp add: ids_inv_def hm_wf_def)
qed

section \<open>Properties\<close>

text \<open>
  C12. Concurrency cap: in every interleaving of accept loops, workers, credential issues and
  shutdown, the live connections never exceed \<open>max_connections\<close>, and the connections visible to
  the application are among them.
\<close>

theorem server_connection_cap:
  assumes "run (server_step j) ([], new_server lim) es (ts, s)"
  shows "st_active (stats_snapshot s) \<le> max_connections lim \<and>
    length (connections s) \<le> st_active (stats_snapshot s)"
proof -
  have "server_inv lim (ts, s)" using srv.run_inv [OF assms new_server_inv] .
  then show ?thesis
    using conns_le_slots [of ts s]
    by (simp add: server_inv_def slots_inv_def stats_snapshot_def connections_def hm_values_def)
qed

theorem server_connection_cap_witness:
  "st_active (stats_snapshot (snd ([Wk_Start (Tcp ''a'') None],
      (upd_stats (\<lambda>st. st\<lparr>st_accepted := st_accepted st + 1\<rparr>) (new_server small_limits))
        \<lparr>srv_limiter := \<lparr>lim_current = 1, lim_max = 2\<rparr>\<rparr>))) \<le> max_connections small_limits"
proof -
  let ?s1 = "upd_stats (\<lambda>st. st\<lparr>st_accepted := st_accepted st + 1\<rparr>) (new_server small_limits)"
  let ?s2 = "?s1\<lparr>srv_limiter := \<lparr>lim_current = 1, lim_max = 2\<rparr>\<rparr>"
  let ?ch = "\<lparr>ch_now = 0, ch_prepared = True, ch_stream = \<lparr>cr_inp = [], cr_out = [], cr_wfault = None,
      cr_tfault = None, rejects_zero = True\<rparr>, ch_ticks = []\<rparr>"
  have "server_step byte_hello_codec ([], new_server small_limits) (Ev_Accept (Tcp ''a'') None)
      ([Acc_Counted (Tcp ''a'') None], ?s1)"
    using step_accept [of "new_server small_limits" byte_hello_codec "[]"]
    by (simp add: new_server_def)
  moreover have "server_step byte_hello_codec ([Acc_Counted (Tcp ''a'') None], ?s1) (Ev_Thread 0 ?ch)
      ([Wk_Start (Tcp ''a'') None], ?s2)"
    using step_thread [of 0 "[Acc_Counted (Tcp ''a'') None]" byte_hello_codec ?ch ?s1]
    by (simp add: try_acquire_def upd_stats_def new_server_def new_limiter_def small_limits_def)
  ultimately have "run (server_step byte_hello_codec) ([], new_server small_limits)
      [Ev_Accept (Tcp ''a'') None, Ev_Thread 0 ?ch] ([Wk_Start (Tcp ''a'') None], ?s2)"
    by (blast intro: run.intros)
  from server_connection_cap [OF this] show ?thesis by simp
qed

text \<open>
  C17. Complete accounting: at every moment each accepted connection is counted by exactly one
  outcome counter or still has a thread that will count it, and every consumed credential belongs to
  exactly one authenticated connection. Once all threads have finished, every slot is released, no
  connection is left in the table and the counters add up.
\<close>

theorem server_accounting:
  assumes "run (server_step j) ([], new_server lim) es (ts, s)"
  shows "st_accepted (srv_stats s) = ended (srv_stats s) + tcount uncounted ts \<and>
    credentials_consumed (srv_stats s) = st_authenticated (srv_stats s) + tcount entering ts \<and>
    (list_all (\<lambda>t. t = Wk_Done) ts \<longrightarrow> st_active (stats_snapshot s) = 0 \<and> connections s = [] \<and>
       st_accepted (srv_stats s) = ended (srv_stats s) \<and>
       credentials_consumed (srv_stats s) = st_authenticated (srv_stats s))"
proof -
  have inv: "server_inv lim (ts, s)" using srv.run_inv [OF assms new_server_inv] .
  have quiet: "tcount P ts = 0" if "list_all (\<lambda>t. t = Wk_Done) ts" "\<not> P Wk_Done" for P
    using that by (auto simp: tcount_def filter_empty_conv list_all_iff)
  have "connections s = []" if "list_all (\<lambda>t. t = Wk_Done) ts"
    using conns_le_slots [of ts s] inv quiet [OF that, of holds_slot]
    by (simp add: server_inv_def connections_def hm_values_def)
  then show ?thesis
    using inv quiet by (auto simp: server_inv_def slots_inv_def stats_inv_def stats_snapshot_def)
qed

theorem server_accounting_witness:
  "\<exists>es s. run (server_step byte_hello_codec) ([], new_server (small_limits\<lparr>max_connections := 0\<rparr>)) es ([Wk_Done], s) \<and>
     st_rejected_busy (srv_stats s) = 1 \<and> st_accepted (srv_stats s) = ended (srv_stats s)"
proof -
  let ?s0 = "new_server (small_limits\<lparr>max_connections := 0\<rparr>)"
  let ?s1 = "upd_stats (\<lambda>st. st\<lparr>st_accepted := st_accepted st + 1\<rparr>) ?s0"
  let ?s2 = "upd_stats (\<lambda>st. st\<lparr>st_rejected_busy := st_rejected_busy st + 1\<rparr>) ?s1"
  let ?ch = "\<lparr>ch_now = 0, ch_prepared = True, ch_stream = \<lparr>cr_inp = [], cr_out = [], cr_wfault = None,
      cr_tfault = None, rejects_zero = True\<rparr>, ch_ticks = []\<rparr>"
  have "server_step byte_hello_codec ([], ?s0) (Ev_Accept (Tcp ''a'') None) ([Acc_Counted (Tcp ''a'') None], ?s1)"
    using step_accept [of ?s0 byte_hello_codec "[]"] by (simp add: new_server_def)
  moreover have "server_step byte_hello_codec ([Acc_Counted (Tcp ''a'') None], ?s1) (Ev_Thread 0 ?ch)
      ([Acc_Refused (ch_stream ?ch)], ?s1)"
    using step_thread [of 0 "[Acc_Counted (Tcp ''a'') None]" byte_hello_codec ?ch ?s1]
    by (simp add: try_acquire_def upd_stats_def new_server_def new_limiter_def)
  moreover have "server_step byte_hello_codec ([Acc_Refused (ch_stream ?ch)], ?s1) (Ev_Thread 0 ?ch) ([Wk_Done], ?s2)"
    using step_thread [of 0 "[Acc_Refused (ch_stream ?ch)]" byte_hello_codec ?ch ?s1] by simp
  ultimately have "run (server_step byte_hello_codec) ([], ?s0)
      [Ev_Accept (Tcp ''a'') None, Ev_Thread 0 ?ch, Ev_Thread 0 ?ch] ([Wk_Done], ?s2)"
    by (blast intro: run.intros)
  with server_accounting [OF this] show ?thesis
    by (intro exI [of _ "[Ev_Accept (Tcp ''a'') None, Ev_Thread 0 ?ch, Ev_Thread 0 ?ch]"] exI [of _ ?s2])
      (simp add: upd_stats_def new_server_def default_stats_def)
qed

end
