(* ===== verification/Broker.thy ===== *)
theory Broker
  imports Shell_Prelude
begin

text \<open>
  The P0 capability broker (\<^verbatim>\<open>crates/supervisor/src/broker.rs\<close>): grants, leases, revocation and the
  dispatch gate. Each operation takes the readings of the injected clock it makes. Payloads
  (\<^verbatim>\<open>serde_json::Value\<close>) are a type variable.
\<close>

section \<open>Data\<close>

record CapabilityId =
  cap_api_version :: string
  cap_kind :: string

record Scope =
  sc_session_id :: "string option"
  sc_workspace :: "string option"
  sc_domains :: "string list"
  sc_resources :: "string list"

definition default_scope :: Scope where
  "default_scope = \<lparr>sc_session_id = None, sc_workspace = None, sc_domains = [], sc_resources = []\<rparr>"

definition covers :: "Scope \<Rightarrow> Scope \<Rightarrow> bool" where
  "covers sc requested =
     (if sc_session_id sc \<noteq> None \<and> sc_session_id requested \<noteq> sc_session_id sc then False
      else if sc_workspace sc \<noteq> None \<and> sc_workspace requested \<noteq> sc_workspace sc then False
      else if sc_domains sc \<noteq> [] \<and> \<not> list_all (\<lambda>d. d \<in> set (sc_domains sc)) (sc_domains requested) then False
      else if sc_resources sc \<noteq> [] \<and> \<not> list_all (\<lambda>r. r \<in> set (sc_resources sc)) (sc_resources requested) then False
      else True)"

datatype LeaseRevocationReason = Disconnect | Unload | Expiry | HumanTakeover | GenerationChange

record LeaseRevocation =
  rev_reason :: LeaseRevocationReason
  rev_at :: nat

record CapabilityGrant =
  grant_capability :: CapabilityId
  grant_version :: string
  grant_scope :: Scope
  grant_owner :: string
  grant_generation :: nat
  grant_created_at :: nat

record Lease =
  lease_id :: string
  lease_capability :: CapabilityId
  lease_owner :: string
  lease_generation :: nat
  lease_scope :: Scope
  lease_expires_at :: nat
  lease_revoked :: "LeaseRevocation option"

definition is_revoked :: "Lease \<Rightarrow> bool" where
  "is_revoked l = (lease_revoked l \<noteq> None)"

definition is_expired :: "Lease \<Rightarrow> nat \<Rightarrow> bool" where
  "is_expired l now = (lease_expires_at l \<le> now)"

record 'v Invocation =
  inv_capability :: CapabilityId
  inv_method :: string
  inv_owner :: string
  inv_generation :: nat
  inv_scope :: Scope
  inv_payload :: 'v

record 'v InvocationResult =
  res_payload :: 'v

record 'v Provider =
  prov_id :: string
  prov_capability :: CapabilityId
  prov_handler :: "'v Invocation \<Rightarrow> 'v InvocationResult"

datatype BrokerError =
    UnknownCapability
  | UnknownProvider
  | NotGranted
  | LeaseExpired
  | LeaseRevoked
  | ScopeMismatch
  | GenerationMismatch
  | Conflict

fun protocol_code :: "BrokerError \<Rightarrow> string" where
  "protocol_code UnknownCapability = ''UNAVAILABLE''"
| "protocol_code UnknownProvider = ''UNAVAILABLE''"
| "protocol_code NotGranted = ''UNAUTHORIZED''"
| "protocol_code LeaseExpired = ''UNAUTHORIZED''"
| "protocol_code LeaseRevoked = ''UNAUTHORIZED''"
| "protocol_code ScopeMismatch = ''UNAUTHORIZED''"
| "protocol_code GenerationMismatch = ''STALE_GENERATION''"
| "protocol_code Conflict = ''CONFLICT''"

definition retryable :: "BrokerError \<Rightarrow> bool" where
  "retryable e = (e = UnknownCapability \<or> e = UnknownProvider)"

fun broker_error_message :: "BrokerError \<Rightarrow> string" where
  "broker_error_message UnknownCapability = ''capability is not granted''"
| "broker_error_message UnknownProvider = ''provider is not registered''"
| "broker_error_message NotGranted = ''not granted for this owner''"
| "broker_error_message LeaseExpired = ''lease expired''"
| "broker_error_message LeaseRevoked = ''lease revoked''"
| "broker_error_message ScopeMismatch = ''scope not covered''"
| "broker_error_message GenerationMismatch = ''stale generation''"
| "broker_error_message Conflict = ''state conflict''"

definition broker_error_display :: "BrokerError \<Rightarrow> string" where
  "broker_error_display e = broker_error_message e @ '' ('' @ protocol_code e @ '')''"

record AgentActivationState =
  act_generation :: nat
  act_revoked :: bool

record 'v Broker =
  br_grants :: "(CapabilityId, CapabilityGrant) hashmap"
  br_leases :: "(string, Lease) hashmap"
  br_providers :: "(string, 'v Provider) hashmap"
  br_agent_activations :: "(string, (string, AgentActivationState) hashmap) hashmap"
  br_current_activation :: "(string, string) hashmap"
  br_next_generation :: "(string, nat) hashmap"

definition new_broker :: "'v Broker" where
  "new_broker = \<lparr>br_grants = [], br_leases = [], br_providers = [], br_agent_activations = [],
     br_current_activation = [], br_next_generation = []\<rparr>"

section \<open>Registration, grants and leases\<close>

definition register_provider :: "'v Provider \<Rightarrow> 'v Broker \<Rightarrow> (unit, BrokerError) result \<times> 'v Broker" where
  "register_provider p b =
     (if hm_contains_key (br_providers b) (prov_id p) then (Err Conflict, b)
      else (Ok (), b\<lparr>br_providers := hm_insert (prov_id p) p (br_providers b)\<rparr>))"

text \<open>The first revocation record of a lease wins.\<close>

definition revoke_lease :: "LeaseRevocationReason \<Rightarrow> nat \<Rightarrow> Lease \<Rightarrow> Lease" where
  "revoke_lease reason at l =
     (if lease_revoked l = None then l\<lparr>lease_revoked := Some \<lparr>rev_reason = reason, rev_at = at\<rparr>\<rparr> else l)"

definition revoke_all_for_capability ::
  "CapabilityId \<Rightarrow> LeaseRevocationReason \<Rightarrow> nat \<Rightarrow> 'v Broker \<Rightarrow> 'v Broker" where
  "revoke_all_for_capability cap reason at b =
     b\<lparr>br_leases := hm_map_values
         (\<lambda>l. if lease_capability l = cap then revoke_lease reason at l else l) (br_leases b)\<rparr>"

definition grant :: "nat \<Rightarrow> CapabilityGrant \<Rightarrow> 'v Broker \<Rightarrow> (unit, BrokerError) result \<times> 'v Broker" where
  "grant now g b =
     (case hm_get (br_grants b) (grant_capability g) of
        Some existing \<Rightarrow>
          if existing = g then (Ok (), b)
          else if grant_generation existing \<noteq> grant_generation g then
            let b' = revoke_all_for_capability (grant_capability g) GenerationChange now b
            in (Ok (), b'\<lparr>br_grants := hm_insert (grant_capability g) g (br_grants b')\<rparr>)
          else (Err Conflict, b)
      | None \<Rightarrow> (Ok (), b\<lparr>br_grants := hm_insert (grant_capability g) g (br_grants b)\<rparr>))"

definition lease :: "nat \<Rightarrow> Lease \<Rightarrow> 'v Broker \<Rightarrow> (unit, BrokerError) result \<times> 'v Broker" where
  "lease now l b =
     (case hm_get (br_grants b) (lease_capability l) of
        None \<Rightarrow> (Err UnknownCapability, b)
      | Some g \<Rightarrow>
          if grant_owner g \<noteq> lease_owner l then (Err NotGranted, b)
          else if grant_generation g \<noteq> lease_generation l then (Err GenerationMismatch, b)
          else if \<not> covers (grant_scope g) (lease_scope l) then (Err ScopeMismatch, b)
          else if lease_expires_at l \<le> now then (Err LeaseExpired, b)
          else
            (case hm_get (br_leases b) (lease_id l) of
               Some existing \<Rightarrow> if existing = l then (Ok (), b) else (Err Conflict, b)
             | None \<Rightarrow> (Ok (), b\<lparr>br_leases := hm_insert (lease_id l) l (br_leases b)\<rparr>)))"

definition revoke ::
  "nat \<Rightarrow> string \<Rightarrow> LeaseRevocationReason \<Rightarrow> 'v Broker \<Rightarrow> (unit, BrokerError) result \<times> 'v Broker" where
  "revoke at i reason b =
     (case hm_get (br_leases b) i of
        None \<Rightarrow> (Ok (), b)
      | Some l \<Rightarrow> (Ok (), b\<lparr>br_leases := hm_insert i (revoke_lease reason at l) (br_leases b)\<rparr>))"

section \<open>Enforcement and dispatch\<close>

text \<open>The loop over the leases; flags: matched, covering, revoked, expired.\<close>

record lease_flags =
  fl_matched :: bool
  fl_covering :: bool
  fl_revoked :: bool
  fl_expired :: bool

fun scan_leases ::
  "nat \<Rightarrow> CapabilityId \<Rightarrow> string \<Rightarrow> nat \<Rightarrow> Scope \<Rightarrow> Lease list \<Rightarrow> lease_flags \<Rightarrow> (unit, BrokerError) result" where
  "scan_leases now cap owner gen sc [] fl =
     (if fl_revoked fl then Err LeaseRevoked
      else if fl_expired fl then Err LeaseExpired
      else if fl_covering fl then Err ScopeMismatch
      else if fl_matched fl then Err ScopeMismatch
      else Err NotGranted)"
| "scan_leases now cap owner gen sc (l # ls) fl =
     (if lease_capability l \<noteq> cap \<or> lease_owner l \<noteq> owner \<or> lease_generation l \<noteq> gen then
        scan_leases now cap owner gen sc ls fl
      else if \<not> covers (lease_scope l) sc then
        scan_leases now cap owner gen sc ls (fl\<lparr>fl_matched := True\<rparr>)
      else if is_revoked l then
        scan_leases now cap owner gen sc ls (fl\<lparr>fl_matched := True, fl_covering := True, fl_revoked := True\<rparr>)
      else if is_expired l now then
        scan_leases now cap owner gen sc ls (fl\<lparr>fl_matched := True, fl_covering := True, fl_expired := True\<rparr>)
      else Ok ())"

definition enforce_valid_lease ::
  "nat \<Rightarrow> CapabilityId \<Rightarrow> string \<Rightarrow> nat \<Rightarrow> Scope \<Rightarrow> 'v Broker \<Rightarrow> (unit, BrokerError) result" where
  "enforce_valid_lease now cap owner gen sc b =
     scan_leases now cap owner gen sc (hm_values (br_leases b))
       \<lparr>fl_matched = False, fl_covering = False, fl_revoked = False, fl_expired = False\<rparr>"

definition enforce_dispatch ::
  "nat \<Rightarrow> CapabilityId \<Rightarrow> string \<Rightarrow> nat \<Rightarrow> Scope \<Rightarrow> 'v Broker \<Rightarrow> (unit, BrokerError) result" where
  "enforce_dispatch now cap owner gen sc b =
     (case hm_get (br_grants b) cap of
        None \<Rightarrow> Err UnknownCapability
      | Some g \<Rightarrow>
          if grant_owner g \<noteq> owner then Err NotGranted
          else if grant_generation g \<noteq> gen then Err GenerationMismatch
          else if \<not> covers (grant_scope g) sc then Err ScopeMismatch
          else enforce_valid_lease now cap owner gen sc b)"

definition dispatch ::
  "nat \<Rightarrow> string \<Rightarrow> 'v Invocation \<Rightarrow> 'v Broker \<Rightarrow> ('v InvocationResult, BrokerError) result" where
  "dispatch now provider_id req b =
     (case hm_get (br_providers b) provider_id of
        None \<Rightarrow> Err UnknownProvider
      | Some p \<Rightarrow>
          if prov_capability p \<noteq> inv_capability req then Err UnknownCapability
          else bind_result
            (enforce_dispatch now (inv_capability req) (inv_owner req) (inv_generation req) (inv_scope req) b)
            (\<lambda>_. Ok (prov_handler p req)))"

section \<open>Observability\<close>

definition grant_for :: "CapabilityId \<Rightarrow> 'v Broker \<Rightarrow> CapabilityGrant option" where
  "grant_for cap b = hm_get (br_grants b) cap"

definition get_lease :: "string \<Rightarrow> 'v Broker \<Rightarrow> Lease option" where
  "get_lease i b = hm_get (br_leases b) i"

definition leases_for :: "CapabilityId \<Rightarrow> 'v Broker \<Rightarrow> Lease list" where
  "leases_for cap b = filter (\<lambda>l. lease_capability l = cap) (hm_values (br_leases b))"

section \<open>Specification of the gate\<close>

text \<open>Leases that speak for a request, those that cover it, and those in force.\<close>

definition lease_matches :: "CapabilityId \<Rightarrow> string \<Rightarrow> nat \<Rightarrow> Lease \<Rightarrow> bool" where
  "lease_matches cap owner gen l =
     (lease_capability l = cap \<and> lease_owner l = owner \<and> lease_generation l = gen)"

definition lease_in_force :: "nat \<Rightarrow> CapabilityId \<Rightarrow> string \<Rightarrow> nat \<Rightarrow> Scope \<Rightarrow> Lease \<Rightarrow> bool" where
  "lease_in_force now cap owner gen sc l =
     (lease_matches cap owner gen l \<and> covers (lease_scope l) sc \<and> \<not> is_revoked l \<and> \<not> is_expired l now)"

text \<open>The verdict on a set of leases, with the precedence of the errors.\<close>

definition lease_verdict ::
  "nat \<Rightarrow> CapabilityId \<Rightarrow> string \<Rightarrow> nat \<Rightarrow> Scope \<Rightarrow> Lease set \<Rightarrow> (unit, BrokerError) result" where
  "lease_verdict now cap owner gen sc L =
     (let covering = (\<lambda>l. lease_matches cap owner gen l \<and> covers (lease_scope l) sc)
      in if \<exists>l \<in> L. lease_in_force now cap owner gen sc l then Ok ()
         else if \<exists>l \<in> L. covering l \<and> is_revoked l then Err LeaseRevoked
         else if \<exists>l \<in> L. covering l then Err LeaseExpired
         else if \<exists>l \<in> L. lease_matches cap owner gen l then Err ScopeMismatch
         else Err NotGranted)"

text \<open>The flags after a scan that returned from no lease.\<close>

definition flag_leases ::
  "nat \<Rightarrow> CapabilityId \<Rightarrow> string \<Rightarrow> nat \<Rightarrow> Scope \<Rightarrow> Lease list \<Rightarrow> lease_flags \<Rightarrow> lease_flags" where
  "flag_leases now cap owner gen sc ls fl =
     (let covering = (\<lambda>l. lease_matches cap owner gen l \<and> covers (lease_scope l) sc)
      in \<lparr>fl_matched = (fl_matched fl \<or> (\<exists>l \<in> set ls. lease_matches cap owner gen l)),
          fl_covering = (fl_covering fl \<or> (\<exists>l \<in> set ls. covering l)),
          fl_revoked = (fl_revoked fl \<or> (\<exists>l \<in> set ls. covering l \<and> is_revoked l)),
          fl_expired = (fl_expired fl \<or> (\<exists>l \<in> set ls. covering l \<and> \<not> is_revoked l \<and> is_expired l now))\<rparr>)"

text \<open>The grant and lease tables file every record under its own key.\<close>

definition broker_wf :: "'v Broker \<Rightarrow> bool" where
  "broker_wf b =
     (hm_wf (br_grants b) \<and> hm_wf (br_leases b) \<and>
      (\<forall>k g. hm_get (br_grants b) k = Some g \<longrightarrow> grant_capability g = k) \<and>
      (\<forall>k l. hm_get (br_leases b) k = Some l \<longrightarrow> lease_id l = k))"

section \<open>Lemmas\<close>

lemma covers_refl [simp]: "covers sc sc"
  by (simp add: covers_def list_all_iff)

lemma covers_default [simp]: "covers default_scope sc"
  by (simp add: covers_def default_scope_def)

lemma revoke_lease_fields [simp]:
  "lease_id (revoke_lease r at l) = lease_id l"
  "lease_capability (revoke_lease r at l) = lease_capability l"
  "lease_owner (revoke_lease r at l) = lease_owner l"
  "lease_generation (revoke_lease r at l) = lease_generation l"
  "lease_scope (revoke_lease r at l) = lease_scope l"
  "lease_expires_at (revoke_lease r at l) = lease_expires_at l"
  "is_revoked (revoke_lease r at l)"
  by (simp_all add: revoke_lease_def is_revoked_def)

lemma revoke_lease_first_wins: "is_revoked l \<Longrightarrow> revoke_lease r at l = l"
  by (simp add: revoke_lease_def is_revoked_def)

text \<open>The scan, with the flags as what the leases already passed have shown.\<close>

lemma scan_leases_Ok:
  "scan_leases now cap owner gen sc ls fl = Ok () \<longleftrightarrow>
   (\<exists>l \<in> set ls. lease_in_force now cap owner gen sc l)"
  by (induction now cap owner gen sc ls fl rule: scan_leases.induct)
    (auto simp: lease_in_force_def lease_matches_def)

lemma flag_leases_Cons:
  "flag_leases now cap owner gen sc (l # ls) fl = flag_leases now cap owner gen sc ls
     (if \<not> lease_matches cap owner gen l then fl
      else if \<not> covers (lease_scope l) sc then fl\<lparr>fl_matched := True\<rparr>
      else if is_revoked l then fl\<lparr>fl_matched := True, fl_covering := True, fl_revoked := True\<rparr>
      else if is_expired l now then fl\<lparr>fl_matched := True, fl_covering := True, fl_expired := True\<rparr>
      else fl\<lparr>fl_matched := True, fl_covering := True\<rparr>)"
  by (rule lease_flags.equality) (auto simp: flag_leases_def)

lemma scan_leases_flags:
  assumes "\<not> (\<exists>l \<in> set ls. lease_in_force now cap owner gen sc l)"
  shows "scan_leases now cap owner gen sc ls fl =
    scan_leases now cap owner gen sc [] (flag_leases now cap owner gen sc ls fl)"
  using assms
proof (induction ls arbitrary: fl)
  case Nil
  then show ?case by (simp add: flag_leases_def)
next
  case (Cons l ls)
  have IH: "scan_leases now cap owner gen sc ls f =
      scan_leases now cap owner gen sc [] (flag_leases now cap owner gen sc ls f)" for f
    using Cons by simp
  have "\<not> lease_in_force now cap owner gen sc l" using Cons.prems by simp
  then show ?case
    unfolding scan_leases.simps(2) flag_leases_Cons IH
    by (auto simp: lease_matches_def lease_in_force_def simp del: scan_leases.simps)
qed

lemma enforce_valid_lease_verdict:
  "enforce_valid_lease now cap owner gen sc b =
   lease_verdict now cap owner gen sc (set (hm_values (br_leases b)))"
proof (cases "\<exists>l \<in> set (hm_values (br_leases b)). lease_in_force now cap owner gen sc l")
  case True
  then show ?thesis by (simp add: enforce_valid_lease_def lease_verdict_def scan_leases_Ok Let_def)
next
  case False
  then have live: "\<And>l. l \<in> set (hm_values (br_leases b)) \<Longrightarrow> lease_matches cap owner gen l \<Longrightarrow>
      covers (lease_scope l) sc \<Longrightarrow> \<not> is_revoked l \<Longrightarrow> is_expired l now"
    by (auto simp: lease_in_force_def)
  have "enforce_valid_lease now cap owner gen sc b = scan_leases now cap owner gen sc []
      (flag_leases now cap owner gen sc (hm_values (br_leases b))
        \<lparr>fl_matched = False, fl_covering = False, fl_revoked = False, fl_expired = False\<rparr>)"
    unfolding enforce_valid_lease_def by (rule scan_leases_flags [OF False])
  with False show ?thesis
    by (auto simp: flag_leases_def lease_verdict_def Let_def dest: live)
qed

lemma enforce_dispatch_Ok:
  "enforce_dispatch now cap owner gen sc b = Ok () \<longleftrightarrow>
   (\<exists>g. hm_get (br_grants b) cap = Some g \<and> grant_owner g = owner \<and> grant_generation g = gen \<and>
      covers (grant_scope g) sc) \<and>
   (\<exists>l \<in> set (hm_values (br_leases b)). lease_in_force now cap owner gen sc l)"
  by (auto simp: enforce_dispatch_def enforce_valid_lease_def scan_leases_Ok split: option.splits)

text \<open>Well-formedness of the tables.\<close>

lemma broker_wf_new: "broker_wf new_broker"
  by (simp add: broker_wf_def new_broker_def hm_empty)

lemma broker_wf_revoke_all: "broker_wf b \<Longrightarrow> broker_wf (revoke_all_for_capability cap r at b)"
  by (auto simp: broker_wf_def revoke_all_for_capability_def hm_get_map_values hm_wf_map_values)

lemma broker_wf_grant: "broker_wf b \<Longrightarrow> broker_wf (snd (grant now g b))"
  using broker_wf_revoke_all [of b "grant_capability g" GenerationChange now]
  by (auto simp: grant_def broker_wf_def Let_def hm_get_insert hm_wf_insert split: option.splits)

lemma broker_wf_lease: "broker_wf b \<Longrightarrow> broker_wf (snd (lease now l b))"
  by (auto simp: lease_def broker_wf_def hm_get_insert hm_wf_insert split: option.splits)

lemma broker_wf_revoke: "broker_wf b \<Longrightarrow> broker_wf (snd (revoke at i r b))"
  by (auto simp: revoke_def broker_wf_def hm_get_insert hm_wf_insert split: option.splits)

lemma broker_wf_register: "broker_wf b \<Longrightarrow> broker_wf (snd (register_provider p b))"
  by (simp add: register_provider_def broker_wf_def)

lemma lease_values_revoked:
  assumes "l \<in> set (hm_values (br_leases (revoke_all_for_capability cap r at b)))" and "lease_capability l = cap"
  shows "is_revoked l"
proof -
  obtain k l' where "l = (if lease_capability l' = cap then revoke_lease r at l' else l')"
    using assms(1) by (auto simp: revoke_all_for_capability_def hm_values_def hm_map_values_def)
  with assms(2) show ?thesis by (cases "lease_capability l' = cap") simp_all
qed

section \<open>Properties\<close>

text \<open>
  C5. The dispatch gate is exact: an invocation reaches a provider's handler, and returns what the
  handler returns, precisely when the provider is registered for the invoked capability, the
  capability is granted to that owner at that generation with a scope covering the request, and
  some lease of the same capability, owner and generation covers the request and is neither
  revoked nor expired at the time of the call.
\<close>

theorem dispatch_gate_exact:
  "dispatch now pid req b = Ok r \<longleftrightarrow>
   (\<exists>p g l. hm_get (br_providers b) pid = Some p \<and> prov_capability p = inv_capability req \<and>
      r = prov_handler p req \<and>
      hm_get (br_grants b) (inv_capability req) = Some g \<and> grant_owner g = inv_owner req \<and>
      grant_generation g = inv_generation req \<and> covers (grant_scope g) (inv_scope req) \<and>
      l \<in> set (hm_values (br_leases b)) \<and> lease_capability l = inv_capability req \<and>
      lease_owner l = inv_owner req \<and> lease_generation l = inv_generation req \<and>
      covers (lease_scope l) (inv_scope req) \<and> lease_revoked l = None \<and> now < lease_expires_at l)"
proof -
  let ?gate = "enforce_dispatch now (inv_capability req) (inv_owner req) (inv_generation req) (inv_scope req) b"
  have "dispatch now pid req b = Ok r \<longleftrightarrow> (\<exists>p. hm_get (br_providers b) pid = Some p \<and>
      prov_capability p = inv_capability req \<and> r = prov_handler p req \<and> ?gate = Ok ())"
    by (cases ?gate) (auto simp: dispatch_def split: option.splits)
  then show ?thesis
    unfolding enforce_dispatch_Ok
    by (auto simp: lease_in_force_def lease_matches_def is_revoked_def is_expired_def not_le)
qed

text \<open>
  The verdict of the gate, errors included, does not depend on the iteration order of the hash
  maps: two brokers whose tables answer every lookup alike give the same verdict, with the
  precedence revoked, expired, scope mismatch, not granted among the matching leases.
\<close>

lemma enforce_dispatch_order_independent:
  assumes "broker_wf b" and "broker_wf b'"
    and "hm_get (br_grants b) = hm_get (br_grants b')" and "hm_get (br_leases b) = hm_get (br_leases b')"
  shows "enforce_dispatch now cap owner gen sc b = enforce_dispatch now cap owner gen sc b' \<and>
    enforce_valid_lease now cap owner gen sc b = lease_verdict now cap owner gen sc (set (hm_values (br_leases b')))"
proof -
  have "set (hm_values (br_leases b)) = set (hm_values (br_leases b'))"
    using assms by (auto simp: broker_wf_def hm_values_iff)
  then have eq: "enforce_valid_lease now cap owner gen sc b = enforce_valid_lease now cap owner gen sc b'"
    by (simp add: enforce_valid_lease_verdict)
  show ?thesis
    unfolding enforce_dispatch_def assms(3) eq by (simp add: enforce_valid_lease_verdict)
qed

text \<open>
  Superseding a grant cuts every lease: after a grant of a capability with a different generation
  than the current one, no request on that capability passes the gate, for any owner, generation,
  scope or time, until a new lease is issued.
\<close>

lemma regrant_cuts_leases:
  assumes "hm_get (br_grants b) (grant_capability g) = Some old"
    and "grant_generation old \<noteq> grant_generation g"
  shows "\<exists>b'. grant now g b = (Ok (), b') \<and> hm_get (br_grants b') (grant_capability g) = Some g \<and>
    (\<forall>now' owner gen sc. enforce_dispatch now' (grant_capability g) owner gen sc b' \<noteq> Ok ())"
proof -
  let ?b = "revoke_all_for_capability (grant_capability g) GenerationChange now b"
  let ?b' = "?b\<lparr>br_grants := hm_insert (grant_capability g) g (br_grants ?b)\<rparr>"
  have "grant now g b = (Ok (), ?b')"
    using assms by (auto simp: grant_def Let_def)
  moreover have "\<not> lease_in_force now' (grant_capability g) owner gen sc l"
    if "l \<in> set (hm_values (br_leases ?b'))" for now' owner gen sc l
    using that lease_values_revoked [of l "grant_capability g"]
    by (auto simp: lease_in_force_def lease_matches_def)
  ultimately show ?thesis
    by (auto simp: enforce_dispatch_Ok hm_get_insert)
qed

text \<open>
  The second scope check at dispatch is needed: scope coverage is not transitive, so from the
  empty broker a grant restricted to one domain can be leased with an unrestricted scope, the lease
  alone would admit another domain, and only the grant check of the gate refuses it.
\<close>

lemma grant_scope_check_needed:
  "\<exists>g l b1 b2 cap. grant 0 g (new_broker :: 'v Broker) = (Ok (), b1) \<and> lease 0 l b1 = (Ok (), b2) \<and>
     enforce_valid_lease 0 cap ''a'' 1 (default_scope\<lparr>sc_domains := [''evil'']\<rparr>) b2 = Ok () \<and>
     enforce_dispatch 0 cap ''a'' 1 (default_scope\<lparr>sc_domains := [''evil'']\<rparr>) b2 = Err ScopeMismatch"
proof -
  let ?cap = "\<lparr>cap_api_version = ''v1'', cap_kind = ''Browser''\<rparr>"
  let ?g = "\<lparr>grant_capability = ?cap, grant_version = ''v1'', grant_scope = default_scope\<lparr>sc_domains := [''good'']\<rparr>,
      grant_owner = ''a'', grant_generation = 1, grant_created_at = 0\<rparr>"
  let ?l = "\<lparr>lease_id = ''l'', lease_capability = ?cap, lease_owner = ''a'', lease_generation = 1,
      lease_scope = default_scope, lease_expires_at = 5, lease_revoked = None\<rparr>"
  let ?b1 = "(new_broker :: 'v Broker)\<lparr>br_grants := [(?cap, ?g)]\<rparr>"
  let ?b2 = "?b1\<lparr>br_leases := [(''l'', ?l)]\<rparr>"
  have "grant 0 ?g (new_broker :: 'v Broker) = (Ok (), ?b1)"
    by (simp add: grant_def new_broker_def hm_get_def hm_insert_def)
  moreover have "lease 0 ?l ?b1 = (Ok (), ?b2)"
    by (simp add: lease_def new_broker_def hm_get_def hm_insert_def covers_def default_scope_def)
  moreover have "enforce_valid_lease 0 ?cap ''a'' 1 (default_scope\<lparr>sc_domains := [''evil'']\<rparr>) ?b2 = Ok ()"
    by (simp add: enforce_valid_lease_def hm_values_def is_revoked_def is_expired_def)
  moreover have "enforce_dispatch 0 ?cap ''a'' 1 (default_scope\<lparr>sc_domains := [''evil'']\<rparr>) ?b2 = Err ScopeMismatch"
    by (simp add: enforce_dispatch_def hm_get_def covers_def default_scope_def)
  ultimately show ?thesis by blast
qed

end
