(* ===== verification/Agent_Bridge.thy ===== *)
theory Agent_Bridge
  imports Broker
begin

text \<open>
  The agent authorization bridge (\<^verbatim>\<open>crates/supervisor/src/broker/agent.rs\<close>): a negotiated activation
  becomes grants and leases of the broker, at a generation of the agent's own counter, and can be
  revoked as a whole. Each operation takes the clock readings it makes: \<open>now\<close> for its own,
  \<open>gclk i\<close> and \<open>lclk i\<close> for those inside the \<open>i\<close>-th grant and lease.
\<close>

section \<open>Data\<close>

datatype AgentConformanceState = Agent_Known | Agent_Absent | Agent_Unknown

fun agent_conformance_str :: "AgentConformanceState \<Rightarrow> string" where
  "agent_conformance_str Agent_Known = ''known''"
| "agent_conformance_str Agent_Absent = ''absent''"
| "agent_conformance_str Agent_Unknown = ''unknown''"

record AgentLeaseConstraints =
  max_seconds :: nat
  approval_required :: "bool option"

record AgentNegotiationResult =
  anr_activation_id :: string
  anr_agreed :: bool
  anr_granted :: "CapabilityId list"
  anr_conformance :: AgentConformanceState
  anr_lease_constraints :: "AgentLeaseConstraints option"
  anr_scope :: Scope

record AgentGrant =
  ag_agent_id :: string
  ag_activation_id :: string
  ag_generation :: nat
  ag_capabilities :: "CapabilityId list"
  ag_scope :: Scope
  ag_lease_constraints :: "AgentLeaseConstraints option"
  ag_expires_at :: nat
  ag_granted_at :: nat

datatype AgentBridgeError =
    NotNegotiated
  | NothingGranted
  | NoLeasePolicy
  | ConformanceNotKnown
  | ActivationRevoked
  | StaleActivation
  | Bridge_Broker BrokerError

fun bridge_protocol_code :: "AgentBridgeError \<Rightarrow> string" where
  "bridge_protocol_code (Bridge_Broker e) = protocol_code e"
| "bridge_protocol_code StaleActivation = ''STALE_GENERATION''"
| "bridge_protocol_code ConformanceNotKnown = ''UNAVAILABLE''"
| "bridge_protocol_code _ = ''UNAUTHORIZED''"

fun bridge_retryable :: "AgentBridgeError \<Rightarrow> bool" where
  "bridge_retryable (Bridge_Broker e) = retryable e"
| "bridge_retryable ConformanceNotKnown = True"
| "bridge_retryable _ = False"

fun bridge_error_message :: "AgentBridgeError \<Rightarrow> string" where
  "bridge_error_message NotNegotiated = ''negotiation did not reach agreement''"
| "bridge_error_message NothingGranted = ''agreement granted no capabilities''"
| "bridge_error_message NoLeasePolicy = ''lease constraints missing max seconds''"
| "bridge_error_message ConformanceNotKnown = ''dsh-std conformance is not known''"
| "bridge_error_message ActivationRevoked = ''activation revoked by human takeover''"
| "bridge_error_message StaleActivation = ''activation is not current''"
| "bridge_error_message (Bridge_Broker e) = broker_error_display e"

definition bridge_error_display :: "AgentBridgeError \<Rightarrow> string" where
  "bridge_error_display e = bridge_error_message e @ '' ('' @ bridge_protocol_code e @ '')''"

definition contract_version :: "string \<Rightarrow> string" where
  "contract_version v = (case rsplit_once CHR ''/'' v of None \<Rightarrow> v | Some (_, s) \<Rightarrow> s)"

definition agent_lease_id :: "string \<Rightarrow> string \<Rightarrow> CapabilityId \<Rightarrow> string" where
  "agent_lease_id agent act cap =
     ''agent-'' @ agent @ ''-'' @ act @ ''-'' @ cap_api_version cap @ ''-'' @ cap_kind cap"

section \<open>Granting\<close>

text \<open>The generation of the activation: replayed, refused or freshly counted.\<close>

definition activation_states :: "string \<Rightarrow> 'v Broker \<Rightarrow> (string, AgentActivationState) hashmap" where
  "activation_states agent b =
     (case hm_get (br_agent_activations b) agent of None \<Rightarrow> [] | Some m \<Rightarrow> m)"

definition counter_of :: "string \<Rightarrow> 'v Broker \<Rightarrow> nat" where
  "counter_of agent b = (case hm_get (br_next_generation b) agent of None \<Rightarrow> 0 | Some n \<Rightarrow> n)"

definition activate :: "string \<Rightarrow> string \<Rightarrow> 'v Broker \<Rightarrow> (nat, AgentBridgeError) result \<times> 'v Broker" where
  "activate agent act b =
     (case hm_get (activation_states agent b) act of
        Some st \<Rightarrow>
          if act_revoked st then (Err ActivationRevoked, b)
          else if hm_get (br_current_activation b) agent = Some act then (Ok (act_generation st), b)
          else (Err StaleActivation, b)
      | None \<Rightarrow>
          let counter = counter_of agent b + 1
          in (Ok counter,
              b\<lparr>br_next_generation := hm_insert agent counter (br_next_generation b),
                br_agent_activations := hm_insert agent
                  (hm_insert act \<lparr>act_generation = counter, act_revoked = False\<rparr> (activation_states agent b))
                  (br_agent_activations b),
                br_current_activation := hm_insert agent act (br_current_activation b)\<rparr>))"

definition agent_grant_record :: "string \<Rightarrow> Scope \<Rightarrow> nat \<Rightarrow> nat \<Rightarrow> CapabilityId \<Rightarrow> CapabilityGrant" where
  "agent_grant_record agent sc gen now cap =
     \<lparr>grant_capability = cap, grant_version = contract_version (cap_api_version cap), grant_scope = sc,
      grant_owner = agent, grant_generation = gen, grant_created_at = now\<rparr>"

definition agent_lease_record ::
  "string \<Rightarrow> string \<Rightarrow> Scope \<Rightarrow> nat \<Rightarrow> nat \<Rightarrow> CapabilityId \<Rightarrow> Lease" where
  "agent_lease_record agent act sc gen expires cap =
     \<lparr>lease_id = agent_lease_id agent act cap, lease_capability = cap, lease_owner = agent,
      lease_generation = gen, lease_scope = sc, lease_expires_at = expires, lease_revoked = None\<rparr>"

fun issue_grants ::
  "(nat \<Rightarrow> nat) \<Rightarrow> (CapabilityId \<Rightarrow> CapabilityGrant) \<Rightarrow> CapabilityId list \<Rightarrow> 'v Broker \<Rightarrow>
   (unit, BrokerError) result \<times> 'v Broker" where
  "issue_grants clk mk [] b = (Ok (), b)"
| "issue_grants clk mk (c # cs) b =
     (case grant (clk 0) (mk c) b of
        (Ok _, b') \<Rightarrow> issue_grants (\<lambda>i. clk (Suc i)) mk cs b'
      | (Err e, b') \<Rightarrow> (Err e, b'))"

fun issue_leases ::
  "(nat \<Rightarrow> nat) \<Rightarrow> (CapabilityId \<Rightarrow> Lease) \<Rightarrow> CapabilityId list \<Rightarrow> 'v Broker \<Rightarrow>
   (unit, BrokerError) result \<times> 'v Broker" where
  "issue_leases clk mk [] b = (Ok (), b)"
| "issue_leases clk mk (c # cs) b =
     (case lease (clk 0) (mk c) b of
        (Ok _, b') \<Rightarrow> issue_leases (\<lambda>i. clk (Suc i)) mk cs b'
      | (Err e, b') \<Rightarrow> (Err e, b'))"

definition lease_policy :: "AgentNegotiationResult \<Rightarrow> (AgentLeaseConstraints, AgentBridgeError) result" where
  "lease_policy r =
     (if \<not> anr_agreed r then Err NotNegotiated
      else if anr_conformance r \<noteq> Agent_Known then Err ConformanceNotKnown
      else if anr_granted r = [] then Err NothingGranted
      else case anr_lease_constraints r of
             None \<Rightarrow> Err NoLeasePolicy
           | Some c \<Rightarrow> if max_seconds c = 0 then Err NoLeasePolicy else Ok c)"

definition broker_grant_from_negotiation ::
  "nat \<Rightarrow> (nat \<Rightarrow> nat) \<Rightarrow> (nat \<Rightarrow> nat) \<Rightarrow> string \<Rightarrow> AgentNegotiationResult \<Rightarrow> 'v Broker \<Rightarrow>
   (AgentGrant, AgentBridgeError) result \<times> 'v Broker" where
  "broker_grant_from_negotiation now gclk lclk agent r b =
     (case lease_policy r of
        Err e \<Rightarrow> (Err e, b)
      | Ok constraints \<Rightarrow>
          (case activate agent (anr_activation_id r) b of
             (Err e, b0) \<Rightarrow> (Err e, b0)
           | (Ok gen, b0) \<Rightarrow>
               (case issue_grants gclk (agent_grant_record agent (anr_scope r) gen now) (anr_granted r) b0 of
                  (Err e, b1) \<Rightarrow> (Err (Bridge_Broker e), b1)
                | (Ok _, b1) \<Rightarrow>
                    let expires = saturating_add now (saturating_mul (max_seconds constraints) 1000)
                    in case issue_leases lclk
                           (agent_lease_record agent (anr_activation_id r) (anr_scope r) gen expires)
                           (anr_granted r) b1 of
                         (Err e, b2) \<Rightarrow> (Err (Bridge_Broker e), b2)
                       | (Ok _, b2) \<Rightarrow>
                           (Ok \<lparr>ag_agent_id = agent, ag_activation_id = anr_activation_id r,
                                ag_generation = gen, ag_capabilities = anr_granted r,
                                ag_scope = anr_scope r, ag_lease_constraints = Some constraints,
                                ag_expires_at = expires, ag_granted_at = now\<rparr>, b2))))"

section \<open>Revoking\<close>

definition revoke_targets :: "string \<Rightarrow> 'v Broker \<Rightarrow> (string \<times> nat) list" where
  "revoke_targets act b =
     List.map_filter (\<lambda>(agent, states). map_option (\<lambda>st. (agent, act_generation st)) (hm_get states act))
       (br_agent_activations b)"

definition owned_at :: "string \<Rightarrow> nat \<Rightarrow> Lease \<Rightarrow> bool" where
  "owned_at agent gen l = (lease_owner l = agent \<and> lease_generation l = gen)"

definition revoke_target ::
  "nat \<Rightarrow> string \<Rightarrow> LeaseRevocationReason \<Rightarrow> string \<times> nat \<Rightarrow> nat \<times> 'v Broker \<Rightarrow> nat \<times> 'v Broker" where
  "revoke_target at act reason tgt nb =
     (case tgt of (agent, gen) \<Rightarrow> case nb of (n, b) \<Rightarrow>
        (n + length (filter (\<lambda>l. owned_at agent gen l \<and> \<not> is_revoked l) (hm_values (br_leases b))),
         b\<lparr>br_leases := hm_map_values (\<lambda>l. if owned_at agent gen l then revoke_lease reason at l else l) (br_leases b),
           br_agent_activations :=
             (case hm_get (br_agent_activations b) agent of
                None \<Rightarrow> br_agent_activations b
              | Some states \<Rightarrow>
                  hm_insert agent
                    (case hm_get states act of None \<Rightarrow> states
                     | Some st \<Rightarrow> hm_insert act (st\<lparr>act_revoked := True\<rparr>) states)
                    (br_agent_activations b)),
           br_current_activation :=
             (if hm_get (br_current_activation b) agent = Some act
              then hm_remove agent (br_current_activation b) else br_current_activation b)\<rparr>))"

definition revoke_agent_grants ::
  "nat \<Rightarrow> string \<Rightarrow> LeaseRevocationReason \<Rightarrow> 'v Broker \<Rightarrow> nat \<times> 'v Broker" where
  "revoke_agent_grants at act reason b =
     fold (revoke_target at act reason) (revoke_targets act b) (0, b)"

section \<open>Observability\<close>

definition activation :: "string \<Rightarrow> string \<Rightarrow> 'v Broker \<Rightarrow> AgentActivationState option" where
  "activation agent act b = hm_get (activation_states agent b) act"

definition agent_generation :: "string \<Rightarrow> string \<Rightarrow> 'v Broker \<Rightarrow> nat option" where
  "agent_generation agent act b = map_option act_generation (activation agent act b)"

definition agent_activation_revoked :: "string \<Rightarrow> string \<Rightarrow> 'v Broker \<Rightarrow> bool" where
  "agent_activation_revoked agent act b =
     (case activation agent act b of None \<Rightarrow> False | Some st \<Rightarrow> act_revoked st)"

definition agent_activation_count :: "'v Broker \<Rightarrow> nat" where
  "agent_activation_count b = sum_list (map length (hm_values (br_agent_activations b)))"

section \<open>Histories\<close>

text \<open>
  The operations of the bridge and of the broker. Leases for owners in \<open>A\<close>, the agents, are
  issued by the bridge only.
\<close>

datatype 'v broker_op =
    Op_Register "'v Provider"
  | Op_Grant nat CapabilityGrant
  | Op_Lease nat Lease
  | Op_Revoke nat string LeaseRevocationReason
  | Op_Bridge nat "nat \<Rightarrow> nat" "nat \<Rightarrow> nat" string AgentNegotiationResult
  | Op_Revoke_Agent nat string LeaseRevocationReason

fun broker_exec :: "'v broker_op \<Rightarrow> 'v Broker \<Rightarrow> 'v Broker" where
  "broker_exec (Op_Register p) b = snd (register_provider p b)"
| "broker_exec (Op_Grant now g) b = snd (grant now g b)"
| "broker_exec (Op_Lease now l) b = snd (lease now l b)"
| "broker_exec (Op_Revoke at i r) b = snd (revoke at i r b)"
| "broker_exec (Op_Bridge now gclk lclk agent r) b = snd (broker_grant_from_negotiation now gclk lclk agent r b)"
| "broker_exec (Op_Revoke_Agent at act r) b = snd (revoke_agent_grants at act r b)"

fun op_allowed :: "string set \<Rightarrow> 'v broker_op \<Rightarrow> bool" where
  "op_allowed A (Op_Lease now l) = (lease_owner l \<notin> A)"
| "op_allowed A _ = True"

inductive broker_step :: "string set \<Rightarrow> 'v Broker \<Rightarrow> 'v broker_op \<Rightarrow> 'v Broker \<Rightarrow> bool" for A where
  broker_stepI: "op_allowed A e \<Longrightarrow> broker_step A b e (broker_exec e b)"

inductive_cases broker_stepE [elim!]: "broker_step A b e b'"

text \<open>A small activation used by the examples below.\<close>

definition sample_capability :: CapabilityId where
  "sample_capability = \<lparr>cap_api_version = ''d/v1'', cap_kind = ''Terminal''\<rparr>"

definition sample_result :: "string \<Rightarrow> CapabilityId \<Rightarrow> AgentNegotiationResult" where
  "sample_result act cap = \<lparr>anr_activation_id = act, anr_agreed = True, anr_granted = [cap],
     anr_conformance = Agent_Known,
     anr_lease_constraints = Some \<lparr>max_seconds = 1, approval_required = None\<rparr>, anr_scope = default_scope\<rparr>"

definition sample_broker :: "'v Broker" where
  "sample_broker = \<lparr>br_grants = [(sample_capability, agent_grant_record ''a'' default_scope 1 5 sample_capability)],
     br_leases = [(agent_lease_id ''a'' ''x'' sample_capability,
       agent_lease_record ''a'' ''x'' default_scope 1 1005 sample_capability)],
     br_providers = [], br_agent_activations = [(''a'', [(''x'', \<lparr>act_generation = 1, act_revoked = False\<rparr>)])],
     br_current_activation = [(''a'', ''x'')], br_next_generation = [(''a'', 1)]\<rparr>"

section \<open>Invariants\<close>

text \<open>How a filed lease may change: not at all, or by its first revocation record.\<close>

definition lease_evolves :: "Lease \<Rightarrow> Lease \<Rightarrow> bool" where
  "lease_evolves l l' = (l' = l \<or> (\<exists>r at. l' = revoke_lease r at l))"

definition leases_evolve :: "'v Broker \<Rightarrow> 'v Broker \<Rightarrow> bool" where
  "leases_evolve b b' =
     (\<forall>i l. hm_get (br_leases b) i = Some l \<longrightarrow> (\<exists>l'. hm_get (br_leases b') i = Some l' \<and> lease_evolves l l'))"

definition leases_from :: "'v Broker \<Rightarrow> 'v Broker \<Rightarrow> (Lease \<Rightarrow> bool) \<Rightarrow> bool" where
  "leases_from b b' P =
     (\<forall>i l'. hm_get (br_leases b') i = Some l' \<longrightarrow>
        (\<exists>l. hm_get (br_leases b) i = Some l \<and> lease_evolves l l') \<or> P l')"

text \<open>Generations identify the activations of an agent and are counted by the agent's counter.\<close>

definition generations_inv :: "'v Broker \<Rightarrow> bool" where
  "generations_inv b =
     (hm_wf (br_agent_activations b) \<and>
      (\<forall>agent act st. activation agent act b = Some st \<longrightarrow> act_generation st \<le> counter_of agent b) \<and>
      (\<forall>agent act act' st st'. activation agent act b = Some st \<longrightarrow> activation agent act' b = Some st' \<longrightarrow>
         act_generation st = act_generation st' \<longrightarrow> act = act'))"

text \<open>A revoked activation of an agent has no unrevoked lease.\<close>

definition revoked_inv :: "string set \<Rightarrow> 'v Broker \<Rightarrow> bool" where
  "revoked_inv A b =
     (\<forall>agent \<in> A. \<forall>act st i l. activation agent act b = Some st \<longrightarrow> act_revoked st \<longrightarrow>
        hm_get (br_leases b) i = Some l \<longrightarrow> owned_at agent (act_generation st) l \<longrightarrow> is_revoked l)"

definition bridge_inv :: "string set \<Rightarrow> 'v Broker \<Rightarrow> bool" where
  "bridge_inv A b = (broker_wf b \<and> generations_inv b \<and> revoked_inv A b)"

section \<open>Lemmas\<close>

lemma lease_evolves_refl [simp]: "lease_evolves l l"
  by (simp add: lease_evolves_def)

lemma lease_evolves_revoke [simp]: "lease_evolves l (revoke_lease r at l)"
  by (auto simp: lease_evolves_def)

lemma lease_evolves_trans: "lease_evolves l m \<Longrightarrow> lease_evolves m n \<Longrightarrow> lease_evolves l n"
  unfolding lease_evolves_def by (metis revoke_lease_fields(7) revoke_lease_first_wins)

lemma lease_evolvesD:
  assumes "lease_evolves l l'"
  shows "lease_id l' = lease_id l" "lease_capability l' = lease_capability l" "lease_owner l' = lease_owner l"
    "lease_generation l' = lease_generation l" "lease_scope l' = lease_scope l"
    "lease_expires_at l' = lease_expires_at l" "is_revoked l \<Longrightarrow> l' = l"
    "owned_at agent gen l' = owned_at agent gen l"
  using assms by (auto simp: lease_evolves_def owned_at_def revoke_lease_first_wins)

lemma leases_evolve_refl [simp]: "leases_evolve b b"
  by (simp add: leases_evolve_def)

lemma leases_evolve_trans: "leases_evolve a b \<Longrightarrow> leases_evolve b c \<Longrightarrow> leases_evolve a c"
  unfolding leases_evolve_def by (meson lease_evolves_trans)

lemma leases_from_refl [simp]: "leases_from b b P"
  by (auto simp: leases_from_def)

lemma leases_from_trans:
  assumes "leases_from a b P" and "leases_from b c P" and "\<And>l l'. P l \<Longrightarrow> lease_evolves l l' \<Longrightarrow> P l'"
  shows "leases_from a c P"
  using assms unfolding leases_from_def by (meson lease_evolves_trans)

text \<open>What one operation of the broker does to the lease table.\<close>

lemma grant_leases:
  "leases_evolve b (snd (grant now g b)) \<and> leases_from b (snd (grant now g b)) P"
  by (auto simp: grant_def Let_def revoke_all_for_capability_def hm_get_map_values leases_evolve_def
      leases_from_def split: option.splits)

lemma lease_leases:
  "leases_evolve b (snd (lease now l b)) \<and> leases_from b (snd (lease now l b)) (\<lambda>x. x = l)"
  by (auto simp: lease_def hm_get_insert leases_evolve_def leases_from_def split: option.splits)

lemma revoke_leases:
  "leases_evolve b (snd (revoke at i r b)) \<and> leases_from b (snd (revoke at i r b)) P"
  by (auto simp: revoke_def hm_get_insert leases_evolve_def leases_from_def split: option.splits)

text \<open>The registers of the bridge are not touched by the broker's own operations.\<close>

definition same_register :: "'v Broker \<Rightarrow> 'v Broker \<Rightarrow> bool" where
  "same_register b b' =
     (br_agent_activations b' = br_agent_activations b \<and> br_current_activation b' = br_current_activation b \<and>
      br_next_generation b' = br_next_generation b)"

lemma same_register_ops:
  "same_register b (snd (grant now g b))" "same_register b (snd (lease now l b))"
  "same_register b (snd (revoke at i r b))" "same_register b (snd (register_provider p b))"
  by (auto simp: same_register_def grant_def lease_def revoke_def register_provider_def Let_def
      revoke_all_for_capability_def split: option.splits)

lemma same_register_activation:
  "same_register b b' \<Longrightarrow> activation agent act b' = activation agent act b \<and> counter_of agent b' = counter_of agent b"
  by (simp add: same_register_def activation_def activation_states_def counter_of_def)

lemma issue_grants_effect:
  "broker_wf b \<Longrightarrow> broker_wf (snd (issue_grants clk mk cs b)) \<and> same_register b (snd (issue_grants clk mk cs b)) \<and>
   leases_evolve b (snd (issue_grants clk mk cs b)) \<and> leases_from b (snd (issue_grants clk mk cs b)) (\<lambda>_. False)"
proof (induction cs arbitrary: clk b)
  case (Cons c cs)
  obtain r b1 where g: "grant (clk 0) (mk c) b = (r, b1)" by fastforce
  have b1: "broker_wf b1" "same_register b b1" "leases_evolve b b1" "leases_from b b1 (\<lambda>_. False)"
    using broker_wf_grant [OF Cons.prems, of "clk 0" "mk c"] same_register_ops(1) [of b "clk 0" "mk c"]
      grant_leases [of b "clk 0" "mk c"] g by auto
  show ?case
  proof (cases r)
    case (Ok u)
    then have step: "issue_grants clk mk (c # cs) b = issue_grants (\<lambda>i. clk (Suc i)) mk cs b1"
      using g by simp
    show ?thesis
      unfolding step using Cons.IH [OF b1(1), of "\<lambda>i. clk (Suc i)"] b1(2-4)
      by (auto simp: same_register_def intro: leases_evolve_trans leases_from_trans)
  qed (use g b1 in simp)
qed (simp add: same_register_def)

lemma lease_table:
  "hm_get (br_leases (snd (lease now l b))) i = hm_get (br_leases b) i \<or>
   hm_get (br_leases b) i = None \<and> hm_get (br_leases (snd (lease now l b))) i = Some l"
  by (auto simp: lease_def hm_get_insert split: option.splits)

lemma lease_grants: "br_grants (snd (lease now l b)) = br_grants b"
  by (simp add: lease_def split: option.splits)

lemma issue_leases_step:
  "snd (issue_leases clk mk (c # cs) b) =
   (let b1 = snd (lease (clk 0) (mk c) b)
    in if is_ok (fst (lease (clk 0) (mk c) b)) then snd (issue_leases (\<lambda>i. clk (Suc i)) mk cs b1) else b1)"
  by (simp add: Let_def split: prod.splits result.splits)

lemma issue_leases_wf: "broker_wf b \<Longrightarrow> broker_wf (snd (issue_leases clk mk cs b))"
  by (induction cs arbitrary: clk b) (simp_all add: issue_leases_step Let_def broker_wf_lease del: issue_leases.simps(2))

lemma issue_leases_frame:
  "same_register b (snd (issue_leases clk mk cs b)) \<and> br_grants (snd (issue_leases clk mk cs b)) = br_grants b"
proof (induction cs arbitrary: clk b)
  case (Cons c cs)
  show ?case
    using Cons.IH [of "snd (lease (clk 0) (mk c) b)" "\<lambda>i. clk (Suc i)"]
      same_register_ops(2) [of b "clk 0" "mk c"]
    by (simp add: issue_leases_step Let_def same_register_def lease_grants del: issue_leases.simps(2))
qed (simp add: same_register_def)

lemma issue_leases_table:
  "hm_get (br_leases (snd (issue_leases clk mk cs b))) i = hm_get (br_leases b) i \<or>
   hm_get (br_leases b) i = None \<and> (\<exists>c \<in> set cs. hm_get (br_leases (snd (issue_leases clk mk cs b))) i = Some (mk c))"
proof (induction cs arbitrary: clk b)
  case (Cons c cs)
  let ?b1 = "snd (lease (clk 0) (mk c) b)" and ?b' = "snd (issue_leases clk mk (c # cs) b)"
  have "hm_get (br_leases ?b') i = hm_get (br_leases ?b1) i \<or>
      hm_get (br_leases ?b1) i = None \<and> (\<exists>c' \<in> set cs. hm_get (br_leases ?b') i = Some (mk c'))"
    unfolding issue_leases_step Let_def using Cons.IH [of "\<lambda>i. clk (Suc i)" ?b1] by presburger
  moreover have "hm_get (br_leases ?b1) i = hm_get (br_leases b) i \<or>
      hm_get (br_leases b) i = None \<and> hm_get (br_leases ?b1) i = Some (mk c)"
    by (rule lease_table)
  ultimately show ?case by (metis list.set_intros)
qed simp

text \<open>Activation: the register after it, and the generation it gives.\<close>

lemma activation_simps:
  "activation agent act (b\<lparr>br_leases := x\<rparr>) = activation agent act b"
  "activation agent act (b\<lparr>br_grants := y\<rparr>) = activation agent act b"
  by (simp_all add: activation_def activation_states_def)

definition fresh_activation :: "string \<Rightarrow> string \<Rightarrow> 'v Broker \<Rightarrow> 'v Broker" where
  "fresh_activation agent act b =
     b\<lparr>br_next_generation := hm_insert agent (counter_of agent b + 1) (br_next_generation b),
       br_agent_activations := hm_insert agent
         (hm_insert act \<lparr>act_generation = counter_of agent b + 1, act_revoked = False\<rparr> (activation_states agent b))
         (br_agent_activations b),
       br_current_activation := hm_insert agent act (br_current_activation b)\<rparr>"

lemma fresh_activation_fields [simp]:
  "br_grants (fresh_activation agent act b) = br_grants b"
  "br_leases (fresh_activation agent act b) = br_leases b"
  "br_providers (fresh_activation agent act b) = br_providers b"
  "hm_get (br_current_activation (fresh_activation agent act b)) agent = Some act"
  by (simp_all add: fresh_activation_def hm_get_insert)

lemma counter_fresh [simp]:
  "counter_of a (fresh_activation agent act b) = (if a = agent then counter_of agent b + 1 else counter_of a b)"
  by (simp add: fresh_activation_def counter_of_def hm_get_insert)

lemma activation_fresh [simp]:
  "activation a x (fresh_activation agent act b) =
   (if a = agent \<and> x = act then Some \<lparr>act_generation = counter_of agent b + 1, act_revoked = False\<rparr>
    else activation a x b)"
  by (simp add: fresh_activation_def activation_def activation_states_def hm_get_insert)

lemma activate_eq:
  "activate agent act b =
   (case activation agent act b of
      Some st \<Rightarrow>
        if act_revoked st then (Err ActivationRevoked, b)
        else if hm_get (br_current_activation b) agent = Some act then (Ok (act_generation st), b)
        else (Err StaleActivation, b)
    | None \<Rightarrow> (Ok (counter_of agent b + 1), fresh_activation agent act b))"
  by (cases "activation agent act b")
    (simp_all add: activate_def activation_def fresh_activation_def Let_def)

lemma generations_fresh:
  assumes "generations_inv b" and "activation agent act b = None"
  shows "generations_inv (fresh_activation agent act b)"
proof -
  have "hm_wf (br_agent_activations (fresh_activation agent act b))"
    using assms(1) by (simp add: generations_inv_def fresh_activation_def hm_wf_insert)
  moreover have le: "act_generation st \<le> counter_of a b" if "activation a x b = Some st" for a x st
    using assms(1) that by (auto simp: generations_inv_def)
  moreover have "x = y" if "activation a x b = Some st" "activation a y b = Some st'"
    "act_generation st = act_generation st'" for a x y st st'
    using assms(1) that unfolding generations_inv_def by blast
  ultimately show ?thesis
    unfolding generations_inv_def by (auto split: if_splits) (fastforce dest: le)+
qed

text \<open>
  The bridge as a whole: either it refuses before touching the broker, or it activates the
  activation at a generation and issues grants, then leases.
\<close>

lemma bridge_refused:
  assumes "broker_grant_from_negotiation now gclk lclk agent r b = (Err e, b')" and "\<forall>x. e \<noteq> Bridge_Broker x"
  shows "b' = b"
  using assms
  by (auto simp: broker_grant_from_negotiation_def activate_eq Let_def
      split: result.splits option.splits prod.splits if_splits)

lemma bridge_issued:
  assumes "broker_grant_from_negotiation now gclk lclk agent r b = (res, b')"
    and "\<not> (\<exists>e. res = Err e \<and> (\<forall>x. e \<noteq> Bridge_Broker x))"
  obtains gen b0 b1 constraints where "lease_policy r = Ok constraints"
    "activate agent (anr_activation_id r) b = (Ok gen, b0)"
    "b1 = snd (issue_grants gclk (agent_grant_record agent (anr_scope r) gen now) (anr_granted r) b0)"
    "b' = (if is_ok (fst (issue_grants gclk (agent_grant_record agent (anr_scope r) gen now) (anr_granted r) b0))
       then snd (issue_leases lclk (agent_lease_record agent (anr_activation_id r) (anr_scope r) gen
         (saturating_add now (saturating_mul (max_seconds constraints) 1000))) (anr_granted r) b1)
       else b1)"
    "is_ok res \<longrightarrow>
       is_ok (fst (issue_grants gclk (agent_grant_record agent (anr_scope r) gen now) (anr_granted r) b0)) \<and>
       is_ok (fst (issue_leases lclk (agent_lease_record agent (anr_activation_id r) (anr_scope r) gen
         (saturating_add now (saturating_mul (max_seconds constraints) 1000))) (anr_granted r) b1))"
proof -
  obtain c where c: "lease_policy r = Ok c"
    using assms by (cases "lease_policy r")
      (auto simp: broker_grant_from_negotiation_def lease_policy_def split: if_splits option.splits)
  obtain gen b0 where a: "activate agent (anr_activation_id r) b = (Ok gen, b0)"
    using assms c by (cases "activate agent (anr_activation_id r) b")
      (auto simp: broker_grant_from_negotiation_def activate_eq split: result.splits option.splits if_splits)
  obtain rg b1 where g: "issue_grants gclk (agent_grant_record agent (anr_scope r) gen now) (anr_granted r) b0 = (rg, b1)"
    by fastforce
  obtain rl b2 where l: "issue_leases lclk (agent_lease_record agent (anr_activation_id r) (anr_scope r) gen
       (saturating_add now (saturating_mul (max_seconds c) 1000))) (anr_granted r) b1 = (rl, b2)"
    by fastforce
  show ?thesis
    by (rule that [OF c a, of b1])
      (use assms(1) c a g l in \<open>cases rg; cases rl; auto simp: broker_grant_from_negotiation_def Let_def\<close>)+
qed

text \<open>Revocation of an activation.\<close>

lemma revoke_target_leases:
  "hm_get (br_leases (snd (revoke_target at act r (a, g) (n, b)))) i =
   map_option (\<lambda>l. if owned_at a g l then revoke_lease r at l else l) (hm_get (br_leases b) i)"
  by (simp add: revoke_target_def hm_get_map_values)

lemma revoke_target_activation:
  "activation a' x (snd (revoke_target at act r (a, g) (n, b))) =
   (if a' = a \<and> x = act then map_option (\<lambda>st. st\<lparr>act_revoked := True\<rparr>) (activation a x b) else activation a' x b)"
  by (auto simp: revoke_target_def activation_def activation_states_def hm_get_insert split: option.splits)

lemma revoke_target_frame:
  "br_grants (snd (revoke_target at act r t nb)) = br_grants (snd nb)"
  "counter_of a (snd (revoke_target at act r t nb)) = counter_of a (snd nb)"
  "hm_wf (br_agent_activations (snd nb)) \<Longrightarrow> hm_wf (br_agent_activations (snd (revoke_target at act r t nb)))"
  "hm_wf (br_leases (snd nb)) \<Longrightarrow> hm_wf (br_leases (snd (revoke_target at act r t nb)))"
  by (auto simp: revoke_target_def counter_of_def hm_wf_insert hm_wf_map_values split: prod.splits option.splits)

lemma revoke_fold_leases:
  "hm_get (br_leases (snd (fold (revoke_target at act r) ts nb))) i =
   map_option (\<lambda>l. if \<exists>(a, g) \<in> set ts. owned_at a g l then revoke_lease r at l else l) (hm_get (br_leases (snd nb)) i)"
proof (induction ts arbitrary: nb)
  case (Cons t ts)
  obtain a g n b where [simp]: "t = (a, g)" "nb = (n, b)" by (cases t; cases nb)
  show ?case
    using Cons.IH [of "revoke_target at act r (a, g) (n, b)"]
    by (cases "hm_get (br_leases b) i") (auto simp: revoke_target_leases owned_at_def revoke_lease_first_wins)
qed (simp add: option.map_ident)

lemma revoke_fold_activation:
  "activation a x (snd (fold (revoke_target at act r) ts nb)) =
   (if a \<in> fst ` set ts \<and> x = act then map_option (\<lambda>st. st\<lparr>act_revoked := True\<rparr>) (activation a x (snd nb))
    else activation a x (snd nb))"
proof (induction ts arbitrary: nb)
  case (Cons t ts)
  obtain a' g n b where [simp]: "t = (a', g)" "nb = (n, b)" by (cases t; cases nb)
  show ?case
    using Cons.IH [of "revoke_target at act r (a', g) (n, b)"]
    by (cases "activation a x b") (auto simp: revoke_target_activation)
qed simp

lemma revoke_fold_frame:
  "br_grants (snd (fold (revoke_target at act r) ts nb)) = br_grants (snd nb) \<and>
   counter_of a (snd (fold (revoke_target at act r) ts nb)) = counter_of a (snd nb) \<and>
   (hm_wf (br_agent_activations (snd nb)) \<longrightarrow> hm_wf (br_agent_activations (snd (fold (revoke_target at act r) ts nb)))) \<and>
   (hm_wf (br_leases (snd nb)) \<longrightarrow> hm_wf (br_leases (snd (fold (revoke_target at act r) ts nb))))"
  by (induction ts arbitrary: nb) (simp_all add: revoke_target_frame)

lemma revoke_targets_iff:
  assumes "hm_wf (br_agent_activations b)"
  shows "(a, g) \<in> set (revoke_targets act b) \<longleftrightarrow> (\<exists>st. activation a act b = Some st \<and> act_generation st = g)"
proof
  assume "(a, g) \<in> set (revoke_targets act b)"
  then obtain states st where "(a, states) \<in> set (br_agent_activations b)" "hm_get states act = Some st"
    "act_generation st = g"
    by (auto simp: revoke_targets_def List.map_filter_def)
  moreover from this have "hm_get (br_agent_activations b) a = Some states"
    by (simp add: hm_get_Some_iff [OF assms])
  ultimately show "\<exists>st. activation a act b = Some st \<and> act_generation st = g"
    by (simp add: activation_def activation_states_def)
next
  assume "\<exists>st. activation a act b = Some st \<and> act_generation st = g"
  then obtain states st where "hm_get (br_agent_activations b) a = Some states" "hm_get states act = Some st"
    "act_generation st = g"
    by (auto simp: activation_def activation_states_def hm_empty split: option.splits)
  then have "(a, states) \<in> set (br_agent_activations b)"
    using hm_get_Some_iff [OF assms] by simp
  then show "(a, g) \<in> set (revoke_targets act b)"
    using \<open>hm_get states act = Some st\<close> \<open>act_generation st = g\<close>
    by (force simp: revoke_targets_def List.map_filter_def image_iff)
qed

text \<open>The broker after the revocation of an activation.\<close>

lemma revoke_agent_activation:
  assumes "hm_wf (br_agent_activations b)"
  shows "activation a x (snd (revoke_agent_grants at act r b)) =
    (if x = act then map_option (\<lambda>st. st\<lparr>act_revoked := True\<rparr>) (activation a x b) else activation a x b)"
proof (cases "activation a act b")
  case None
  then show ?thesis by (auto simp: revoke_agent_grants_def revoke_fold_activation)
next
  case (Some st)
  then have "a \<in> fst ` set (revoke_targets act b)"
    using revoke_targets_iff [OF assms, of a "act_generation st" act] by force
  then show ?thesis by (auto simp: revoke_agent_grants_def revoke_fold_activation)
qed

lemma revoke_agent_leases:
  assumes "hm_wf (br_agent_activations b)"
  shows "hm_get (br_leases (snd (revoke_agent_grants at act r b))) i =
    map_option (\<lambda>l. if \<exists>a st. activation a act b = Some st \<and> owned_at a (act_generation st) l
      then revoke_lease r at l else l) (hm_get (br_leases b) i)"
proof -
  have "(\<exists>(a, g) \<in> set (revoke_targets act b). owned_at a g l) \<longleftrightarrow>
      (\<exists>a st. activation a act b = Some st \<and> owned_at a (act_generation st) l)" for l
    using revoke_targets_iff [OF assms] by fastforce
  then show ?thesis by (simp add: revoke_agent_grants_def revoke_fold_leases)
qed

lemma revoke_agent_evolve:
  assumes "hm_wf (br_agent_activations b)"
  shows "leases_evolve b (snd (revoke_agent_grants at act r b)) \<and>
    leases_from b (snd (revoke_agent_grants at act r b)) P"
  by (auto simp: leases_evolve_def leases_from_def revoke_agent_leases [OF assms])

text \<open>Preservation of the invariant.\<close>

lemma revoked_invD:
  assumes "revoked_inv A b" and "agent \<in> A" and "activation agent act b = Some st" and "act_revoked st"
    and "hm_get (br_leases b) i = Some l" and "owned_at agent (act_generation st) l"
  shows "is_revoked l"
  using assms unfolding revoked_inv_def by blast

lemma revoked_inv_step:
  assumes "revoked_inv A b" and "leases_from b b' P"
    and "\<And>a x st. activation a x b' = Some st \<Longrightarrow> act_revoked st \<Longrightarrow> activation a x b = Some st"
    and "\<And>a x st l. P l \<Longrightarrow> a \<in> A \<Longrightarrow> activation a x b' = Some st \<Longrightarrow> act_revoked st \<Longrightarrow>
      owned_at a (act_generation st) l \<Longrightarrow> is_revoked l"
  shows "revoked_inv A b'"
  unfolding revoked_inv_def
proof (intro ballI allI impI)
  fix a x st i l'
  assume a: "a \<in> A" "activation a x b' = Some st" "act_revoked st" "hm_get (br_leases b') i = Some l'"
    "owned_at a (act_generation st) l'"
  show "is_revoked l'"
  proof (cases "P l'")
    case False
    then obtain l where l: "hm_get (br_leases b) i = Some l" "lease_evolves l l'"
      using assms(2) a(4) unfolding leases_from_def by blast
    have "is_revoked l"
      by (rule revoked_invD [OF assms(1) a(1) assms(3) [OF a(2,3)] a(3) l(1)])
        (use a(5) lease_evolvesD(8) [OF l(2)] in simp)
    then show ?thesis using lease_evolvesD(7) [OF l(2)] by simp
  qed (use assms(4) a in blast)
qed

lemma generations_inv_same:
  "same_register b b' \<Longrightarrow> generations_inv b \<Longrightarrow> generations_inv b'"
  using same_register_activation [of b b'] unfolding generations_inv_def same_register_def by simp

lemma bridge_inv_op:
  assumes "bridge_inv A b" and "broker_wf b'" and "same_register b b'" and "leases_from b b' P"
    and "\<And>l. P l \<Longrightarrow> lease_owner l \<notin> A"
  shows "bridge_inv A b'"
proof -
  have "revoked_inv A b'"
    by (rule revoked_inv_step [OF _ assms(4)])
      (use assms(1,5) same_register_activation [OF assms(3)] in \<open>auto simp: bridge_inv_def owned_at_def\<close>)
  then show ?thesis
    using assms(1,2) generations_inv_same [OF assms(3)] by (simp add: bridge_inv_def)
qed

lemma bridge_inv_activate:
  assumes "bridge_inv A b" and "activate agent act b = (Ok gen, b0)"
  shows "bridge_inv A b0 \<and> (\<exists>st. activation agent act b0 = Some st \<and> \<not> act_revoked st \<and> act_generation st = gen)"
proof (cases "activation agent act b")
  case None
  then have b0: "gen = counter_of agent b + 1" "b0 = fresh_activation agent act b"
    using assms(2) by (simp_all add: activate_eq)
  have "revoked_inv A b0"
    using assms(1) unfolding bridge_inv_def revoked_inv_def b0 by (auto split: if_splits)
  moreover have "broker_wf b0" using assms(1) b0 by (simp add: bridge_inv_def broker_wf_def)
  ultimately show ?thesis
    using assms(1) generations_fresh [OF _ None] b0 by (simp add: bridge_inv_def)
next
  case (Some st)
  then show ?thesis using assms by (auto simp: activate_eq split: if_splits)
qed

lemma bridge_inv_leases:
  assumes inv: "bridge_inv A b" and st: "activation agent act b = Some st" "\<not> act_revoked st" "act_generation st = gen"
    and mk: "\<And>c. lease_owner (mk c) = agent \<and> lease_generation (mk c) = gen"
  shows "bridge_inv A (snd (issue_leases clk mk cs b))"
proof -
  let ?b' = "snd (issue_leases clk mk cs b)"
  have same: "same_register b ?b'" using issue_leases_frame by blast
  have "revoked_inv A ?b'"
  proof (rule revoked_inv_step [where P = "\<lambda>l. \<exists>c \<in> set cs. l = mk c"])
    show "leases_from b ?b' (\<lambda>l. \<exists>c \<in> set cs. l = mk c)"
      unfolding leases_from_def
    proof (intro allI impI)
      fix i l'
      assume "hm_get (br_leases ?b') i = Some l'"
      then show "(\<exists>l. hm_get (br_leases b) i = Some l \<and> lease_evolves l l') \<or> (\<exists>c \<in> set cs. l' = mk c)"
        using issue_leases_table [of clk mk cs b i] by (metis lease_evolves_refl option.inject)
    qed
  next
    fix a x st' l
    assume l: "\<exists>c \<in> set cs. l = mk c" "activation a x ?b' = Some st'" "act_revoked st'"
      "owned_at a (act_generation st') l"
    then have "a = agent" "act_generation st' = gen" using mk by (auto simp: owned_at_def)
    moreover have "activation a x b = Some st'" using l(2) same_register_activation [OF same] by simp
    ultimately have "x = act" using inv st unfolding bridge_inv_def generations_inv_def by blast
    then show "is_revoked l"
      using \<open>activation a x b = Some st'\<close> \<open>a = agent\<close> st l(3) by simp
  qed (use inv same_register_activation [OF same] in \<open>auto simp: bridge_inv_def\<close>)
  moreover have "broker_wf ?b'" using inv issue_leases_wf by (auto simp: bridge_inv_def)
  ultimately show ?thesis
    using inv generations_inv_same [OF same] by (simp add: bridge_inv_def)
qed

lemma agent_lease_record_fields [simp]:
  "lease_owner (agent_lease_record agent act sc gen x c) = agent"
  "lease_generation (agent_lease_record agent act sc gen x c) = gen"
  "lease_capability (agent_lease_record agent act sc gen x c) = c"
  "lease_scope (agent_lease_record agent act sc gen x c) = sc"
  "lease_expires_at (agent_lease_record agent act sc gen x c) = x"
  "lease_revoked (agent_lease_record agent act sc gen x c) = None"
  by (simp_all add: agent_lease_record_def)

lemma bridge_inv_grants:
  assumes "bridge_inv A b"
  shows "bridge_inv A (snd (issue_grants clk mk cs b))"
proof -
  have "broker_wf b" using assms by (simp add: bridge_inv_def)
  note effect = issue_grants_effect [OF this, of clk mk cs]
  show ?thesis
    by (rule bridge_inv_op [OF assms conjunct1 [OF effect] conjunct1 [OF conjunct2 [OF effect]]
        conjunct2 [OF conjunct2 [OF conjunct2 [OF effect]]]]) simp
qed

lemma bridge_inv_bridge:
  assumes "bridge_inv A b"
  shows "bridge_inv A (snd (broker_grant_from_negotiation now gclk lclk agent r b))"
proof -
  obtain res b' where res: "broker_grant_from_negotiation now gclk lclk agent r b = (res, b')" by fastforce
  show ?thesis
  proof (cases "\<exists>e. res = Err e \<and> (\<forall>x. e \<noteq> Bridge_Broker x)")
    case True
    then have "b' = b" using bridge_refused res by blast
    then show ?thesis using assms res by simp
  next
    case False
    from res False have "bridge_inv A b'"
    proof (rule bridge_issued)
      fix gen b0 b1 c
      let ?mk = "agent_lease_record agent (anr_activation_id r) (anr_scope r) gen
         (saturating_add now (saturating_mul (max_seconds c) 1000))"
      assume a: "activate agent (anr_activation_id r) b = (Ok gen, b0)"
        and g: "b1 = snd (issue_grants gclk (agent_grant_record agent (anr_scope r) gen now) (anr_granted r) b0)"
        and b': "b' = (if is_ok (fst (issue_grants gclk (agent_grant_record agent (anr_scope r) gen now) (anr_granted r) b0))
           then snd (issue_leases lclk ?mk (anr_granted r) b1) else b1)"
      obtain st where st: "bridge_inv A b0" "activation agent (anr_activation_id r) b0 = Some st" "\<not> act_revoked st"
        "act_generation st = gen"
        using bridge_inv_activate [OF assms a] by blast
      have b1: "bridge_inv A b1" using g bridge_inv_grants [OF st(1)] by simp
      have "same_register b0 b1"
        using issue_grants_effect [of b0] st(1) unfolding g bridge_inv_def by blast
      then have "activation agent (anr_activation_id r) b1 = Some st"
        using same_register_activation st(2) by metis
      from bridge_inv_leases [OF b1 this st(3,4), of ?mk] b1 show "bridge_inv A b'" unfolding b' by simp
    qed
    then show ?thesis using res by simp
  qed
qed

lemma bridge_inv_revoke_agent:
  assumes "bridge_inv A b"
  shows "bridge_inv A (snd (revoke_agent_grants at act r b))"
proof -
  let ?b' = "snd (revoke_agent_grants at act r b)"
  have wf: "hm_wf (br_agent_activations b)" using assms by (simp add: bridge_inv_def generations_inv_def)
  note acts = revoke_agent_activation [OF wf, of _ _ at act r] and ls = revoke_agent_leases [OF wf, of at act r]
  have frame: "br_grants ?b' = br_grants b" "counter_of a ?b' = counter_of a b"
    "hm_wf (br_agent_activations ?b')" "hm_wf (br_leases b) \<Longrightarrow> hm_wf (br_leases ?b')" for a
    using revoke_fold_frame [of at act r "revoke_targets act b" "(0, b)"] wf by (simp_all add: revoke_agent_grants_def)
  have some: "\<exists>st'. activation a x b = Some st' \<and> act_generation st' = act_generation st"
    if "activation a x ?b' = Some st" for a x st
    using that by (auto simp: acts split: if_splits)
  have "generations_inv ?b'"
    unfolding generations_inv_def
  proof (intro conjI allI impI)
    fix a x st
    assume "activation a x ?b' = Some st"
    from some [OF this] assms show "act_generation st \<le> counter_of a ?b'"
      unfolding frame(2) bridge_inv_def generations_inv_def by metis
  next
    fix a x y st st'
    assume "activation a x ?b' = Some st" "activation a y ?b' = Some st'" "act_generation st = act_generation st'"
    from some [OF this(1)] some [OF this(2)] this(3) assms show "x = y"
      unfolding bridge_inv_def generations_inv_def by metis
  qed (rule frame(3))
  moreover have "broker_wf ?b'"
    using assms frame by (auto simp: bridge_inv_def broker_wf_def ls)
  moreover have "revoked_inv A ?b'"
    unfolding revoked_inv_def
  proof (intro ballI allI impI)
    fix a x st i l'
    assume h: "a \<in> A" "activation a x ?b' = Some st" "act_revoked st" "hm_get (br_leases ?b') i = Some l'"
      "owned_at a (act_generation st) l'"
    obtain st' where st': "activation a x b = Some st'" "act_generation st' = act_generation st"
      using some [OF h(2)] by blast
    obtain l where l: "hm_get (br_leases b) i = Some l" and l': "l' = (if \<exists>a st. activation a act b = Some st \<and>
        owned_at a (act_generation st) l then revoke_lease r at l else l)"
      using h(4) by (auto simp: ls)
    have own: "owned_at a (act_generation st') l" using h(5) st'(2) l' by (auto simp: owned_at_def split: if_splits)
    show "is_revoked l'"
    proof (cases "x = act")
      case True
      then show ?thesis using own st'(1) l' by auto
    next
      case False
      then have "act_revoked st'" using h(2,3) st'(1) by (simp add: acts)
      then have "is_revoked l" using revoked_invD [of A b a x st' i l] assms h(1) st'(1) l own
        by (simp add: bridge_inv_def)
      then show ?thesis using l' by (simp add: revoke_lease_first_wins)
    qed
  qed
  ultimately show ?thesis by (simp add: bridge_inv_def)
qed

lemma broker_step_inv: "broker_step A b e b' \<Longrightarrow> bridge_inv A b \<Longrightarrow> bridge_inv A b'"
proof (erule broker_stepE)
  assume inv: "bridge_inv A b" and e: "op_allowed A e" "b' = broker_exec e b"
  then have wf: "broker_wf b" by (simp add: bridge_inv_def)
  show ?thesis
  proof (cases e)
    case (Op_Register p)
    have "leases_from b (snd (register_provider p b)) (\<lambda>_. False)"
      by (auto simp: register_provider_def leases_from_def)
    from bridge_inv_op [OF inv broker_wf_register [OF wf] same_register_ops(4) this]
    show ?thesis unfolding e(2) Op_Register by simp
  next
    case (Op_Grant now g)
    from bridge_inv_op [OF inv broker_wf_grant [OF wf] same_register_ops(1)
      conjunct2 [OF grant_leases [where P = "\<lambda>_. False"]]]
    show ?thesis unfolding e(2) Op_Grant by simp
  next
    case (Op_Lease now l)
    from bridge_inv_op [OF inv broker_wf_lease [OF wf] same_register_ops(2) conjunct2 [OF lease_leases]]
    show ?thesis using e(1) unfolding e(2) Op_Lease by simp
  next
    case (Op_Revoke at i r)
    from bridge_inv_op [OF inv broker_wf_revoke [OF wf] same_register_ops(3)
      conjunct2 [OF revoke_leases [where P = "\<lambda>_. False"]]]
    show ?thesis unfolding e(2) Op_Revoke by simp
  qed (use e bridge_inv_bridge [OF inv] bridge_inv_revoke_agent [OF inv] in simp_all)
qed

interpretation bridge: preserved "broker_step A" "bridge_inv A" for A
  by unfold_locales (rule broker_step_inv)

text \<open>What a history keeps: the leases evolve, a revoked activation stays revoked.\<close>

lemma bridge_evolve:
  assumes "bridge_inv A b"
  shows "leases_evolve b (snd (broker_grant_from_negotiation now gclk lclk agent r b))"
proof -
  obtain res b' where res: "broker_grant_from_negotiation now gclk lclk agent r b = (res, b')" by fastforce
  show ?thesis
  proof (cases "\<exists>e. res = Err e \<and> (\<forall>x. e \<noteq> Bridge_Broker x)")
    case True
    then have "b' = b" using bridge_refused res by blast
    then show ?thesis using res by simp
  next
    case False
    from res False have "leases_evolve b b'"
    proof (rule bridge_issued)
      fix gen b0 b1 c
      let ?mk = "agent_lease_record agent (anr_activation_id r) (anr_scope r) gen
         (saturating_add now (saturating_mul (max_seconds c) 1000))"
      assume a: "activate agent (anr_activation_id r) b = (Ok gen, b0)"
        and g: "b1 = snd (issue_grants gclk (agent_grant_record agent (anr_scope r) gen now) (anr_granted r) b0)"
        and b': "b' = (if is_ok (fst (issue_grants gclk (agent_grant_record agent (anr_scope r) gen now) (anr_granted r) b0))
           then snd (issue_leases lclk ?mk (anr_granted r) b1) else b1)"
      have "br_leases b0 = br_leases b"
        using a by (auto simp: activate_eq split: option.splits if_splits)
      then have "leases_evolve b b0" by (simp add: leases_evolve_def)
      moreover have "leases_evolve b0 b1"
        using issue_grants_effect [of b0] bridge_inv_activate [OF assms a] unfolding g bridge_inv_def by blast
      moreover have "leases_evolve b1 (snd (issue_leases lclk ?mk (anr_granted r) b1))"
        unfolding leases_evolve_def
        using issue_leases_table [of lclk ?mk "anr_granted r" b1] by (metis lease_evolves_refl option.distinct(1))
      ultimately show "leases_evolve b b'"
        unfolding b' by (auto intro: leases_evolve_trans)
    qed
    then show ?thesis using res by simp
  qed
qed

lemma broker_step_evolve: "bridge_inv A b \<Longrightarrow> broker_step A b e b' \<Longrightarrow> leases_evolve b b'"
proof (erule broker_stepE)
  assume inv: "bridge_inv A b" and e: "b' = broker_exec e b"
  have wf: "hm_wf (br_agent_activations b)" using inv by (simp add: bridge_inv_def generations_inv_def)
  show "leases_evolve b b'"
  proof (cases e)
    case (Op_Register p)
    then show ?thesis using e by (auto simp: register_provider_def leases_evolve_def)
  next
    case (Op_Revoke_Agent at act r)
    then show ?thesis using e revoke_agent_evolve [OF wf] by auto
  qed (simp_all add: e conjunct1 [OF grant_leases] conjunct1 [OF lease_leases] conjunct1 [OF revoke_leases]
      bridge_evolve [OF inv])
qed

lemma bridge_keeps_revoked:
  assumes "bridge_inv A b" and "activation a x b = Some st" and "act_revoked st"
  shows "activation a x (snd (broker_grant_from_negotiation now gclk lclk agent r b)) = Some st"
proof -
  obtain res b' where res: "broker_grant_from_negotiation now gclk lclk agent r b = (res, b')" by fastforce
  show ?thesis
  proof (cases "\<exists>e. res = Err e \<and> (\<forall>x. e \<noteq> Bridge_Broker x)")
    case True
    then have "b' = b" using bridge_refused res by blast
    then show ?thesis using res assms by simp
  next
    case False
    from res False have "activation a x b' = Some st"
    proof (rule bridge_issued)
      fix gen b0 b1 c
      let ?mk = "agent_lease_record agent (anr_activation_id r) (anr_scope r) gen
         (saturating_add now (saturating_mul (max_seconds c) 1000))"
      assume act: "activate agent (anr_activation_id r) b = (Ok gen, b0)"
        and g: "b1 = snd (issue_grants gclk (agent_grant_record agent (anr_scope r) gen now) (anr_granted r) b0)"
        and b': "b' = (if is_ok (fst (issue_grants gclk (agent_grant_record agent (anr_scope r) gen now) (anr_granted r) b0))
           then snd (issue_leases lclk ?mk (anr_granted r) b1) else b1)"
      have "activation a x b0 = Some st"
        using act assms(2,3) by (auto simp: activate_eq split: option.splits if_splits)
      moreover have "same_register b0 b1"
        using issue_grants_effect [of b0] bridge_inv_activate [OF assms(1) act] unfolding g bridge_inv_def by blast
      moreover have "same_register b1 (snd (issue_leases lclk ?mk (anr_granted r) b1))"
        using issue_leases_frame by blast
      ultimately show "activation a x b' = Some st"
        unfolding b' by (simp add: same_register_activation)
    qed
    then show ?thesis using res by simp
  qed
qed

lemma broker_step_keeps_revoked:
  assumes "bridge_inv A b" and "broker_step A b e b'" and "activation a x b = Some st" and "act_revoked st"
  shows "activation a x b' = Some st"
  using assms(2)
proof (rule broker_stepE)
  assume e: "b' = broker_exec e b"
  have wf: "hm_wf (br_agent_activations b)" using assms(1) by (simp add: bridge_inv_def generations_inv_def)
  have same: "same_register b c \<Longrightarrow> activation a x c = Some st" for c
    using same_register_activation assms(3) by metis
  show ?thesis
  proof (cases e)
    case (Op_Revoke_Agent at act r)
    moreover have "st\<lparr>act_revoked := True\<rparr> = st" using assms(4) by (cases st) simp
    ultimately show ?thesis using e assms(3) by (auto simp: revoke_agent_activation [OF wf])
  next
    case (Op_Bridge now gclk lclk agent r)
    then show ?thesis using e bridge_keeps_revoked [OF assms(1,3,4)] by simp
  qed (simp_all add: e same [OF same_register_ops(1)] same [OF same_register_ops(2)]
      same [OF same_register_ops(3)] same [OF same_register_ops(4)])
qed

text \<open>The same along a whole history.\<close>

definition settled :: "string set \<Rightarrow> string \<Rightarrow> string \<Rightarrow> AgentActivationState \<Rightarrow> 'v Broker \<Rightarrow> bool" where
  "settled A agent act st b = (bridge_inv A b \<and> activation agent act b = Some st \<and> act_revoked st)"

interpretation settled: preserved "broker_step A" "settled A agent act st" for A agent act st
  by unfold_locales (auto simp: settled_def intro: broker_step_inv broker_step_keeps_revoked broker_stepI)

definition filed :: "string set \<Rightarrow> string \<Rightarrow> Lease \<Rightarrow> 'v Broker \<Rightarrow> bool" where
  "filed A i l b = (bridge_inv A b \<and> (\<exists>l'. hm_get (br_leases b) i = Some l' \<and> lease_evolves l l'))"

lemma filed_step:
  assumes "broker_step A b e b'" and "filed A i l b"
  shows "filed A i l b'"
proof -
  have inv: "bridge_inv A b" using assms(2) by (simp add: filed_def)
  obtain l' where l': "hm_get (br_leases b) i = Some l'" "lease_evolves l l'" using assms(2) by (auto simp: filed_def)
  obtain l'' where "hm_get (br_leases b') i = Some l''" "lease_evolves l' l''"
    using broker_step_evolve [OF inv assms(1)] l'(1) unfolding leases_evolve_def by blast
  then show ?thesis
    using l'(2) broker_step_inv [OF assms(1) inv] lease_evolves_trans unfolding filed_def by blast
qed

interpretation filed: preserved "broker_step A" "filed A i l" for A i l
  by unfold_locales (rule filed_step)

lemma activation_new [simp]: "activation agent act new_broker = None"
  by (simp add: activation_def activation_states_def new_broker_def hm_empty)

lemma bridge_inv_new: "bridge_inv A new_broker"
proof -
  have "hm_wf (br_agent_activations new_broker)" by (simp add: new_broker_def hm_empty)
  then show ?thesis by (simp add: bridge_inv_def broker_wf_new generations_inv_def revoked_inv_def)
qed

text \<open>What a successful issue leaves in the tables.\<close>

lemma grant_Ok_table:
  assumes "grant now g b = (Ok u, b')"
  shows "hm_get (br_grants b') k = (if k = grant_capability g then Some g else hm_get (br_grants b) k)"
  using assms
  by (auto simp: grant_def Let_def hm_get_insert revoke_all_for_capability_def split: option.splits if_splits)

lemma issue_grants_table:
  assumes "\<And>c. grant_capability (mk c) = c" and "issue_grants clk mk cs b = (Ok u, b')"
  shows "hm_get (br_grants b') k = (if k \<in> set cs then Some (mk k) else hm_get (br_grants b) k)"
  using assms(2)
proof (induction cs arbitrary: clk b)
  case (Cons c cs)
  obtain r b1 where g: "grant (clk 0) (mk c) b = (r, b1)" by fastforce
  with Cons.prems have "issue_grants (\<lambda>i. clk (Suc i)) mk cs b1 = (Ok u, b')" and r: "\<exists>v. r = Ok v"
    by (cases r; simp)+
  from Cons.IH [OF this(1)] r g show ?case
    by (auto simp: grant_Ok_table assms(1))
qed simp

lemma lease_Ok_table:
  assumes "lease now l b = (Ok u, b')"
  shows "hm_get (br_leases b') (lease_id l) = Some l"
  using assms by (auto simp: lease_def hm_get_insert split: option.splits if_splits)

lemma issue_leases_filed:
  assumes "issue_leases clk mk cs b = (Ok u, b')" and "c \<in> set cs"
  shows "hm_get (br_leases b') (lease_id (mk c)) = Some (mk c)"
  using assms
proof (induction cs arbitrary: clk b)
  case (Cons c' cs)
  obtain r b1 where l: "lease (clk 0) (mk c') b = (r, b1)" by fastforce
  with Cons.prems(1) have rest: "issue_leases (\<lambda>i. clk (Suc i)) mk cs b1 = (Ok u, b')" and r: "\<exists>v. r = Ok v"
    by (cases r; simp)+
  show ?case
  proof (cases "c \<in> set cs")
    case True
    then show ?thesis by (rule Cons.IH [OF rest])
  next
    case False
    then have "hm_get (br_leases b1) (lease_id (mk c)) = Some (mk c)"
      using Cons.prems(2) l r lease_Ok_table by auto
    then show ?thesis
      using issue_leases_table [of "\<lambda>i. clk (Suc i)" mk cs b1 "lease_id (mk c)"] rest by simp
  qed
qed simp

lemma bridge_Ok:
  assumes "broker_grant_from_negotiation now gclk lclk agent r b = (Ok ag, b')"
  obtains gen b0 b1 constraints where "lease_policy r = Ok constraints"
    "activate agent (anr_activation_id r) b = (Ok gen, b0)"
    "issue_grants gclk (agent_grant_record agent (anr_scope r) gen now) (anr_granted r) b0 = (Ok (), b1)"
    "issue_leases lclk (agent_lease_record agent (anr_activation_id r) (anr_scope r) gen
       (saturating_add now (saturating_mul (max_seconds constraints) 1000))) (anr_granted r) b1 = (Ok (), b')"
    "ag_generation ag = gen" "ag_agent_id ag = agent" "ag_scope ag = anr_scope r" "ag_capabilities ag = anr_granted r"
    "ag_expires_at ag = saturating_add now (saturating_mul (max_seconds constraints) 1000)"
  using assms
  by (auto simp: broker_grant_from_negotiation_def Let_def split: result.splits prod.splits)

lemma agent_grant_record_fields [simp]:
  "grant_capability (agent_grant_record agent sc gen now c) = c"
  "grant_owner (agent_grant_record agent sc gen now c) = agent"
  "grant_generation (agent_grant_record agent sc gen now c) = gen"
  "grant_scope (agent_grant_record agent sc gen now c) = sc"
  "grant_created_at (agent_grant_record agent sc gen now c) = now"
  by (simp_all add: agent_grant_record_def)

text \<open>The tables after a successful call of the bridge.\<close>

lemma bridge_Ok_tables:
  assumes "bridge_inv A b" and "broker_grant_from_negotiation now gclk lclk agent r b = (Ok ag, b')"
    and "c \<in> set (anr_granted r)"
  shows "hm_get (br_grants b') c = Some (agent_grant_record agent (anr_scope r) (ag_generation ag) now c)"
    and "agent_lease_record agent (anr_activation_id r) (anr_scope r) (ag_generation ag) (ag_expires_at ag) c
      \<in> set (hm_values (br_leases b'))"
proof -
  from assms(2) obtain gen b0 b1 cs where "lease_policy r = Ok cs"
    and "activate agent (anr_activation_id r) b = (Ok gen, b0)"
    and g: "issue_grants gclk (agent_grant_record agent (anr_scope r) gen now) (anr_granted r) b0 = (Ok (), b1)"
    and l: "issue_leases lclk (agent_lease_record agent (anr_activation_id r) (anr_scope r) gen
       (saturating_add now (saturating_mul (max_seconds cs) 1000))) (anr_granted r) b1 = (Ok (), b')"
    and ag: "ag_generation ag = gen" "ag_agent_id ag = agent" "ag_scope ag = anr_scope r" "ag_capabilities ag = anr_granted r"
      "ag_expires_at ag = saturating_add now (saturating_mul (max_seconds cs) 1000)"
    by (rule bridge_Ok)
  have "br_grants b' = br_grants b1" using issue_leases_frame l by (metis snd_conv)
  then show "hm_get (br_grants b') c = Some (agent_grant_record agent (anr_scope r) (ag_generation ag) now c)"
    using issue_grants_table [OF _ g, of c] assms(3) ag(1) by simp
  have "broker_wf b'"
    using bridge_inv_bridge [OF assms(1), of now gclk lclk agent r] assms(2) by (simp add: bridge_inv_def)
  then show "agent_lease_record agent (anr_activation_id r) (anr_scope r) (ag_generation ag) (ag_expires_at ag) c
      \<in> set (hm_values (br_leases b'))"
    using issue_leases_filed [OF l assms(3)] ag hm_values_iff unfolding broker_wf_def by metis
qed

text \<open>Operations on other capabilities leave a capability's grant and leases alone.\<close>

lemma grant_other:
  assumes "c \<noteq> grant_capability g"
  shows "hm_get (br_grants (snd (grant now g b))) c = hm_get (br_grants b) c"
    and "hm_get (br_leases b) i = Some l \<Longrightarrow> lease_capability l = c \<Longrightarrow>
      hm_get (br_leases (snd (grant now g b))) i = Some l"
  using assms
  by (auto simp: grant_def Let_def hm_get_insert revoke_all_for_capability_def hm_get_map_values split: option.splits)

lemma issue_grants_step:
  "snd (issue_grants clk mk (x # cs) b) =
   (let b1 = snd (grant (clk 0) (mk x) b)
    in if is_ok (fst (grant (clk 0) (mk x) b)) then snd (issue_grants (\<lambda>i. clk (Suc i)) mk cs b1) else b1)"
  by (simp add: Let_def split: prod.splits result.splits)

lemma issue_grants_other:
  assumes "\<And>x. grant_capability (mk x) = x" and "c \<notin> set cs"
  shows "hm_get (br_grants (snd (issue_grants clk mk cs b))) c = hm_get (br_grants b) c \<and>
    (hm_get (br_leases b) i = Some l \<longrightarrow> lease_capability l = c \<longrightarrow>
      hm_get (br_leases (snd (issue_grants clk mk cs b))) i = Some l)"
  using assms(2)
proof (induction cs arbitrary: clk b)
  case (Cons x cs)
  then have "c \<noteq> grant_capability (mk x)" "c \<notin> set cs" using assms(1) by auto
  note other = grant_other [OF this(1)] and IH = Cons.IH [OF this(2)]
  note step = other(1) [of "clk 0" b] other(2) [of b i l "clk 0"]
    IH [of "\<lambda>i. clk (Suc i)" "snd (grant (clk 0) (mk x) b)"]
  show ?case
    unfolding issue_grants_step Let_def using step by (cases "is_ok (fst (grant (clk 0) (mk x) b))") auto
qed simp

lemma bridge_other:
  assumes "hm_get (br_leases b) i = Some l" and "lease_capability l = c" and "c \<notin> set (anr_granted r)"
  shows "hm_get (br_grants (snd (broker_grant_from_negotiation now gclk lclk agent r b))) c = hm_get (br_grants b) c \<and>
    hm_get (br_leases (snd (broker_grant_from_negotiation now gclk lclk agent r b))) i = Some l"
proof -
  obtain res b' where res: "broker_grant_from_negotiation now gclk lclk agent r b = (res, b')" by fastforce
  show ?thesis
  proof (cases "\<exists>e. res = Err e \<and> (\<forall>x. e \<noteq> Bridge_Broker x)")
    case True
    then have "b' = b" using bridge_refused res by blast
    then show ?thesis using res assms by simp
  next
    case False
    from res False have "hm_get (br_grants b') c = hm_get (br_grants b) c \<and> hm_get (br_leases b') i = Some l"
    proof (rule bridge_issued)
      fix gen b0 b1 cs
      let ?mk = "agent_lease_record agent (anr_activation_id r) (anr_scope r) gen
         (saturating_add now (saturating_mul (max_seconds cs) 1000))"
      assume a: "activate agent (anr_activation_id r) b = (Ok gen, b0)"
        and g: "b1 = snd (issue_grants gclk (agent_grant_record agent (anr_scope r) gen now) (anr_granted r) b0)"
        and b': "b' = (if is_ok (fst (issue_grants gclk (agent_grant_record agent (anr_scope r) gen now) (anr_granted r) b0))
           then snd (issue_leases lclk ?mk (anr_granted r) b1) else b1)"
      have "br_leases b0 = br_leases b" "br_grants b0 = br_grants b"
        using a by (auto simp: activate_eq split: option.splits if_splits)
      then have b1: "hm_get (br_grants b1) c = hm_get (br_grants b) c" "hm_get (br_leases b1) i = Some l"
        using issue_grants_other [OF _ assms(3), of "agent_grant_record agent (anr_scope r) gen now" gclk b0 i l]
          assms(1,2) g by simp_all
      moreover have "hm_get (br_leases (snd (issue_leases lclk ?mk (anr_granted r) b1))) i = Some l"
        using issue_leases_table [of lclk ?mk "anr_granted r" b1 i] b1(2) by simp
      ultimately show "hm_get (br_grants b') c = hm_get (br_grants b) c \<and> hm_get (br_leases b') i = Some l"
        unfolding b' using issue_leases_frame [of b1 lclk ?mk "anr_granted r"] by simp
    qed
    then show ?thesis using res by simp
  qed
qed

lemma broker_run: "list_all (op_allowed A) es \<Longrightarrow> run (broker_step A) b es (fold broker_exec es b)"
  by (induction es arbitrary: b) (auto intro: run.intros broker_stepI)

lemma sample_bridge:
  "broker_grant_from_negotiation 5 gclk (\<lambda>_. 5) ''a'' (sample_result ''x'' sample_capability) new_broker =
   (Ok \<lparr>ag_agent_id = ''a'', ag_activation_id = ''x'', ag_generation = 1, ag_capabilities = [sample_capability],
      ag_scope = default_scope, ag_lease_constraints = Some \<lparr>max_seconds = 1, approval_required = None\<rparr>,
      ag_expires_at = 1005, ag_granted_at = 5\<rparr>, sample_broker)"
  by (simp add: broker_grant_from_negotiation_def lease_policy_def sample_result_def activate_def
      grant_def lease_def new_broker_def activation_states_def counter_of_def hm_get_def hm_insert_def
      saturating_add_def saturating_mul_def u64_max_def agent_grant_record_def agent_lease_record_def
      sample_broker_def Let_def)

section \<open>Properties\<close>

text \<open>
  The bridge fails closed: unless the broker itself refuses a grant or a lease, an error of the
  bridge leaves the broker exactly as it was. In particular a result that was not agreed, whose
  conformance is not known, that grants nothing, has no bounded lease policy, or replays a revoked
  or superseded activation creates no state.
\<close>

lemma bridge_fail_closed:
  assumes "broker_grant_from_negotiation now gclk lclk agent r b = (Err e, b')" and "\<forall>x. e \<noteq> Bridge_Broker x"
  shows "b' = b"
  using assms by (rule bridge_refused)

lemma bridge_dispatch_ok:
  assumes "bridge_inv A b" and "broker_grant_from_negotiation now gclk lclk agent r b = (Ok ag, b')"
    and "c \<in> set (anr_granted r)" and "t < ag_expires_at ag"
  shows "enforce_dispatch t c agent (ag_generation ag) (anr_scope r) b' = Ok ()"
proof -
  note tables = bridge_Ok_tables [OF assms(1-3)]
  have "lease_in_force t c agent (ag_generation ag) (anr_scope r)
      (agent_lease_record agent (anr_activation_id r) (anr_scope r) (ag_generation ag) (ag_expires_at ag) c)"
    using assms(4) by (simp add: lease_in_force_def lease_matches_def is_revoked_def is_expired_def agent_lease_record_def)
  then have "\<exists>l \<in> set (hm_values (br_leases b')). lease_in_force t c agent (ag_generation ag) (anr_scope r) l"
    using tables(2) by blast
  then show ?thesis
    unfolding enforce_dispatch_Ok using tables(1) by simp
qed

text \<open>
  C18. A granted activation works: after any history, when the bridge succeeds, every granted
  capability passes the dispatch gate for the agent at the returned generation and scope, at every
  time before the returned expiry.
\<close>

theorem bridge_grants_dispatch:
  assumes "run (broker_step A) new_broker es b"
    and "broker_grant_from_negotiation now gclk lclk agent r b = (Ok ag, b')"
    and "c \<in> set (ag_capabilities ag)" and "t < ag_expires_at ag"
  shows "enforce_dispatch t c agent (ag_generation ag) (ag_scope ag) b' = Ok ()"
proof -
  have inv: "bridge_inv A b" by (rule bridge.run_inv [OF assms(1) bridge_inv_new])
  have ag: "ag_capabilities ag = anr_granted r" "ag_scope ag = anr_scope r"
    using assms(2) by (auto elim: bridge_Ok)
  show ?thesis using bridge_dispatch_ok [OF inv assms(2) _ assms(4)] assms(3) ag by simp
qed

theorem bridge_grants_dispatch_witness:
  "\<exists>ag b'. broker_grant_from_negotiation 5 (\<lambda>_. 5) (\<lambda>_. 5) ''a'' (sample_result ''x'' sample_capability)
      (new_broker :: nat Broker) = (Ok ag, b') \<and>
    enforce_dispatch 900 sample_capability ''a'' 1 default_scope b' = Ok ()"
proof -
  show ?thesis
    using bridge_grants_dispatch [OF run_nil sample_bridge, where c = sample_capability and t = 900]
    by (simp add: sample_bridge)
qed

lemma settled_never_dispatches:
  assumes "settled A agent act st b" and "agent \<in> A"
  shows "enforce_dispatch t cap agent (act_generation st) sc b \<noteq> Ok ()"
proof -
  have inv: "bridge_inv A b" and act: "activation agent act b = Some st" "act_revoked st"
    using assms(1) by (auto simp: settled_def)
  have "is_revoked l" if mem: "l \<in> set (hm_values (br_leases b))" and match: "lease_matches cap agent (act_generation st) l" for l
  proof -
    have "hm_wf (br_leases b)" using inv by (simp add: bridge_inv_def broker_wf_def)
    then obtain i where "hm_get (br_leases b) i = Some l"
      using mem by (auto simp: hm_values_iff)
    then show ?thesis
      using revoked_invD [of A b agent act st i l] inv assms(2) act match
      by (simp add: bridge_inv_def owned_at_def lease_matches_def)
  qed
  then have "\<not> (\<exists>l \<in> set (hm_values (br_leases b)). lease_in_force t cap agent (act_generation st) sc l)"
    unfolding lease_in_force_def by blast
  then show ?thesis
    unfolding enforce_dispatch_Ok by blast
qed

text \<open>
  C10. Revocation of an activation is final: once an agent's activation is revoked, then after any
  further operations (with leases of agents issued by the bridge only) a replay of its negotiation
  result is refused without effect, and no request at its generation ever passes the gate.
\<close>

theorem revoked_activation_final:
  assumes "run (broker_step A) new_broker es b" and "agent \<in> A"
    and "agent_activation_revoked agent act b" and "agent_generation agent act b = Some gen"
    and "run (broker_step A) b es' b'"
    and "lease_policy r = Ok constraints" and "anr_activation_id r = act"
  shows "broker_grant_from_negotiation now gclk lclk agent r b' = (Err ActivationRevoked, b') \<and>
    enforce_dispatch t cap agent gen sc b' \<noteq> Ok ()"
proof -
  obtain st where st: "activation agent act b = Some st" "act_revoked st" "act_generation st = gen"
    using assms(3,4) by (auto simp: agent_activation_revoked_def agent_generation_def split: option.splits)
  have "bridge_inv A b" by (rule bridge.run_inv [OF assms(1) bridge_inv_new])
  then have settled: "settled A agent act st b'"
    using settled.run_inv [OF assms(5)] st by (simp add: settled_def)
  then have "activation agent act b' = Some st" by (simp add: settled_def)
  then have "broker_grant_from_negotiation now gclk lclk agent r b' = (Err ActivationRevoked, b')"
    using assms(6,7) st(2) by (simp add: broker_grant_from_negotiation_def activate_eq)
  then show ?thesis using settled_never_dispatches [OF settled assms(2)] st(3) by blast
qed

theorem revoked_activation_final_witness:
  "enforce_dispatch 7 sample_capability ''a'' 1 default_scope
     (broker_exec (Op_Revoke_Agent 6 ''x'' HumanTakeover)
       (broker_exec (Op_Bridge 5 (\<lambda>_. 5) (\<lambda>_. 5) ''a'' (sample_result ''x'' sample_capability)) (new_broker :: nat Broker)))
   \<noteq> Ok ()"
proof -
  let ?e1 = "Op_Bridge 5 (\<lambda>_. 5) (\<lambda>_. 5) ''a'' (sample_result ''x'' sample_capability) :: nat broker_op"
  let ?e2 = "Op_Revoke_Agent 6 ''x'' HumanTakeover :: nat broker_op"
  let ?b1 = "broker_exec ?e1 (new_broker :: nat Broker)"
  have run: "run (broker_step {''a''}) (new_broker :: nat Broker) [?e1, ?e2] (broker_exec ?e2 ?b1)"
    using broker_run [of "{''a''}" "[?e1, ?e2]" new_broker] by simp
  have wf: "hm_wf (br_agent_activations ?b1)"
    by (simp add: sample_bridge sample_broker_def hm_wf_def)
  have "activation ''a'' ''x'' ?b1 = Some \<lparr>act_generation = 1, act_revoked = False\<rparr>"
    by (simp add: sample_bridge sample_broker_def activation_def activation_states_def hm_get_def)
  then have "agent_activation_revoked ''a'' ''x'' (broker_exec ?e2 ?b1)"
    "agent_generation ''a'' ''x'' (broker_exec ?e2 ?b1) = Some 1"
    using revoke_agent_activation [OF wf, of "''a''" "''x''"]
    by (simp_all add: agent_activation_revoked_def agent_generation_def del: broker_exec.simps(5))
  from revoked_activation_final [OF run _ this run_nil, of "sample_result ''x'' sample_capability"]
  show ?thesis by (simp add: lease_policy_def sample_result_def)
qed

text \<open>
  A lease, once filed, is never altered except by its first revocation, and a revocation record
  is never lost, overwritten or undone, whatever operations of the broker and the bridge follow.
\<close>

lemma lease_record_durable:
  assumes "run (broker_step {}) new_broker es b" and "get_lease i b = Some l"
    and "run (broker_step {}) b es' b'"
  shows "\<exists>l'. get_lease i b' = Some l' \<and> lease_evolves l l' \<and> (is_revoked l \<longrightarrow> l' = l)"
proof -
  have "filed {} i l b"
    using bridge.run_inv [OF assms(1) bridge_inv_new] assms(2) by (auto simp: filed_def get_lease_def)
  from filed.run_inv [OF assms(3) this] show ?thesis
    unfolding filed_def get_lease_def using lease_evolvesD(7) by blast
qed

text \<open>
  Every new activation of an agent gets a generation above all earlier ones of that agent, so
  generations identify activations.
\<close>

lemma fresh_generation_increases:
  assumes "run (broker_step A) new_broker es b"
    and "broker_grant_from_negotiation now gclk lclk agent r b = (Ok ag, b')"
    and "agent_generation agent (anr_activation_id r) b = None"
    and "agent_generation agent act b = Some gen"
  shows "gen < ag_generation ag"
proof -
  have inv: "generations_inv b"
    using bridge.run_inv [OF assms(1) bridge_inv_new] by (simp add: bridge_inv_def)
  obtain st where "activation agent act b = Some st" "act_generation st = gen"
    using assms(4) by (auto simp: agent_generation_def)
  then have "gen \<le> counter_of agent b" using inv by (auto simp: generations_inv_def)
  moreover have "ag_generation ag = counter_of agent b + 1"
    using assms(2,3) by (auto simp: agent_generation_def activate_eq elim!: bridge_Ok)
  ultimately show ?thesis by simp
qed

text \<open>
  A replay of the current activation is idempotent only while the clock stands still: the same
  negotiation result, presented again at any other time, is refused with \<open>Conflict\<close>, because the
  re-issued grant differs from the filed one in its creation time.
\<close>

lemma replay_conflicts_when_clock_moves:
  assumes "run (broker_step A) new_broker es b"
    and "broker_grant_from_negotiation now gclk lclk agent r b = (Ok ag, b')" and "now' \<noteq> now"
  shows "broker_grant_from_negotiation now' gclk' lclk' agent r b' = (Err (Bridge_Broker Conflict), b')"
proof -
  have inv: "bridge_inv A b" by (rule bridge.run_inv [OF assms(1) bridge_inv_new])
  obtain gen b0 b1 cs where policy: "lease_policy r = Ok cs"
    and act: "activate agent (anr_activation_id r) b = (Ok gen, b0)"
    and g: "issue_grants gclk (agent_grant_record agent (anr_scope r) gen now) (anr_granted r) b0 = (Ok (), b1)"
    and l: "issue_leases lclk (agent_lease_record agent (anr_activation_id r) (anr_scope r) gen
       (saturating_add now (saturating_mul (max_seconds cs) 1000))) (anr_granted r) b1 = (Ok (), b')"
    and gen: "ag_generation ag = gen"
    using assms(2) by (rule bridge_Ok)
  have "same_register b0 b1"
    using issue_grants_effect [of b0 gclk _ "anr_granted r"] bridge_inv_activate [OF inv act] g
    unfolding bridge_inv_def by (metis snd_conv)
  moreover have "same_register b1 b'" using issue_leases_frame l by (metis snd_conv)
  ultimately have reg: "same_register b0 b'" by (simp add: same_register_def)
  obtain st where "activation agent (anr_activation_id r) b0 = Some st" "\<not> act_revoked st" "act_generation st = gen"
    "hm_get (br_current_activation b0) agent = Some (anr_activation_id r)"
    using act by (cases "activation agent (anr_activation_id r) b") (force simp: activate_eq split: if_splits)+
  then have "activate agent (anr_activation_id r) b' = (Ok gen, b')"
    using reg same_register_activation [OF reg] by (simp add: activate_eq same_register_def)
  moreover obtain c rest where c: "anr_granted r = c # rest"
    using policy by (cases "anr_granted r") (auto simp: lease_policy_def split: if_splits)
  have "hm_get (br_grants b') c = Some (agent_grant_record agent (anr_scope r) gen now c)"
    using bridge_Ok_tables(1) [OF inv assms(2), of c] c gen by simp
  then have "grant (gclk' 0) (agent_grant_record agent (anr_scope r) gen now' c) b' = (Err Conflict, b')"
    using assms(3) by (simp add: grant_def agent_grant_record_def)
  ultimately show ?thesis
    using policy c by (simp add: broker_grant_from_negotiation_def)
qed

text \<open>
  A new activation supersedes only what it grants again: a capability of the previous activation
  that the new one does not list keeps its grant and its lease, and the old generation still passes
  the gate on it until its expiry.
\<close>

lemma superseded_activation_still_dispatches:
  assumes "run (broker_step A) new_broker es b"
    and "broker_grant_from_negotiation now gclk lclk agent r b = (Ok ag, b')"
    and "broker_grant_from_negotiation now' gclk' lclk' agent r' b' = (Ok ag', b'')"
    and "c \<in> set (ag_capabilities ag)" and "c \<notin> set (ag_capabilities ag')" and "t < ag_expires_at ag"
  shows "enforce_dispatch t c agent (ag_generation ag) (ag_scope ag) b'' = Ok ()"
proof -
  have inv: "bridge_inv A b" by (rule bridge.run_inv [OF assms(1) bridge_inv_new])
  then have inv': "bridge_inv A b'" and inv'': "bridge_inv A b''"
    using bridge_inv_bridge [of A b now gclk lclk agent r] bridge_inv_bridge [of A b' now' gclk' lclk' agent r']
      assms(2,3) by simp_all
  have caps: "ag_capabilities ag = anr_granted r" "ag_scope ag = anr_scope r" "ag_capabilities ag' = anr_granted r'"
    using assms(2,3) by (auto elim: bridge_Ok)
  let ?l = "agent_lease_record agent (anr_activation_id r) (anr_scope r) (ag_generation ag) (ag_expires_at ag) c"
  note tables = bridge_Ok_tables [OF inv assms(2), of c]
  have "hm_wf (br_leases b')" "hm_wf (br_leases b'')" using inv' inv'' by (simp_all add: bridge_inv_def broker_wf_def)
  note vals = hm_values_iff [OF this(1)] hm_values_iff [OF this(2)]
  obtain i where i: "hm_get (br_leases b') i = Some ?l" using tables(2) assms(4) caps by (auto simp: vals)
  have "hm_get (br_grants b'') c = hm_get (br_grants b') c" "hm_get (br_leases b'') i = Some ?l"
    using bridge_other [OF i, of c r' now' gclk' lclk' agent] assms(3,5) caps by simp_all
  moreover have "lease_in_force t c agent (ag_generation ag) (ag_scope ag) ?l"
    using assms(6) caps(2) by (simp add: lease_in_force_def lease_matches_def is_revoked_def is_expired_def)
  moreover from calculation(2) have "?l \<in> set (hm_values (br_leases b''))" unfolding vals(2) by blast
  ultimately show ?thesis
    unfolding enforce_dispatch_Ok using tables(1) assms(4) caps by auto
qed

text \<open>
  Generations are counted per agent but grants are filed per capability: a new activation that
  happens to get the generation of another agent's current grant is refused with \<open>Conflict\<close>, yet it
  stays registered as the agent's current, unrevoked activation although it holds no lease.
\<close>

lemma foreign_generation_conflict:
  assumes "hm_get (br_grants b) c = Some g" and "grant_owner g \<noteq> agent"
    and "lease_policy r = Ok cs" and "anr_granted r = c # rest"
    and "activation agent (anr_activation_id r) b = None" and "counter_of agent b + 1 = grant_generation g"
  shows "\<exists>b'. broker_grant_from_negotiation now gclk lclk agent r b = (Err (Bridge_Broker Conflict), b') \<and>
    agent_generation agent (anr_activation_id r) b' = Some (grant_generation g) \<and>
    \<not> agent_activation_revoked agent (anr_activation_id r) b' \<and>
    hm_get (br_current_activation b') agent = Some (anr_activation_id r) \<and> br_leases b' = br_leases b"
proof -
  let ?b = "fresh_activation agent (anr_activation_id r) b"
  have "agent_grant_record agent (anr_scope r) (grant_generation g) now c \<noteq> g"
    using assms(2) agent_grant_record_fields(2) by metis
  then have "grant (gclk 0) (agent_grant_record agent (anr_scope r) (grant_generation g) now c) ?b = (Err Conflict, ?b)"
    using assms(1) by (auto simp: grant_def)
  then have "broker_grant_from_negotiation now gclk lclk agent r b = (Err (Bridge_Broker Conflict), ?b)"
    using assms(3-6) by (simp add: broker_grant_from_negotiation_def activate_eq)
  then show ?thesis
    using assms(6) by (simp add: agent_generation_def agent_activation_revoked_def)
qed

end
