(* ===== verification/Civil_Time.thy ===== *)
theory Civil_Time
  imports Shell_Prelude "HOL-Library.Signed_Division"
begin

text \<open>
  Civil dates: the conversion between days since the epoch and the proleptic Gregorian calendar that the
  daemon (\<^verbatim>\<open>crates/daemon/src/envelope.rs\<close>, \<^verbatim>\<open>scheduler.rs\<close>), the adapters
  (\<^verbatim>\<open>crates/adapter-dsh-std/src/time.rs\<close>, \<^verbatim>\<open>crates/adapter-dsh/src/usage.rs\<close>) and the Shell
  (\<^verbatim>\<open>apps/desktop/src-tauri/src/{usage,daemon_client}.rs\<close>) each carry. \<open>i64\<close> arithmetic is on \<open>int\<close>, with
  Rust's truncating division written \<open>sdiv\<close> where the operands may be negative.
\<close>

section \<open>Civil dates\<close>

definition year_of_era :: "int \<Rightarrow> int" where
  "year_of_era doe = (doe - doe div 1460 + doe div 36524 - doe div 146096) div 365"

definition civil_of_era :: "int \<Rightarrow> int \<Rightarrow> int \<times> int \<times> int" where
  "civil_of_era era doe =
     (let yoe = year_of_era doe; year = yoe + era * 400;
          doy = doe - (365 * yoe + yoe div 4 - yoe div 100);
          mp = (5 * doy + 2) div 153;
          day = doy - (153 * mp + 2) div 5 + 1;
          month = (if mp < 10 then mp + 3 else mp - 9)
      in (if month \<le> 2 then year + 1 else year, month, day))"

text \<open>The daemon's conversion (truncating division), and that of the adapters (Euclidean division).\<close>

definition civil_from_days :: "int \<Rightarrow> int \<times> int \<times> int" where
  "civil_from_days days =
     (let z = days + 719468;
          era = (if 0 \<le> z then z else z - 146096) sdiv 146097;
          doe = z - era * 146097
      in civil_of_era era doe)"

definition civil_from_days_euclid :: "int \<Rightarrow> int \<times> int \<times> int" where
  "civil_from_days_euclid days =
     (let z = days + 719468 in civil_of_era (z div 146097) (z mod 146097))"

definition days_from_civil :: "int \<Rightarrow> int \<Rightarrow> int \<Rightarrow> int" where
  "days_from_civil year month day =
     (let year = (if month \<le> 2 then year - 1 else year);
          era = (if 0 \<le> year then year else year - 399) sdiv 400;
          yoe = year - era * 400;
          mp = (month + 9) mod 12;
          doy = (153 * mp + 2) div 5 + day - 1;
          doe = yoe * 365 + yoe div 4 - yoe div 100 + doy
      in era * 146097 + doe - 719468)"

section \<open>The Gregorian calendar\<close>

definition leap_year :: "int \<Rightarrow> bool" where
  "leap_year y = (4 dvd y \<and> (\<not> 100 dvd y \<or> 400 dvd y))"

definition days_in_month :: "int \<Rightarrow> int \<Rightarrow> int" where
  "days_in_month y m = (if m = 2 then (if leap_year y then 29 else 28) else if m \<in> {4, 6, 9, 11} then 30 else 31)"

fun next_date :: "int \<times> int \<times> int \<Rightarrow> int \<times> int \<times> int" where
  "next_date (y, m, d) =
     (if d < days_in_month y m then (y, m, d + 1)
      else if m < 12 then (y, m + 1, 1) else (y + 1, 1, 1))"

section \<open>Civil date lemmas\<close>

definition year_start :: "int \<Rightarrow> int" where
  "year_start y = 365 * y + y div 4 - y div 100"

definition era_num :: "int \<Rightarrow> int" where
  "era_num d = d - d div 1460 + d div 36524 - d div 146096"

lemma div_step:
  fixes d k :: int
  assumes "0 < k"
  shows "(d + 1) div k = d div k \<or> (d + 1) div k = d div k + 1"
proof -
  have "d div k \<le> (d + 1) div k" using assms by (simp add: zdiv_mono1)
  moreover have "(d + 1) div k \<le> (d + k) div k" using assms by (simp add: zdiv_mono1)
  moreover have "(d + k) div k = d div k + 1" using assms by (intro div_add_self2) simp
  ultimately show ?thesis by linarith
qed

lemma div_bounds:
  fixes a k :: int
  assumes "0 < k"
  shows "k * (a div k) \<le> a" "a < k * (a div k) + k"
proof -
  have "a = k * (a div k) + a mod k" by simp
  thus "k * (a div k) \<le> a" "a < k * (a div k) + k"
    using pos_mod_bound [OF assms, of a] pos_mod_sign [OF assms, of a] by linarith+
qed

lemma era_num_step: "era_num d \<le> era_num (d + 1)"
proof -
  define c c' where "c = d div 36524" and "c' = (d + 1) div 36524"
  have e: "d div 146096 = c div 4" "(d + 1) div 146096 = c' div 4"
    by (simp_all add: c_def c'_def zdiv_zmult2_eq [symmetric])
  have "c' = c \<or> c' = c + 1" using div_step [of 36524 d] by (auto simp: c_def c'_def)
  hence "c' div 4 - c div 4 \<le> c' - c" using div_step [of 4 c] by (elim disjE) simp_all
  moreover have "(d + 1) div 1460 \<le> d div 1460 + 1" using div_step [of 1460 d] by auto
  ultimately show ?thesis
    unfolding era_num_def e c_def [symmetric] c'_def [symmetric] by linarith
qed

lemma era_num_mono: "a \<le> b \<Longrightarrow> era_num a \<le> era_num b"
proof (induction b rule: int_ge_induct)
  case (step i)
  thus ?case using era_num_step [of i] by linarith
qed simp

lemma year_of_era_mono: "a \<le> b \<Longrightarrow> year_of_era a \<le> year_of_era b"
  using era_num_mono [of a b] by (simp add: year_of_era_def era_num_def zdiv_mono1)

text \<open>At the two ends of each year of the era the estimate is exact.\<close>

lemma year_ends_computed:
  "list_all (\<lambda>y. year_of_era (year_start y) = y \<and> year_of_era (year_start y - 1) = y - 1) [1..399]"
  by code_simp

lemma year_ends:
  assumes "1 \<le> y" "y \<le> 399"
  shows "year_of_era (year_start y) = y" "year_of_era (year_start y - 1) = y - 1"
  using year_ends_computed assms by (auto simp: list_all_iff)

lemma year_of_era_range:
  assumes "0 \<le> d" "d < 146097"
  shows "0 \<le> year_of_era d" "year_of_era d \<le> 399"
proof -
  have "year_of_era 0 = 0" "year_of_era 146096 = 399" by (simp_all add: year_of_era_def)
  thus "0 \<le> year_of_era d" "year_of_era d \<le> 399"
    using year_of_era_mono [of 0 d] year_of_era_mono [of d 146096] assms by simp_all
qed

lemma day_of_year_range:
  assumes "0 \<le> d" "d < 146097"
  shows "0 \<le> d - year_start (year_of_era d)" "d - year_start (year_of_era d) \<le> 365"
proof -
  let ?y = "year_of_era d"
  note r = year_of_era_range [OF assms]
  show "0 \<le> d - year_start ?y"
  proof (rule ccontr)
    assume "\<not> 0 \<le> d - year_start ?y"
    hence lt: "d \<le> year_start ?y - 1" by simp
    moreover have y1: "1 \<le> ?y" using lt assms r by (cases "?y = 0") (auto simp: year_start_def)
    ultimately have "?y \<le> year_of_era (year_start ?y - 1)" by (intro year_of_era_mono)
    thus False using year_ends(2) [OF y1 r(2)] by simp
  qed
  show "d - year_start ?y \<le> 365"
  proof (cases "?y = 399")
    case True
    have "year_start 399 = 145731" by (simp add: year_start_def)
    thus ?thesis using True assms by simp
  next
    case False
    show ?thesis
    proof (rule ccontr)
      assume n: "\<not> d - year_start ?y \<le> 365"
      have "year_start (?y + 1) \<le> year_start ?y + 366"
        using div_step [of 4 ?y] div_step [of 100 ?y] zdiv_mono1 [of ?y "?y + 1" 100]
        by (auto simp: year_start_def)
      hence "year_of_era (year_start (?y + 1)) \<le> ?y" using n by (intro year_of_era_mono) simp
      thus False using year_ends(1) [of "?y + 1"] r False by simp
    qed
  qed
qed

lemma month_bounds:
  fixes doy :: int
  assumes "0 \<le> doy" "doy \<le> 365"
  defines "mp \<equiv> (5 * doy + 2) div 153"
  shows "0 \<le> mp" "mp \<le> 11" "0 \<le> doy - (153 * mp + 2) div 5" "doy - (153 * mp + 2) div 5 \<le> 30"
proof -
  have m: "153 * mp \<le> 5 * doy + 2" "5 * doy + 2 < 153 * mp + 153"
    using div_bounds [of 153 "5 * doy + 2"] by (simp_all add: mp_def)
  have e: "5 * ((153 * mp + 2) div 5) \<le> 153 * mp + 2" "153 * mp + 2 < 5 * ((153 * mp + 2) div 5) + 5"
    using div_bounds [of 5 "153 * mp + 2"] by simp_all
  show "0 \<le> mp" "mp \<le> 11" "0 \<le> doy - (153 * mp + 2) div 5" "doy - (153 * mp + 2) div 5 \<le> 30"
    using m e assms(1,2) by linarith+
qed

text \<open>A date of an era, by year of era and day of year counted from the first of March.\<close>

definition era_date :: "int \<Rightarrow> int \<Rightarrow> int \<Rightarrow> int \<times> int \<times> int" where
  "era_date era y doy =
     (let mp = (5 * doy + 2) div 153; month = (if mp < 10 then mp + 3 else mp - 9)
      in (y + era * 400 + (if month \<le> 2 then 1 else 0), month, doy - (153 * mp + 2) div 5 + 1))"

lemma civil_of_era_date:
  "civil_of_era era d = era_date era (year_of_era d) (d - year_start (year_of_era d))"
  by (simp add: civil_of_era_def era_date_def year_start_def Let_def)

lemma year_of_era_eqI:
  assumes "0 \<le> y" "y \<le> 398" "year_start y \<le> d" "d < year_start (y + 1)"
  shows "year_of_era d = y"
proof -
  have "year_of_era d \<le> y"
    using year_of_era_mono [of d "year_start (y + 1) - 1"] year_ends(2) [of "y + 1"] assms by simp
  moreover have "y \<le> year_of_era d"
  proof (cases "y = 0")
    case True
    have "year_of_era 0 = 0" by (simp add: year_of_era_def)
    thus ?thesis using year_of_era_mono [of 0 d] assms True by (simp add: year_start_def)
  next
    case False
    thus ?thesis using year_of_era_mono [of "year_start y" d] year_ends(1) [of y] assms by simp
  qed
  ultimately show ?thesis by simp
qed

lemma div_step_dvd:
  fixes d k :: int
  assumes "0 < k"
  shows "(d + 1) div k = d div k + (if k dvd d + 1 then 1 else 0)"
proof (cases "k dvd d + 1")
  case True
  then obtain q where q: "d = k * q - 1" by (metis add_diff_cancel_right' dvdE)
  have "d div k = q - 1"
    using div_bounds [OF assms, of d] assms q
    by (intro int_div_pos_eq [of _ _ _ "k - 1"]) (simp_all add: algebra_simps)
  thus ?thesis using True q assms by simp
next
  case False
  hence "(d + 1) mod k \<noteq> 0" by (simp add: dvd_eq_mod_eq_0)
  hence "0 \<le> (d + 1) mod k - 1" "(d + 1) mod k - 1 < k"
    using pos_mod_sign [OF assms, of "d + 1"] pos_mod_bound [OF assms, of "d + 1"] by simp_all
  moreover have "d = k * ((d + 1) div k) + ((d + 1) mod k - 1)"
    using mult_div_mod_eq [of k "d + 1"] by linarith
  ultimately have "d div k = (d + 1) div k" by (intro int_div_pos_eq)
  thus ?thesis using False by simp
qed

lemma year_start_next:
  "year_start (y + 1) = year_start y + 365 + (if 4 dvd y + 1 then 1 else 0) - (if 100 dvd y + 1 then 1 else 0)"
  using div_step_dvd [of 4 y] div_step_dvd [of 100 y] by (simp add: year_start_def)

lemma year_length:
  assumes "0 \<le> y" "y \<le> 398"
  shows "year_start (y + 1) = year_start y + (if leap_year (y + 1) then 366 else 365)"
proof -
  have "\<not> 400 dvd y + 1" using assms zdvd_imp_le [of 400 "y + 1"] by auto
  moreover have "4 dvd y + 1" if "100 dvd y + 1" using dvd_trans [of 4 100 "y + 1"] that by simp
  ultimately show ?thesis by (auto simp: year_start_next leap_year_def)
qed

lemma leap_year_period: "leap_year (y + k * 400) = leap_year y"
proof -
  have "n dvd y + k * 400 \<longleftrightarrow> n dvd y" if "n dvd 400" for n :: int
    using that by (simp add: dvd_add_left_iff)
  thus ?thesis by (simp add: leap_year_def)
qed

lemma era_date_eq:
  assumes "153 * mp \<le> 5 * doy + 2" "5 * doy + 2 < 153 * mp + 153"
  shows "era_date era y doy =
    (let month = (if mp < 10 then mp + 3 else mp - 9)
     in (y + era * 400 + (if month \<le> 2 then 1 else 0), month, doy - (153 * mp + 2) div 5 + 1))"
proof -
  have "(5 * doy + 2) div 153 = mp"
    by (rule int_div_pos_eq [of _ _ _ "5 * doy + 2 - 153 * mp"]) (use assms in simp_all)
  thus ?thesis by (simp add: era_date_def Let_def)
qed

definition month_start :: "int \<Rightarrow> int" where
  "month_start mp = (153 * mp + 2) div 5"

definition month_number :: "int \<Rightarrow> int" where
  "month_number mp = (if mp < 10 then mp + 3 else mp - 9)"

lemma month_cases:
  assumes "0 \<le> mp" "mp \<le> (11 :: int)"
  shows "mp = 0 \<or> mp = 1 \<or> mp = 2 \<or> mp = 3 \<or> mp = 4 \<or> mp = 5 \<or> mp = 6 \<or> mp = 7 \<or> mp = 8 \<or> mp = 9 \<or> mp = 10 \<or> mp = 11"
  using assms by presburger

lemma month_lengths:
  assumes "0 \<le> mp" "mp \<le> 10"
  shows "days_in_month y (month_number mp) = month_start (mp + 1) - month_start mp"
    "month_number mp < 12 \<Longrightarrow> month_number (mp + 1) = month_number mp + 1"
    "month_number mp < 12 \<Longrightarrow> month_number mp \<le> 2 \<longleftrightarrow> month_number (mp + 1) \<le> 2"
    "\<not> month_number mp < 12 \<Longrightarrow> month_number (mp + 1) = 1 \<and> \<not> month_number mp \<le> 2"
proof -
  have c: "mp = 0 \<or> mp = 1 \<or> mp = 2 \<or> mp = 3 \<or> mp = 4 \<or> mp = 5 \<or> mp = 6 \<or> mp = 7 \<or> mp = 8 \<or> mp = 9 \<or> mp = 10"
    using month_cases [of mp] assms by simp
  note d = days_in_month_def month_number_def month_start_def
  show "days_in_month y (month_number mp) = month_start (mp + 1) - month_start mp"
    using c by (elim disjE; simp add: d)
  show "month_number mp < 12 \<Longrightarrow> month_number (mp + 1) = month_number mp + 1"
    using c by (elim disjE; simp add: d)
  show "month_number mp < 12 \<Longrightarrow> month_number mp \<le> 2 \<longleftrightarrow> month_number (mp + 1) \<le> 2"
    using c by (elim disjE; simp add: d)
  show "\<not> month_number mp < 12 \<Longrightarrow> month_number (mp + 1) = 1 \<and> \<not> month_number mp \<le> 2"
    using c by (elim disjE; simp add: d)
qed

lemma era_date_month:
  assumes "month_start mp \<le> doy" "doy < month_start (mp + 1)"
  shows "era_date era y doy =
    (y + era * 400 + (if month_number mp \<le> 2 then 1 else 0), month_number mp, doy - month_start mp + 1)"
proof -
  have "153 * mp + 2 < 5 * month_start mp + 5" "5 * month_start (mp + 1) \<le> 153 * (mp + 1) + 2"
    using div_bounds [of 5 "153 * mp + 2"] div_bounds [of 5 "153 * (mp + 1) + 2"]
    by (simp_all add: month_start_def)
  hence "153 * mp \<le> 5 * doy + 2" "5 * doy + 2 < 153 * mp + 153" using assms by simp_all
  thus ?thesis using era_date_eq [of mp doy era y] by (simp add: month_number_def month_start_def Let_def)
qed

lemma month_of_day:
  assumes "0 \<le> doy" "doy \<le> 365"
  obtains mp where "0 \<le> mp" "mp \<le> 11" "month_start mp \<le> doy" "doy < month_start (mp + 1)"
proof -
  obtain mp where mp: "mp = (5 * doy + 2) div 153" by simp
  have "153 * mp \<le> 5 * doy + 2" "5 * doy + 2 < 153 * mp + 153"
    using div_bounds [of 153 "5 * doy + 2"] by (simp_all add: mp)
  moreover have "5 * month_start mp \<le> 153 * mp + 2" "153 * (mp + 1) + 2 < 5 * month_start (mp + 1) + 5"
    using div_bounds [of 5 "153 * mp + 2"] div_bounds [of 5 "153 * (mp + 1) + 2"]
    by (simp_all add: month_start_def)
  ultimately have "month_start mp \<le> doy" "doy < month_start (mp + 1)" by simp_all
  with month_bounds(1,2) [OF assms] show ?thesis by (intro that [of mp]) (simp_all add: mp)
qed

lemma era_date_step:
  assumes "0 \<le> doy" "doy \<le> 363"
  shows "era_date era y (doy + 1) = next_date (era_date era y doy)"
proof -
  obtain mp where mp: "0 \<le> mp" "mp \<le> 11" "month_start mp \<le> doy" "doy < month_start (mp + 1)"
    using month_of_day [of doy] assms by auto
  note here = era_date_month [OF mp(3,4), of era y]
  show ?thesis
  proof (cases "mp = 11")
    case True
    hence "era_date era y (doy + 1) =
      (y + era * 400 + (if month_number mp \<le> 2 then 1 else 0), month_number mp, doy + 1 - month_start mp + 1)"
      using mp assms by (intro era_date_month) (simp_all add: month_start_def)
    thus ?thesis
      using here True assms by (simp add: month_number_def month_start_def days_in_month_def)
  next
    case False
    hence le: "mp \<le> 10" using mp(2) by simp
    note lens = month_lengths [OF mp(1) le]
    show ?thesis
    proof (cases "doy + 1 < month_start (mp + 1)")
      case True
      have "era_date era y (doy + 1) =
        (y + era * 400 + (if month_number mp \<le> 2 then 1 else 0), month_number mp, doy + 1 - month_start mp + 1)"
        using mp True by (intro era_date_month) simp_all
      thus ?thesis using here True lens(1) by simp
    next
      case last: False
      hence eq: "doy + 1 = month_start (mp + 1)" using mp(4) by simp
      have "month_start (mp + 1) < month_start (mp + 1 + 1)"
        using div_bounds [of 5 "153 * (mp + 1) + 2"] div_bounds [of 5 "153 * (mp + 1 + 1) + 2"]
        by (simp add: month_start_def)
      hence "era_date era y (doy + 1) =
        (y + era * 400 + (if month_number (mp + 1) \<le> 2 then 1 else 0), month_number (mp + 1), 1)"
        using era_date_month [of "mp + 1" "doy + 1" era y] eq by simp
      moreover have "doy - month_start mp + 1 = days_in_month x (month_number mp)" for x
        using eq lens(1) [of x] by simp
      ultimately show ?thesis
        using here lens(2-4) by (cases "month_number mp < 12") simp_all
    qed
  qed
qed

lemma era_date_ends:
  "era_date era y 0 = (y + era * 400, 3, 1)"
  "era_date era y 364 = (y + 1 + era * 400, 2, 28)"
  "era_date era y 365 = (y + 1 + era * 400, 2, 29)"
  by (simp_all add: era_date_def)

lemma civil_of_era_step:
  assumes "0 \<le> d" "d < 146096"
  shows "civil_of_era era (d + 1) = next_date (civil_of_era era d)"
proof -
  define y where "y = year_of_era d"
  define doy where "doy = d - year_start y"
  have y: "0 \<le> y" "y \<le> 399" using year_of_era_range [of d] assms by (simp_all add: y_def)
  have doy: "0 \<le> doy" "doy \<le> 365" using day_of_year_range [of d] assms by (simp_all add: y_def doy_def)
  have here: "civil_of_era era d = era_date era y doy" by (simp add: civil_of_era_date y_def doy_def)
  have y399: "year_start 399 = 145731" by (simp add: year_start_def)
  have leap: "leap_year (y + 1 + era * 400) = leap_year (y + 1)" by (rule leap_year_period)
  have len: "y \<le> 398 \<Longrightarrow> year_start (y + 1) = year_start y + (if leap_year (y + 1) then 366 else 365)"
    using year_length y by blast
  have leap399: "y = 399 \<Longrightarrow> leap_year (y + 1)" by (simp add: leap_year_def)
  have before: "y \<le> 398 \<Longrightarrow> d < year_start (y + 1)"
    using year_of_era_mono [of "year_start (y + 1)" d] year_ends(1) [of "y + 1"] y by (fastforce simp: y_def)
  show ?thesis
  proof (cases "y \<le> 398 \<and> d + 1 = year_start (y + 1)")
    case True
    hence "year_of_era (d + 1) = y + 1" using year_ends(1) [of "y + 1"] y by simp
    hence "civil_of_era era (d + 1) = era_date era (y + 1) 0" using True by (simp add: civil_of_era_date)
    moreover have "doy = (if leap_year (y + 1) then 365 else 364)" using True len by (auto simp: doy_def)
    ultimately show ?thesis using here leap by (auto simp: era_date_ends days_in_month_def)
  next
    case False
    have same: "year_of_era (d + 1) = y"
    proof (cases "y \<le> 398")
      case True
      thus ?thesis using False before y doy by (intro year_of_era_eqI) (auto simp: doy_def)
    next
      case f: False
      hence "y = 399" using y by simp
      thus ?thesis
        using year_of_era_mono [of d "d + 1"] year_of_era_range [of "d + 1"] assms by (simp add: y_def)
    qed
    hence nx: "civil_of_era era (d + 1) = era_date era y (doy + 1)" by (simp add: civil_of_era_date doy_def add_diff_eq diff_add_eq)
    have leap365: "doy = 364 \<Longrightarrow> leap_year (y + 1)"
      using False before len leap399 y by (cases "y \<le> 398") (auto simp: doy_def split: if_splits)
    have "doy \<le> 364"
      using False before len y y399 assms by (cases "y = 399") (auto simp: doy_def split: if_splits)
    thus ?thesis
      using nx here leap365 leap doy era_date_step [of doy era y]
      by (cases "doy = 364") (auto simp: era_date_ends days_in_month_def)
  qed
qed

lemma civil_of_era_last: "next_date (civil_of_era era 146096) = civil_of_era (era + 1) 0"
proof -
  have "civil_of_era era 146096 = (400 + era * 400, 2, 29)" "civil_of_era (era + 1) 0 = (400 + era * 400, 3, 1)"
    by (simp_all add: civil_of_era_def year_of_era_def)
  moreover have "leap_year (400 + era * 400)" using leap_year_period [of 400 era] by (simp add: leap_year_def)
  ultimately show ?thesis by (simp add: days_in_month_def)
qed

lemma sdiv_floor:
  fixes z k :: int
  assumes "0 < k"
  shows "(if 0 \<le> z then z else z - (k - 1)) sdiv k = z div k"
proof (cases "0 \<le> z")
  case True
  thus ?thesis using assms by (cases "z = 0") (simp_all add: signed_divide_int_def)
next
  case False
  have "(- z + (k - 1)) div k = - (z div k)"
  proof (rule int_div_pos_eq [of _ _ _ "k - 1 - z mod k"])
    show "- z + (k - 1) = k * - (z div k) + (k - 1 - z mod k)"
      using mult_div_mod_eq [of k z] by linarith
  qed (use pos_mod_sign [OF assms, of z] pos_mod_bound [OF assms, of z] in simp_all)
  thus ?thesis using False assms by (simp add: signed_divide_int_def algebra_simps)
qed

lemma civil_from_days_div: "civil_from_days d = civil_of_era ((d + 719468) div 146097) ((d + 719468) mod 146097)"
proof -
  define z where "z = d + 719468"
  have "(if 0 \<le> z then z else z - 146096) sdiv 146097 = z div 146097"
    using sdiv_floor [of 146097 z] by (cases "0 \<le> z") simp_all
  thus ?thesis
    by (simp only: civil_from_days_def Let_def z_def [symmetric] minus_div_mult_eq_mod)
qed

lemma civil_from_days_next: "civil_from_days (d + 1) = next_date (civil_from_days d)"
proof -
  define z where "z = d + 719468"
  have r: "0 \<le> z mod 146097" "z mod 146097 < 146097" by simp_all
  have z1: "d + 1 + 719468 = z + 1" by (simp add: z_def)
  show ?thesis
  proof (cases "z mod 146097 = 146096")
    case True
    hence "z + 1 = 146097 * (z div 146097 + 1)" using mult_div_mod_eq [of 146097 z] by (simp only: distrib_left)
    hence "146097 dvd z + 1" by (rule dvdI)
    hence "(z + 1) div 146097 = z div 146097 + 1" "(z + 1) mod 146097 = 0"
      using div_step_dvd [of 146097 z] by simp_all
    thus ?thesis
      using True civil_of_era_last by (simp add: civil_from_days_div z1 z_def [symmetric])
  next
    case False
    hence lt: "z mod 146097 + 1 < 146097" using r by simp
    have e: "z + 1 = 146097 * (z div 146097) + (z mod 146097 + 1)" by simp
    have "(z + 1) div 146097 = z div 146097" by (rule int_div_pos_eq [OF e]) (use lt r in simp_all)
    moreover have "(z + 1) mod 146097 = z mod 146097 + 1" by (rule int_mod_pos_eq [OF e]) (use lt r in simp_all)
    ultimately show ?thesis
      using lt r civil_of_era_step [of "z mod 146097" "z div 146097"]
      by (simp add: civil_from_days_div z1 z_def [symmetric])
  qed
qed

lemma civil_of_era_fields:
  assumes "0 \<le> d" "d < 146097" "civil_of_era era d = (y, m, dd)"
  shows "1 \<le> m" "m \<le> 12" "1 \<le> dd" "dd \<le> 31"
    "days_from_civil y m dd = era * 146097 + d - 719468"
proof -
  define yoe where "yoe = year_of_era d"
  define doy where "doy = d - year_start yoe"
  define mp where "mp = (5 * doy + 2) div 153"
  have yoe: "0 \<le> yoe" "yoe \<le> 399" using year_of_era_range assms(1,2) by (simp_all add: yoe_def)
  have doy: "0 \<le> doy" "doy \<le> 365" using day_of_year_range assms(1,2) by (simp_all add: yoe_def doy_def)
  have mp: "0 \<le> mp" "mp \<le> 11" using month_bounds [OF doy] by (simp_all add: mp_def)
  have dd: "0 \<le> doy - (153 * mp + 2) div 5" "doy - (153 * mp + 2) div 5 \<le> 30"
    using month_bounds [OF doy] by (simp_all add: mp_def)
  have "era_date era yoe doy = (y, m, dd)" using assms(3) by (simp add: civil_of_era_date yoe_def doy_def)
  hence eqs: "m = (if mp < 10 then mp + 3 else mp - 9)" "y = yoe + era * 400 + (if m \<le> 2 then 1 else 0)"
    "dd = doy - (153 * mp + 2) div 5 + 1"
    unfolding era_date_def Let_def mp_def [symmetric] prod.inject by (elim conjE, simp only:)+
  show "1 \<le> m" "m \<le> 12" using eqs(1) mp by simp_all
  show "1 \<le> dd" "dd \<le> 31" using eqs(3) dd by simp_all
  define year where "year = (if m \<le> 2 then y - 1 else y)"
  have y': "year = yoe + era * 400" using eqs(2) by (cases "m \<le> 2") (simp_all add: year_def)
  have era: "(if 0 \<le> year then year else year - 399) sdiv 400 = era"
    using sdiv_floor [of 400 year] yoe y' by (cases "0 \<le> year") simp_all
  have mp': "(m + 9) mod 12 = mp"
    using mp eqs(1) by (cases "mp < 10") (simp_all add: mod_pos_pos_trivial)
  have yoe': "year - era * 400 = yoe" using y' by simp
  have d_eq: "d = doy + (365 * yoe + yoe div 4 - yoe div 100)" by (simp add: doy_def year_start_def)
  show "days_from_civil y m dd = era * 146097 + d - 719468"
    unfolding days_from_civil_def Let_def year_def [symmetric] era mp' yoe'
    using eqs(3) d_eq by linarith
qed

lemma civil_from_days_fields:
  assumes "civil_from_days d = (y, m, dd)"
  shows "1 \<le> m" "m \<le> 12" "1 \<le> dd" "dd \<le> 31" "days_from_civil y m dd = d"
proof -
  have pos: "(0 :: int) < 146097" by simp
  have "civil_of_era ((d + 719468) div 146097) ((d + 719468) mod 146097) = (y, m, dd)"
    using assms by (simp only: civil_from_days_div)
  note f = civil_of_era_fields [OF pos_mod_sign [OF pos] pos_mod_bound [OF pos] this]
  show "1 \<le> m" "m \<le> 12" "1 \<le> dd" "dd \<le> 31" by (fact f)+
  have "(d + 719468) div 146097 * 146097 + (d + 719468) mod 146097 = d + 719468" by (rule div_mult_mod_eq)
  thus "days_from_civil y m dd = d" using f(5) by linarith
qed

end
