(* ===== verification/Timestamps.thy ===== *)
theory Timestamps
  imports Civil_Time
begin

text \<open>
  RFC 3339 timestamps: the four formatters (daemon envelope, dsh-std adapter, DSH usage, Shell usage), the
  envelope's recognizer, and the parsers of the scheduler and of the Shell's daemon client. Instants are
  milliseconds since the epoch.
\<close>

section \<open>Formatting\<close>

definition fmt0 :: "nat \<Rightarrow> nat \<Rightarrow> string" where
  "fmt0 w n = pad0 w (show_nat n)"

text \<open>\<open>now_timestamp_like\<close>, for an instant in milliseconds.\<close>

definition now_timestamp_like :: "nat \<Rightarrow> string" where
  "now_timestamp_like ms =
     (let secs = ms div 1000; days = secs div 86400; rest = secs mod 86400;
          (year, month, day) = civil_from_days (int days)
      in fmt0 4 (nat year) @ ''-'' @ fmt0 2 (nat month) @ ''-'' @ fmt0 2 (nat day) @ ''T'' @
         fmt0 2 (rest div 3600) @ '':'' @ fmt0 2 ((rest mod 3600) div 60) @ '':'' @ fmt0 2 (rest mod 60) @
         ''.'' @ fmt0 3 (ms mod 1000) @ ''Z'')"

definition rfc3339_at :: "nat \<Rightarrow> nat \<Rightarrow> string" where
  "rfc3339_at secs millis =
     (let days = secs div 86400; secs_of_day = secs mod 86400;
          (year, month, day) = civil_from_days_euclid (int days);
          hour = secs_of_day div 3600; minute = (secs_of_day mod 3600) div 60; second = secs_of_day mod 60
      in fmt0 4 (nat year) @ ''-'' @ fmt0 2 (nat month) @ ''-'' @ fmt0 2 (nat day) @ ''T'' @
         fmt0 2 hour @ '':'' @ fmt0 2 minute @ '':'' @ fmt0 2 second @ ''.'' @ fmt0 3 millis @ ''Z'')"

definition unix_ms_to_rfc3339 :: "nat \<Rightarrow> string" where
  "unix_ms_to_rfc3339 unix_ms =
     (let days = unix_ms div 86400000; rem_ms = unix_ms mod 86400000;
          (year, month, day) = civil_from_days_euclid (int days);
          hour = rem_ms div 3600000; minute = (rem_ms div 60000) mod 60; second = (rem_ms div 1000) mod 60;
          millis = rem_ms mod 1000
      in fmt0 4 (nat year) @ ''-'' @ fmt0 2 (nat month) @ ''-'' @ fmt0 2 (nat day) @ ''T'' @
         fmt0 2 hour @ '':'' @ fmt0 2 minute @ '':'' @ fmt0 2 second @ ''.'' @ fmt0 3 millis @ ''Z'')"

definition format_utc :: "nat \<Rightarrow> string" where
  "format_utc unix_ms =
     (let days = unix_ms div 86400000; r1 = unix_ms mod 86400000;
          (year, month, day) = civil_from_days (int days);
          hours = r1 div 3600000; r2 = r1 mod 3600000;
          minutes = r2 div 60000; r3 = r2 mod 60000;
          seconds = r3 div 1000; millis = r3 mod 1000
      in fmt0 4 (nat year) @ ''-'' @ fmt0 2 (nat month) @ ''-'' @ fmt0 2 (nat day) @ ''T'' @
         fmt0 2 hours @ '':'' @ fmt0 2 minutes @ '':'' @ fmt0 2 seconds @ ''.'' @ fmt0 3 millis @ ''Z'')"

section \<open>Recognizing\<close>

definition digit_val :: "char \<Rightarrow> nat" where
  "digit_val c = byte_of c - 48"

definition two_digits :: "string \<Rightarrow> nat \<Rightarrow> nat" where
  "two_digits s i = digit_val (s ! i) * 10 + digit_val (s ! (i + 1))"

definition digits_at :: "string \<Rightarrow> nat \<Rightarrow> nat \<Rightarrow> bool" where
  "digits_at s i n = list_all is_ascii_digit (take n (drop i s))"

text \<open>The position after the optional fraction; \<open>None\<close> for a dot without digits.\<close>

definition skip_fraction :: "string \<Rightarrow> nat \<Rightarrow> nat option" where
  "skip_fraction s i =
     (if i < length s \<and> s ! i = CHR ''.'' then
        let n = length (takeWhile is_ascii_digit (drop (i + 1) s))
        in if n = 0 then None else Some (i + 1 + n)
      else Some i)"

definition zone_ok :: "string \<Rightarrow> nat \<Rightarrow> bool" where
  "zone_ok s i =
     (if length s \<le> i then False
      else if s ! i = CHR ''Z'' \<or> s ! i = CHR ''z'' then i + 1 = length s
      else if s ! i = CHR ''+'' \<or> s ! i = CHR ''-'' then
        length s = i + 6 \<and> digits_at s (i + 1) 2 \<and> s ! (i + 3) = CHR '':'' \<and> digits_at s (i + 4) 2 \<and>
        two_digits s (i + 1) \<le> 23 \<and> two_digits s (i + 4) \<le> 59
      else False)"

definition is_rfc3339_timestamp :: "string \<Rightarrow> bool" where
  "is_rfc3339_timestamp s =
     (if length s < 20 then False
      else if \<not> digits_at s 0 4 \<or> s ! 4 \<noteq> CHR ''-'' \<or> \<not> digits_at s 5 2 \<or> s ! 7 \<noteq> CHR ''-'' \<or> \<not> digits_at s 8 2 then False
      else if two_digits s 5 < 1 \<or> 12 < two_digits s 5 \<or> two_digits s 8 < 1 \<or> 31 < two_digits s 8 then False
      else if (s ! 10 \<noteq> CHR ''T'' \<and> s ! 10 \<noteq> CHR ''t'') \<or> \<not> digits_at s 11 2 \<or> s ! 13 \<noteq> CHR '':'' \<or>
        \<not> digits_at s 14 2 \<or> s ! 16 \<noteq> CHR '':'' \<or> \<not> digits_at s 17 2 then False
      else if 23 < two_digits s 11 \<or> 59 < two_digits s 14 \<or> 59 < two_digits s 17 then False
      else case skip_fraction s 19 of None \<Rightarrow> False | Some i \<Rightarrow> zone_ok s i)"

section \<open>Parsing\<close>

text \<open>The scheduler's cursor: the bytes still to read.\<close>

fun cursor_digits :: "nat \<Rightarrow> nat \<Rightarrow> string \<Rightarrow> (nat \<times> string) option" where
  "cursor_digits 0 v s = Some (v, s)"
| "cursor_digits (Suc n) v [] = None"
| "cursor_digits (Suc n) v (c # s) =
     (if is_ascii_digit c then cursor_digits n (v * 10 + digit_val c) s else None)"

fun cursor_eat :: "char \<Rightarrow> string \<Rightarrow> string option" where
  "cursor_eat x [] = None"
| "cursor_eat x (c # s) = (if c = x then Some s else None)"

text \<open>Up to three fraction digits are scaled, the rest are skipped.\<close>

fun fraction_digits :: "nat \<Rightarrow> nat \<Rightarrow> nat \<Rightarrow> string \<Rightarrow> nat \<times> string" where
  "fraction_digits 0 scale acc s = (acc, dropWhile is_ascii_digit s)"
| "fraction_digits (Suc n) scale acc [] = (acc, [])"
| "fraction_digits (Suc n) scale acc (c # s) =
     (if is_ascii_digit c then fraction_digits n (scale div 10) (acc + digit_val c * scale) s else (acc, c # s))"

definition parse_fraction :: "string \<Rightarrow> nat \<times> string" where
  "parse_fraction s =
     (case s of [] \<Rightarrow> (0, []) | c # s' \<Rightarrow> if c = CHR ''.'' then fraction_digits 3 100 0 s' else (0, s))"

definition parse_zone :: "string \<Rightarrow> (int \<times> string) option" where
  "parse_zone s =
     (case s of
        [] \<Rightarrow> None
      | c # s' \<Rightarrow>
          if c = CHR ''Z'' \<or> c = CHR ''z'' then Some (0, s')
          else if c = CHR ''+'' \<or> c = CHR ''-'' then
            Option.bind (cursor_digits 2 0 s') (\<lambda>(h, s1).
            Option.bind (cursor_eat CHR '':'' s1) (\<lambda>s2.
            Option.bind (cursor_digits 2 0 s2) (\<lambda>(m, s3).
              if 23 < h \<or> 59 < m then None
              else Some ((if c = CHR ''-'' then -1 else 1) * (int h * 3600 + int m * 60), s3))))
          else None)"

definition checked_i64 :: "int \<Rightarrow> int option" where
  "checked_i64 x = (if -9223372036854775808 \<le> x \<and> x \<le> 9223372036854775807 then Some x else None)"

definition parse_rfc3339 :: "string \<Rightarrow> nat option" where
  "parse_rfc3339 input =
     Option.bind (cursor_digits 4 0 input) (\<lambda>(year, s).
     Option.bind (cursor_eat CHR ''-'' s) (\<lambda>s.
     Option.bind (cursor_digits 2 0 s) (\<lambda>(month, s).
     Option.bind (cursor_eat CHR ''-'' s) (\<lambda>s.
     Option.bind (cursor_digits 2 0 s) (\<lambda>(day, s).
     Option.bind (cursor_eat CHR ''T'' s) (\<lambda>s.
     Option.bind (cursor_digits 2 0 s) (\<lambda>(hour, s).
     Option.bind (cursor_eat CHR '':'' s) (\<lambda>s.
     Option.bind (cursor_digits 2 0 s) (\<lambda>(minute, s).
     Option.bind (cursor_eat CHR '':'' s) (\<lambda>s.
     Option.bind (cursor_digits 2 0 s) (\<lambda>(second, s).
     case parse_fraction s of (millis, s) \<Rightarrow>
     Option.bind (parse_zone s) (\<lambda>(offset, s).
       if s \<noteq> [] then None
       else if month < 1 \<or> 12 < month \<or> day < 1 \<or> 31 < day \<or> 23 < hour \<or> 59 < minute \<or> 60 < second then None
       else
         let unix_secs = days_from_civil (int year) (int month) (int day) * 86400 +
               int hour * 3600 + int minute * 60 + int second - offset
         in Option.bind (checked_i64 (unix_secs * 1000)) (\<lambda>t.
            Option.bind (checked_i64 (t + int millis)) (\<lambda>total.
              if 0 \<le> total then Some (nat total) else None))))))))))))))"

text \<open>
  The Shell's parser of the timestamps the daemon writes. It slices the string by byte positions;
  \<open>None\<close> is a panic: a slice that is not on character boundaries, or an arithmetic overflow (where
  overflow checks are on).
\<close>

definition char_boundary :: "string \<Rightarrow> nat \<Rightarrow> bool" where
  "char_boundary s i = (i = 0 \<or> i = length s \<or> (i < length s \<and> \<not> is_continuation (s ! i)))"

definition digits_val :: "string \<Rightarrow> nat" where
  "digits_val s = foldl (\<lambda>v c. v * 10 + digit_val c) 0 s"

definition utc_digit :: "string \<Rightarrow> nat \<Rightarrow> nat \<Rightarrow> (nat, unit) result option" where
  "utc_digit s a b =
     (if \<not> char_boundary s a \<or> \<not> char_boundary s b then None
      else let text = take (b - a) (drop a s)
           in if list_all is_ascii_digit text then Some (Ok (digits_val text)) else Some (Err ()))"

definition utc_bind :: "('a, unit) result option \<Rightarrow> ('a \<Rightarrow> ('b, unit) result option) \<Rightarrow> ('b, unit) result option" where
  "utc_bind r f = (case r of None \<Rightarrow> None | Some (Err e) \<Rightarrow> Some (Err e) | Some (Ok a) \<Rightarrow> f a)"

definition utc_fraction :: "string \<Rightarrow> (nat \<times> nat, unit) result option" where
  "utc_fraction s =
     (if 19 < length s \<and> s ! 19 = CHR ''.'' then
        let fraction = takeWhile is_ascii_digit (drop 20 s); n = length fraction; parsed = digits_val fraction
        in if n = 0 then Some (Err ())
           else if u64_max < parsed then Some (Err ())
           else if u64_max < parsed * 1000 \<or> u64_max < 10 ^ n then None
           else Some (Ok (parsed * 1000 div 10 ^ n, 20 + n))
      else Some (Ok (0, 19)))"

definition parse_rfc3339_utc :: "string \<Rightarrow> (nat, unit) result option" where
  "parse_rfc3339_utc s =
     (if length s < 20 \<or> s ! 10 \<noteq> CHR ''T'' \<or> s ! 13 \<noteq> CHR '':'' \<or> s ! 16 \<noteq> CHR '':'' then Some (Err ())
      else
        utc_bind (utc_digit s 0 4) (\<lambda>year.
        utc_bind (utc_digit s 5 7) (\<lambda>month.
        utc_bind (utc_digit s 8 10) (\<lambda>day.
        utc_bind (utc_digit s 11 13) (\<lambda>hour.
        utc_bind (utc_digit s 14 16) (\<lambda>minute.
        utc_bind (utc_digit s 17 19) (\<lambda>second.
        utc_bind (utc_fraction s) (\<lambda>(millis, i).
          if \<not> (i < length s \<and> s ! i = CHR ''Z'') \<or> i + 1 \<noteq> length s then Some (Err ())
          else if month = 0 \<or> 12 < month \<or> day = 0 \<or> 31 < day \<or> 23 < hour \<or> 59 < minute \<or> 59 < second then Some (Err ())
          else
            let seconds = days_from_civil (int year) (int month) (int day) * 86400 +
                  int (hour * 3600 + minute * 60 + second)
            in Some (Ok (nat (max seconds 0) * 1000 + millis))))))))))"

section \<open>Digits\<close>

lemma digit_char_digit: "d < 10 \<Longrightarrow> byte_of (digit_char d) = 48 + d"
  by (simp add: digit_char_def byte_of_def)

lemma digit_char_simps:
  assumes "d < 10"
  shows "is_ascii_digit (digit_char d)" "digit_val (digit_char d) = d" "\<not> is_continuation (digit_char d)"
    "digit_char d \<noteq> CHR ''.''" "digit_char d \<noteq> CHR ''Z''"
proof -
  note b = digit_char_digit [OF assms]
  show "is_ascii_digit (digit_char d)" "digit_val (digit_char d) = d" "\<not> is_continuation (digit_char d)"
    using assms by (simp_all add: is_ascii_digit_def digit_val_def is_continuation_def b)
  have "byte_of CHR ''.'' = 46" "byte_of CHR ''Z'' = 90" by (simp_all add: byte_of_def)
  thus "digit_char d \<noteq> CHR ''.''" "digit_char d \<noteq> CHR ''Z''" using b assms by auto
qed

lemma show_nat_step: "show_nat n = (if n < 10 then [digit_char n] else show_nat (n div 10) @ [digit_char (n mod 10)])"
  unfolding show_nat_def by (subst show_base.simps) simp

lemma show_nat_digit: "n < 10 \<Longrightarrow> show_nat n = [digit_char n]"
  by (simp add: show_nat_step [of n])

lemma digit_char_0: "digit_char 0 = CHR ''0''"
  by code_simp

lemma fmt0_Suc: "0 < w \<Longrightarrow> fmt0 (Suc w) n = fmt0 w (n div 10) @ [digit_char (n mod 10)]"
proof (cases "n < 10")
  case True
  assume "0 < w"
  then obtain v where "w = Suc v" by (cases w) auto
  moreover have "replicate v CHR ''0'' @ [CHR ''0''] = CHR ''0'' # replicate v CHR ''0''"
    by (rule replicate_append_same)
  ultimately show ?thesis using True by (simp add: fmt0_def show_nat_digit digit_char_0 pad0_def)
next
  case False
  thus ?thesis by (simp add: fmt0_def show_nat_step [of n] pad0_def)
qed

lemma fmt0_1: "n < 10 \<Longrightarrow> fmt0 (Suc 0) n = [digit_char n]"
  by (simp add: fmt0_def show_nat_digit pad0_def)

lemma fmt0_2: "n < 100 \<Longrightarrow> fmt0 2 n = [digit_char (n div 10), digit_char (n mod 10)]"
  by (simp add: numeral_2_eq_2 fmt0_Suc fmt0_1)

lemma fmt0_3: "n < 1000 \<Longrightarrow> fmt0 3 n = [digit_char (n div 100), digit_char (n div 10 mod 10), digit_char (n mod 10)]"
  using fmt0_Suc [of 2 n] fmt0_2 [of "n div 10"] by (simp add: numeral_3_eq_3 div_mult2_eq [symmetric])

lemma fmt0_4:
  assumes "n < 10000"
  shows "fmt0 4 n =
     [digit_char (n div 1000), digit_char (n div 100 mod 10), digit_char (n div 10 mod 10), digit_char (n mod 10)]"
  using fmt0_Suc [of 3 n] fmt0_3 [of "n div 10"] assms by (simp add: div_mult2_eq [symmetric])

lemma civil_from_days_year:
  assumes "civil_from_days d = (y, m, dd)" "0 \<le> d" "d < 2932897"
  shows "0 \<le> y" "y \<le> 9999"
proof -
  define era doe where "era = (d + 719468) div 146097" and "doe = (d + 719468) mod 146097"
  have e: "d + 719468 = 146097 * era + doe" by (simp add: era_def doe_def)
  have doe: "0 \<le> doe" "doe < 146097" by (simp_all add: doe_def)
  have era: "0 \<le> era" "era \<le> 24" using e doe assms(2,3) by linarith+
  define yoe where "yoe = year_of_era doe"
  define doy where "doy = doe - year_start yoe"
  have yoe: "0 \<le> yoe" "yoe \<le> 399" using year_of_era_range [OF doe] by (simp_all add: yoe_def)
  have date: "era_date era yoe doy = (y, m, dd)"
    using assms(1) by (simp add: civil_from_days_div civil_of_era_date era_def doe_def yoe_def doy_def)
  hence yy: "y = yoe + era * 400 \<or> y = yoe + era * 400 + 1"
    by (auto simp: era_date_def Let_def split: if_splits)
  show "0 \<le> y" using yy yoe era by auto
  show "y \<le> 9999"
  proof (cases "era = 24 \<and> yoe = 399")
    case True
    hence "doy \<le> 305" using e doe assms(3) by (simp add: doy_def year_start_def)
    moreover have "0 \<le> doy" using day_of_year_range(1) [OF doe] by (simp add: doy_def yoe_def)
    ultimately have "0 \<le> (5 * doy + 2) div 153" "(5 * doy + 2) div 153 < 10"
      using div_bounds(1) [of 153 "5 * doy + 2"] by simp_all
    thus ?thesis using date True by (auto simp: era_date_def Let_def split: if_splits)
  next
    case False
    thus ?thesis using yy yoe era by auto
  qed
qed

section \<open>The shape of a timestamp\<close>

definition stamp :: "nat \<Rightarrow> nat \<Rightarrow> nat \<Rightarrow> nat \<Rightarrow> nat \<Rightarrow> nat \<Rightarrow> nat \<Rightarrow> string" where
  "stamp y m d h mi sec ms =
     [digit_char (y div 1000), digit_char (y div 100 mod 10), digit_char (y div 10 mod 10), digit_char (y mod 10),
      CHR ''-'', digit_char (m div 10), digit_char (m mod 10), CHR ''-'', digit_char (d div 10), digit_char (d mod 10),
      CHR ''T'', digit_char (h div 10), digit_char (h mod 10), CHR '':'', digit_char (mi div 10), digit_char (mi mod 10),
      CHR '':'', digit_char (sec div 10), digit_char (sec mod 10), CHR ''.'',
      digit_char (ms div 100), digit_char (ms div 10 mod 10), digit_char (ms mod 10), CHR ''Z'']"

lemma now_timestamp_like_stamp:
  assumes "ms < 253402300800000"
  obtains y m d where "civil_from_days (int (ms div 1000 div 86400)) = (int y, int m, int d)" "y < 10000"
    "1 \<le> m" "m \<le> 12" "1 \<le> d" "d \<le> 31"
    "now_timestamp_like ms = stamp y m d (ms div 1000 mod 86400 div 3600) (ms div 1000 mod 86400 mod 3600 div 60)
       (ms div 1000 mod 86400 mod 60) (ms mod 1000)"
proof -
  let ?days = "ms div 1000 div 86400"
  obtain y m d where c: "civil_from_days (int ?days) = (y, m, d)" by (metis prod_cases3)
  have "?days < 2932897" using assms by (simp add: div_mult2_eq [symmetric] less_mult_imp_div_less)
  hence y: "0 \<le> y" "y \<le> 9999" using civil_from_days_year [OF c] by simp_all
  note f = civil_from_days_fields [OF c]
  have lt: "nat y < 10000" "nat m < 100" "nat d < 100" "ms div 1000 mod 86400 div 3600 < 100"
    "ms div 1000 mod 86400 mod 3600 div 60 < 100" "ms mod 1000 < 1000"
    using y f by (simp_all add: less_mult_imp_div_less nat_less_iff)
  have sec: "ms div 1000 mod 86400 mod 60 < 100" by (rule less_trans [OF mod_less_divisor]) simp_all
  have eq: "now_timestamp_like ms = stamp (nat y) (nat m) (nat d) (ms div 1000 mod 86400 div 3600)
      (ms div 1000 mod 86400 mod 3600 div 60) (ms div 1000 mod 86400 mod 60) (ms mod 1000)"
    unfolding now_timestamp_like_def Let_def c prod.case fmt0_4 [OF lt(1)] fmt0_2 [OF lt(2)] fmt0_2 [OF lt(3)]
      fmt0_2 [OF lt(4)] fmt0_2 [OF lt(5)] fmt0_2 [OF sec] fmt0_3 [OF lt(6)] stamp_def append.simps ..
  show thesis
  proof (rule that [of "nat y" "nat m" "nat d"])
    show "civil_from_days (int ?days) = (int (nat y), int (nat m), int (nat d))" using c y f by simp
    show "nat y < 10000" by (rule lt)
    show "1 \<le> nat m" "nat m \<le> 12" "1 \<le> nat d" "nat d \<le> 31" using f by (simp_all add: nat_le_iff)
  qed (rule eq)
qed

lemma tens_digits:
  assumes "n < 100"
  shows "is_ascii_digit (digit_char (n div 10))" "is_ascii_digit (digit_char (n mod 10))"
    "digit_val (digit_char (n div 10)) = n div 10" "digit_val (digit_char (n mod 10)) = n mod 10"
    "\<not> is_continuation (digit_char (n div 10))" "\<not> is_continuation (digit_char (n mod 10))"
proof -
  have "n div 10 < 10" "n mod 10 < 10" using assms by (simp_all add: less_mult_imp_div_less)
  thus "is_ascii_digit (digit_char (n div 10))" "is_ascii_digit (digit_char (n mod 10))"
    "digit_val (digit_char (n div 10)) = n div 10" "digit_val (digit_char (n mod 10)) = n mod 10"
    "\<not> is_continuation (digit_char (n div 10))" "\<not> is_continuation (digit_char (n mod 10))"
    by (simp_all only: digit_char_simps not_False_eq_True)
qed

lemma inner_digits:
  "is_ascii_digit (digit_char (n mod 10))" "digit_val (digit_char (n mod 10)) = n mod 10"
  "\<not> is_continuation (digit_char (n mod 10))"
  by (simp_all only: digit_char_simps mod_less_divisor zero_less_numeral not_False_eq_True)

lemma cursor_digits_two [simp]:
  "n < 100 \<Longrightarrow> cursor_digits 2 0 (digit_char (n div 10) # digit_char (n mod 10) # s) = Some (n, s)"
  by (simp add: numeral_2_eq_2 tens_digits)

lemma digits_sum:
  fixes n :: nat
  shows "(n div 100 * 10 + n div 10 mod 10) * 10 + n mod 10 = n"
    "((n div 1000 * 10 + n div 100 mod 10) * 10 + n div 10 mod 10) * 10 + n mod 10 = n"
proof -
  have d: "n div 100 = n div 10 div 10" "n div 1000 = n div 10 div 10 div 10" by (simp_all add: div_mult2_eq [symmetric])
  show "(n div 100 * 10 + n div 10 mod 10) * 10 + n mod 10 = n"
    "((n div 1000 * 10 + n div 100 mod 10) * 10 + n div 10 mod 10) * 10 + n mod 10 = n"
    unfolding d by (simp_all only: div_mult_mod_eq)
qed

lemma cursor_digits_four [simp]:
  assumes "n < 10000"
  shows "cursor_digits 4 0 (digit_char (n div 1000) # digit_char (n div 100 mod 10) # digit_char (n div 10 mod 10) #
     digit_char (n mod 10) # s) = Some (n, s)"
proof -
  have "n div 1000 < 10" using assms by (simp add: less_mult_imp_div_less)
  note dg = digit_char_simps(1,2) [OF this] inner_digits
  have "4 = Suc (Suc (Suc (Suc 0)))" by simp
  thus ?thesis using digits_sum(2) [of n] by (simp only: cursor_digits.simps dg if_True mult_0 add_0)
qed

lemma fraction_digits_three [simp]:
  assumes "n < 1000"
  shows "fraction_digits 3 100 0 (digit_char (n div 100) # digit_char (n div 10 mod 10) # digit_char (n mod 10) # CHR ''Z'' # s)
     = (n, CHR ''Z'' # s)"
proof -
  have "n div 100 < 10" using assms by (simp add: less_mult_imp_div_less)
  note dg = digit_char_simps(1,2) [OF this] inner_digits
  have "n div 100 * 100 + n div 10 mod 10 * 10 + n mod 10 = n"
    using digits_sum(1) [of n] by (simp add: algebra_simps)
  moreover have "\<not> is_ascii_digit CHR ''Z''" by code_simp
  ultimately show ?thesis by (simp add: numeral_3_eq_3 dg)
qed

lemma day_split:
  fixes r :: nat
  assumes "r < 86400"
  shows "r div 3600 < 24" "r mod 3600 div 60 < 60" "r mod 60 < 60"
    "r div 3600 * 3600 + r mod 3600 div 60 * 60 + r mod 60 = r"
proof -
  show "r div 3600 < 24" using assms by (simp add: less_mult_imp_div_less)
  show "r mod 3600 div 60 < 60" by (simp add: less_mult_imp_div_less)
  show "r mod 60 < 60" by simp
  have "r mod 60 = r mod 3600 mod 60" by (simp add: mod_mod_cancel)
  thus "r div 3600 * 3600 + r mod 3600 div 60 * 60 + r mod 60 = r"
    by (simp add: div_mult_mod_eq add.assoc)
qed

lemma stamp_digits:
  assumes "y < 10000" "m < 100" "d < 100" "h < 100" "mi < 100" "sec < 100" "ms < 1000"
  shows "digits_at (stamp y m d h mi sec ms) 0 4" "digits_at (stamp y m d h mi sec ms) 5 2"
    "digits_at (stamp y m d h mi sec ms) 8 2" "digits_at (stamp y m d h mi sec ms) 11 2"
    "digits_at (stamp y m d h mi sec ms) 14 2" "digits_at (stamp y m d h mi sec ms) 17 2"
    "takeWhile is_ascii_digit (drop 20 (stamp y m d h mi sec ms)) =
       [digit_char (ms div 100), digit_char (ms div 10 mod 10), digit_char (ms mod 10)]"
    "two_digits (stamp y m d h mi sec ms) 5 = m" "two_digits (stamp y m d h mi sec ms) 8 = d"
    "two_digits (stamp y m d h mi sec ms) 11 = h" "two_digits (stamp y m d h mi sec ms) 14 = mi"
    "two_digits (stamp y m d h mi sec ms) 17 = sec"
proof -
  have lt: "y div 1000 < 10" "ms div 100 < 10" using assms(1,7) by (simp_all add: less_mult_imp_div_less)
  have z: "is_ascii_digit CHR ''Z'' = False" by code_simp
  note dg = digit_char_simps(1) [OF lt(1)] digit_char_simps(1) [OF lt(2)] inner_digits z
    tens_digits [OF assms(2)] tens_digits [OF assms(3)] tens_digits [OF assms(4)] tens_digits [OF assms(5)] tens_digits [OF assms(6)]
  show "digits_at (stamp y m d h mi sec ms) 0 4" "digits_at (stamp y m d h mi sec ms) 5 2"
    "digits_at (stamp y m d h mi sec ms) 8 2" "digits_at (stamp y m d h mi sec ms) 11 2"
    "digits_at (stamp y m d h mi sec ms) 14 2" "digits_at (stamp y m d h mi sec ms) 17 2"
    "takeWhile is_ascii_digit (drop 20 (stamp y m d h mi sec ms)) =
       [digit_char (ms div 100), digit_char (ms div 10 mod 10), digit_char (ms mod 10)]"
    "two_digits (stamp y m d h mi sec ms) 5 = m" "two_digits (stamp y m d h mi sec ms) 8 = d"
    "two_digits (stamp y m d h mi sec ms) 11 = h" "two_digits (stamp y m d h mi sec ms) 14 = mi"
    "two_digits (stamp y m d h mi sec ms) 17 = sec"
    by (simp_all add: stamp_def digits_at_def two_digits_def dg)
qed

lemma is_rfc3339_stamp:
  assumes "y < 10000" "1 \<le> m" "m \<le> 12" "1 \<le> d" "d \<le> 31" "h < 24" "mi < 60" "sec < 60" "ms < 1000"
  shows "is_rfc3339_timestamp (stamp y m d h mi sec ms)"
proof -
  let ?s = "stamp y m d h mi sec ms"
  have c: "m < 100" "d < 100" "h < 100" "mi < 100" "sec < 100" using assms by simp_all
  note sd = stamp_digits [OF assms(1) c assms(9)]
  have seps: "length ?s = 24" "?s ! 4 = CHR ''-''" "?s ! 7 = CHR ''-''" "?s ! 10 = CHR ''T''" "?s ! 13 = CHR '':''"
    "?s ! 16 = CHR '':''" "?s ! 19 = CHR ''.''"
    by (simp_all add: stamp_def)
  have frac: "skip_fraction ?s 19 = Some 23" by (simp add: skip_fraction_def Let_def sd(7) seps)
  have zone: "zone_ok (stamp y m d h mi sec ms) 23" by (simp add: zone_ok_def stamp_def)
  show ?thesis
    unfolding is_rfc3339_timestamp_def frac option.case seps sd(8-12)
    using sd(1-6) zone assms by simp
qed

lemma parse_rfc3339_stamp:
  assumes "y < 10000" "1 \<le> m" "m \<le> 12" "1 \<le> d" "d \<le> 31" "h < 24" "mi < 60" "sec < 60" "ms < 1000"
    and "int secs = days_from_civil (int y) (int m) (int d) * 86400 + int h * 3600 + int mi * 60 + int sec"
    and "secs < 9000000000000000"
  shows "parse_rfc3339 (stamp y m d h mi sec ms) = Some (secs * 1000 + ms)"
proof -
  have c: "m < 100" "d < 100" "h < 100" "mi < 100" "sec < 100" using assms by simp_all
  have z: "parse_zone ''Z'' = Some (0, [])" by (simp add: parse_zone_def)
  have i64: "checked_i64 (int secs * 1000) = Some (int secs * 1000)"
    "checked_i64 (int secs * 1000 + int ms) = Some (int secs * 1000 + int ms)"
    using assms(9,11) by (simp_all add: checked_i64_def)
  have n: "nat (int secs * 1000 + int ms) = secs * 1000 + ms" by simp
  show ?thesis
    unfolding parse_rfc3339_def stamp_def cursor_digits_four [OF assms(1)] Option.bind.simps prod.case cursor_eat.simps
      cursor_digits_two [OF c(1)] cursor_digits_two [OF c(2)] cursor_digits_two [OF c(3)] cursor_digits_two [OF c(4)]
      cursor_digits_two [OF c(5)] if_True refl parse_fraction_def list.case
    using assms(2-8) by (simp add: fraction_digits_three [OF assms(9)] z assms(10) [symmetric] i64 n)
qed

lemma parse_rfc3339_utc_stamp:
  assumes "y < 10000" "1 \<le> m" "m \<le> 12" "1 \<le> d" "d \<le> 31" "h < 24" "mi < 60" "sec < 60" "ms < 1000"
    and "int secs = days_from_civil (int y) (int m) (int d) * 86400 + int h * 3600 + int mi * 60 + int sec"
  shows "parse_rfc3339_utc (stamp y m d h mi sec ms) = Some (Ok (secs * 1000 + ms))"
proof -
  let ?s = "stamp y m d h mi sec ms"
  have c: "m < 100" "d < 100" "h < 100" "mi < 100" "sec < 100" using assms by simp_all
  have lt: "y div 1000 < 10" "ms div 100 < 10" using assms(1,9) by (simp_all add: less_mult_imp_div_less)
  have nc: "is_continuation CHR ''-'' = False" "is_continuation CHR ''T'' = False" "is_continuation CHR '':'' = False"
    "is_continuation CHR ''.'' = False"
    by code_simp+
  note dg = digit_char_simps(1-3) [OF lt(1)] digit_char_simps(1-3) [OF lt(2)] inner_digits nc
    tens_digits [OF c(1)] tens_digits [OF c(2)] tens_digits [OF c(3)] tens_digits [OF c(4)] tens_digits [OF c(5)]
  have seps: "length ?s = 24" "?s ! 10 = CHR ''T''" "?s ! 13 = CHR '':''" "?s ! 16 = CHR '':''" "?s ! 23 = CHR ''Z''"
    by (simp_all add: stamp_def)
  have y4: "1000 * (y div 1000) + 100 * (y div 100 mod 10) + y div 10 mod 10 * 10 + y mod 10 = y"
    using digits_sum(2) [of y] by simp
  have dig: "utc_digit ?s 0 4 = Some (Ok y)" "utc_digit ?s 5 7 = Some (Ok m)" "utc_digit ?s 8 10 = Some (Ok d)"
    "utc_digit ?s 11 13 = Some (Ok h)" "utc_digit ?s 14 16 = Some (Ok mi)" "utc_digit ?s 17 19 = Some (Ok sec)"
    by (simp_all add: utc_digit_def char_boundary_def stamp_def digits_val_def Let_def dg y4)
  have "digits_val [digit_char (ms div 100), digit_char (ms div 10 mod 10), digit_char (ms mod 10)] = ms"
    using digits_sum(1) [of ms] by (simp add: digits_val_def dg)
  moreover have "?s ! 19 = CHR ''.''" by (simp add: stamp_def)
  moreover note stamp_digits(7) [OF assms(1) c assms(9)]
  ultimately have frac: "utc_fraction ?s = Some (Ok (ms, 23))"
    using assms(9) seps(1) by (simp add: utc_fraction_def Let_def u64_max_def)
  have "days_from_civil (int y) (int m) (int d) * 86400 + int (h * 3600 + mi * 60 + sec) = int secs"
    using assms(10) by simp
  thus ?thesis
    unfolding parse_rfc3339_utc_def dig frac utc_bind_def option.case result.case seps
    using assms(2-8) by (simp add: seps)
qed

lemma timestamp_instant:
  assumes "ms < 253402300800000"
  obtains y m d h mi sec where "now_timestamp_like ms = stamp y m d h mi sec (ms mod 1000)"
    "y < 10000" "1 \<le> m" "m \<le> 12" "1 \<le> d" "d \<le> 31" "h < 24" "mi < 60" "sec < 60"
    "int (ms div 1000) = days_from_civil (int y) (int m) (int d) * 86400 + int h * 3600 + int mi * 60 + int sec"
proof -
  let ?r = "ms div 1000 mod 86400"
  have r: "?r < 86400" by simp
  note sp = day_split [OF r]
  obtain y m d where c: "civil_from_days (int (ms div 1000 div 86400)) = (int y, int m, int d)"
    and b: "y < 10000" "1 \<le> m" "m \<le> 12" "1 \<le> d" "d \<le> 31"
    and s: "now_timestamp_like ms = stamp y m d (?r div 3600) (?r mod 3600 div 60) (?r mod 60) (ms mod 1000)"
    using now_timestamp_like_stamp [OF assms] .
  have "ms div 1000 = ms div 1000 div 86400 * 86400 + (?r div 3600 * 3600 + ?r mod 3600 div 60 * 60 + ?r mod 60)"
    unfolding sp(4) by (rule div_mult_mod_eq [symmetric])
  hence "int (ms div 1000) = int (ms div 1000 div 86400) * 86400 + int (?r div 3600) * 3600 + int (?r mod 3600 div 60) * 60 + int (?r mod 60)"
    by linarith
  hence "int (ms div 1000) = days_from_civil (int y) (int m) (int d) * 86400 + int (?r div 3600) * 3600 + int (?r mod 3600 div 60) * 60 + int (?r mod 60)"
    unfolding civil_from_days_fields(5) [OF c] .
  with s b sp(1-3) show thesis by (rule that)
qed

lemma civil_from_days_euclid_eq: "civil_from_days_euclid d = civil_from_days d"
  by (simp add: civil_from_days_euclid_def civil_from_days_div Let_def)

lemma timestamp_readback:
  assumes "ms < 253402300800000"
  shows "is_rfc3339_timestamp (now_timestamp_like ms) \<and> parse_rfc3339 (now_timestamp_like ms) = Some ms
     \<and> parse_rfc3339_utc (now_timestamp_like ms) = Some (Ok ms)"
proof -
  obtain y m d h mi sec where s: "now_timestamp_like ms = stamp y m d h mi sec (ms mod 1000)"
    and b: "y < 10000" "1 \<le> m" "m \<le> 12" "1 \<le> d" "d \<le> 31" "h < 24" "mi < 60" "sec < 60"
    and t: "int (ms div 1000) = days_from_civil (int y) (int m) (int d) * 86400 + int h * 3600 + int mi * 60 + int sec"
    using timestamp_instant [OF assms] .
  have r: "ms mod 1000 < 1000" by simp
  have "ms div 1000 < 9000000000000000" using assms by (simp add: less_mult_imp_div_less)
  thus ?thesis
    unfolding s using is_rfc3339_stamp [OF b r] parse_rfc3339_stamp [OF b r t] parse_rfc3339_utc_stamp [OF b r t]
    by (simp add: div_mult_mod_eq)
qed

lemma now_timestamp_like_valid: "ms < 253402300800000 \<Longrightarrow> is_rfc3339_timestamp (now_timestamp_like ms)"
  using timestamp_readback by blast

lemma parse_rfc3339_utc_now: "ms < 253402300800000 \<Longrightarrow> parse_rfc3339_utc (now_timestamp_like ms) = Some (Ok ms)"
  using timestamp_readback by blast

section \<open>Properties\<close>

text \<open>
  C19. The date conversion of the daemon is the Gregorian calendar: day zero is the first of January 1970, and the
  date of the next day is the calendar successor (month lengths, leap years) of the date of the day, for all days.
\<close>

theorem civil_from_days_gregorian:
  "civil_from_days 0 = (1970, 1, 1) \<and> (\<forall>d. civil_from_days (d + 1) = next_date (civil_from_days d))
   \<and> (\<forall>d. case civil_from_days d of (y, m, dd) \<Rightarrow> days_from_civil y m dd = d)"
proof (intro conjI allI)
  show "civil_from_days 0 = (1970, 1, 1)" by code_simp
  show "civil_from_days (d + 1) = next_date (civil_from_days d)" for d by (rule civil_from_days_next)
  show "case civil_from_days d of (y, m, dd) \<Rightarrow> days_from_civil y m dd = d" for d
    by (cases "civil_from_days d") (simp add: civil_from_days_fields(5))
qed

text \<open>
  The four timestamp formatters (wire envelopes, negotiation history, DSH usage, Shell usage) print the same
  text for the same instant.
\<close>

lemma timestamp_formatters_agree:
  "rfc3339_at (ms div 1000) (ms mod 1000) = now_timestamp_like ms \<and> unix_ms_to_rfc3339 ms = now_timestamp_like ms
   \<and> format_utc ms = now_timestamp_like ms"
proof -
  define secs rest where "secs = ms div 1000" and "rest = secs mod 86400"
  have days: "ms div 86400000 = secs div 86400" by (simp add: secs_def div_mult2_eq [symmetric])
  have r: "ms mod 86400000 = 1000 * rest + ms mod 1000"
    using mod_mult2_eq [of ms 1000 86400] by (simp add: rest_def secs_def)
  have h: "(1000 * rest + ms mod 1000) div 3600000 = rest div 3600"
    using div_mult2_eq [of "1000 * rest + ms mod 1000" 1000 3600] by simp
  have m: "(1000 * rest + ms mod 1000) div 60000 = rest div 60"
    using div_mult2_eq [of "1000 * rest + ms mod 1000" 1000 60] by simp
  have m': "rest div 60 mod 60 = rest mod 3600 div 60"
    using mod_mult2_eq [of rest 60 60] by simp
  have rm: "(1000 * rest + ms mod 1000) mod 3600000 = 1000 * (rest mod 3600) + ms mod 1000"
    using mod_mult2_eq [of "1000 * rest + ms mod 1000" 1000 3600] by simp
  have rs: "(1000 * (rest mod 3600) + ms mod 1000) mod 60000 = 1000 * (rest mod 60) + ms mod 1000"
    using mod_mult2_eq [of "1000 * (rest mod 3600) + ms mod 1000" 1000 60] by (simp add: mod_mod_cancel)
  have rd: "(1000 * (rest mod 3600) + ms mod 1000) div 60000 = rest mod 3600 div 60"
    using div_mult2_eq [of "1000 * (rest mod 3600) + ms mod 1000" 1000 60] by simp
  have a: "rfc3339_at secs (ms mod 1000) = now_timestamp_like ms"
    by (simp only: rfc3339_at_def now_timestamp_like_def civil_from_days_euclid_eq Let_def secs_def)
  have b: "unix_ms_to_rfc3339 ms = now_timestamp_like ms"
    unfolding unix_ms_to_rfc3339_def now_timestamp_like_def Let_def civil_from_days_euclid_eq secs_def [symmetric] days r h m m'
      rest_def [symmetric] by simp
  have c: "format_utc ms = now_timestamp_like ms"
    unfolding format_utc_def now_timestamp_like_def Let_def secs_def [symmetric] days r h rm rs rd rest_def [symmetric] by simp
  show ?thesis using a b c by (simp only: secs_def)
qed

text \<open>
  C20. A timestamp written for an instant before the year 10000 passes the envelope validator, and the scheduler's
  parser and the Shell's parser both read the instant back, to the millisecond.
\<close>

theorem timestamp_roundtrip:
  assumes "ms < 253402300800000"
  shows "is_rfc3339_timestamp (now_timestamp_like ms) \<and> parse_rfc3339 (now_timestamp_like ms) = Some ms
     \<and> parse_rfc3339_utc (now_timestamp_like ms) = Some (Ok ms)"
  using assms by (rule timestamp_readback)

theorem timestamp_roundtrip_witness:
  "is_rfc3339_timestamp (now_timestamp_like 1788168600123) \<and> parse_rfc3339 (now_timestamp_like 1788168600123) = Some 1788168600123
   \<and> parse_rfc3339_utc (now_timestamp_like 1788168600123) = Some (Ok 1788168600123)"
  by (rule timestamp_roundtrip) simp

text \<open>
  The Shell's parser, documented to fail closed on anything but the daemon's form, does not: it never looks at the
  two date separators, and a long fraction makes it panic instead of returning an error.
\<close>

lemma parse_rfc3339_utc_not_closed:
  "parse_rfc3339_utc ''2026x08?31T09:30:00Z'' = parse_rfc3339_utc ''2026-08-31T09:30:00Z''
   \<and> (\<exists>t. parse_rfc3339_utc ''2026-08-31T09:30:00Z'' = Some (Ok t))
   \<and> parse_rfc3339_utc ''2026-08-31T09:30:00.99999999999999999Z'' = None"
proof (intro conjI exI)
  note d = parse_rfc3339_utc_def utc_bind_def utc_digit_def utc_fraction_def char_boundary_def is_ascii_digit_def byte_of_def
    is_continuation_def digits_val_def digit_val_def Let_def u64_max_def
  have x: "parse_rfc3339_utc ''2026-08-31T09:30:00Z'' = Some (Ok (nat (max (days_from_civil 2026 8 31 * 86400 + 34200) 0) * 1000))"
    by (simp add: d)
  thus "parse_rfc3339_utc ''2026-08-31T09:30:00Z'' = Some (Ok (nat (max (days_from_civil 2026 8 31 * 86400 + 34200) 0) * 1000))" .
  show "parse_rfc3339_utc ''2026x08?31T09:30:00Z'' = parse_rfc3339_utc ''2026-08-31T09:30:00Z''"
    unfolding x by (simp add: d)
  show "parse_rfc3339_utc ''2026-08-31T09:30:00.99999999999999999Z'' = None" by (simp add: d)
qed

end
