(* ===== verification/Bootstrap.thy ===== *)
theory Bootstrap
  imports Credentials Timestamps
begin

text \<open>
  The daemon's startup and its bootstrap credential file (\<^verbatim>\<open>crates/daemon/src/{main,credential,singleton}.rs\<close> and the
  credential-file part of \<^verbatim>\<open>server.rs\<close>): command line, data directory, the file's content, its reissue and its freshness
  maintenance. Times are milliseconds. A path is the list of its components; the environment is a function from
  variable names; a successful write replaces the file on disk, a failing one leaves it.
\<close>

section \<open>Data directory\<close>

type_synonym path = "string list"

definition DATA_DIR_NAME :: string where
  "DATA_DIR_NAME = ''dev.dsh.desktop-shell''"

definition CREDENTIAL_FILE_NAME :: string where
  "CREDENTIAL_FILE_NAME = ''daemon-credential.json''"

definition LOCK_FILE_NAME :: string where
  "LOCK_FILE_NAME = ''daemon.lock''"

definition CATALOG_FILE_NAME :: string where
  "CATALOG_FILE_NAME = ''environment-catalog-v1.json''"

definition CLAIM_PORT :: nat where
  "CLAIM_PORT = 37771"

definition CREDENTIAL_FILE_SCHEMA_VERSION :: nat where
  "CREDENTIAL_FILE_SCHEMA_VERSION = 3"

type_synonym environment = "string \<Rightarrow> path option"

definition env_dir :: "environment \<Rightarrow> string \<Rightarrow> path option" where
  "env_dir E var = (case E var of Some d \<Rightarrow> if d = [] then None else Some d | None \<Rightarrow> None)"

text \<open>The Unix build.\<close>

definition data_dir :: "environment \<Rightarrow> (path, string) result" where
  "data_dir E =
     (case env_dir E ''DSH_DAEMON_DATA_DIR'' of Some d \<Rightarrow> Ok d | None \<Rightarrow>
     (case env_dir E ''APPDATA'' of Some d \<Rightarrow> Ok (d @ [DATA_DIR_NAME]) | None \<Rightarrow>
     (case env_dir E ''LOCALAPPDATA'' of Some d \<Rightarrow> Ok (d @ [DATA_DIR_NAME]) | None \<Rightarrow>
     (case env_dir E ''XDG_DATA_HOME'' of Some d \<Rightarrow> Ok (d @ [DATA_DIR_NAME]) | None \<Rightarrow>
     (case env_dir E ''HOME'' of Some d \<Rightarrow> Ok (d @ [''.local'', ''share'', DATA_DIR_NAME]) | None \<Rightarrow>
        Err ''no daemon data directory: set DSH_DAEMON_DATA_DIR, XDG_DATA_HOME or HOME'')))))"

definition default_catalog_path :: "environment \<Rightarrow> (path, string) result" where
  "default_catalog_path E = (case data_dir E of Ok d \<Rightarrow> Ok (d @ [CATALOG_FILE_NAME]) | Err e \<Rightarrow> Err e)"

section \<open>Command line\<close>

record cli_options =
  cli_data_dir :: "path option"
  cli_claim_port :: "nat option"
  cli_policy_off :: bool

datatype cli = Cli_Run cli_options | Cli_Exit nat

definition parse_port :: "string \<Rightarrow> nat option" where
  "parse_port s =
     (let digits = (case s of c # r \<Rightarrow> if c = CHR ''+'' then r else s | [] \<Rightarrow> s)
      in if digits = [] \<or> \<not> list_all is_ascii_digit digits \<or> 65535 < digits_val digits then None else Some (digits_val digits))"

text \<open>The argument loop; \<open>to_path\<close> turns an argument into a path.\<close>

fun parse_args :: "(string \<Rightarrow> path) \<Rightarrow> string list \<Rightarrow> cli_options \<Rightarrow> cli" where
  "parse_args to_path [] o' = Cli_Run o'"
| "parse_args to_path (a # as) o' =
     (if a = ''--data-dir'' then
        (case as of [] \<Rightarrow> Cli_Exit 2 | v # rest \<Rightarrow> parse_args to_path rest (o'\<lparr>cli_data_dir := Some (to_path v)\<rparr>))
      else if a = ''--claim-port'' then
        (case as of [] \<Rightarrow> Cli_Exit 2
         | v # rest \<Rightarrow> (case parse_port v of Some p \<Rightarrow> parse_args to_path rest (o'\<lparr>cli_claim_port := Some p\<rparr>) | None \<Rightarrow> Cli_Exit 2))
      else if a = ''--peer-identity-policy'' then
        (case as of [] \<Rightarrow> Cli_Exit 2
         | v # rest \<Rightarrow>
             if v = ''strict'' then parse_args to_path rest (o'\<lparr>cli_policy_off := False\<rparr>)
             else if v = ''off'' then parse_args to_path rest (o'\<lparr>cli_policy_off := True\<rparr>)
             else Cli_Exit 2)
      else if a = ''--version'' \<or> a = ''-h'' \<or> a = ''--help'' then Cli_Exit 0
      else Cli_Exit 2)"

section \<open>The credential file\<close>

datatype CarrierEndpoint = NamedPipe string | UnixSocket string

definition carrier_describe :: "CarrierEndpoint \<Rightarrow> string" where
  "carrier_describe c = (case c of NamedPipe n \<Rightarrow> ''pipe:'' @ n | UnixSocket p \<Rightarrow> ''uds:'' @ p)"

record FileCredential =
  fc_token :: string
  fc_expires_at :: string

record CredentialFile =
  cf_schema_version :: nat
  cf_daemon_version :: string
  cf_pid :: nat
  cf_claim_port :: nat
  cf_port :: nat
  cf_pipe_name :: "string option"
  cf_socket_path :: "string option"
  cf_credential :: FileCredential
  cf_issued_at :: string

definition new_credential_file :: "string \<Rightarrow> nat \<Rightarrow> nat \<Rightarrow> nat \<Rightarrow> string \<Rightarrow> nat \<Rightarrow> nat \<Rightarrow> CredentialFile" where
  "new_credential_file version pid claim_port port token expires_at issued_at =
     \<lparr>cf_schema_version = CREDENTIAL_FILE_SCHEMA_VERSION, cf_daemon_version = version, cf_pid = pid,
      cf_claim_port = claim_port, cf_port = port, cf_pipe_name = None, cf_socket_path = None,
      cf_credential = \<lparr>fc_token = token, fc_expires_at = now_timestamp_like expires_at\<rparr>,
      cf_issued_at = now_timestamp_like issued_at\<rparr>"

definition with_carrier :: "CarrierEndpoint option \<Rightarrow> CredentialFile \<Rightarrow> CredentialFile" where
  "with_carrier c file =
     (case c of
        Some (NamedPipe name) \<Rightarrow> file\<lparr>cf_pipe_name := Some name\<rparr>
      | Some (UnixSocket p) \<Rightarrow> file\<lparr>cf_socket_path := Some p\<rparr>
      | None \<Rightarrow> file)"

section \<open>Issue and maintenance\<close>

definition LEASE_MILLIS :: nat where
  "LEASE_MILLIS = 3600 * 1000"

definition BOOTSTRAP_REFRESH_LEAD :: nat where
  "BOOTSTRAP_REFRESH_LEAD = 60 * 1000"

record Bootstrap =
  bs_transport :: ServerState
  bs_dir :: "path option"
  bs_carrier :: "CarrierEndpoint option"
  bs_version :: string
  bs_pid :: nat
  bs_claim_port :: nat
  bs_port :: nat
  bs_file_expiry :: "nat option"
  bs_disk :: "CredentialFile option"

text \<open>One call: the random bytes, the clock readings it makes, and whether the write succeeds.\<close>

record issue_inputs =
  ii_bytes :: "u8 list"
  ii_issue_now :: nat
  ii_sweep_now :: nat
  ii_stamp_now :: nat
  ii_write_ok :: bool

definition issue_bootstrap_credential_file ::
  "issue_inputs \<Rightarrow> nat \<Rightarrow> Bootstrap \<Rightarrow> (CredentialFile option, unit) result \<times> Bootstrap" where
  "issue_bootstrap_credential_file i ttl bs =
     (case bs_dir bs of
        None \<Rightarrow> (Ok None, bs)
      | Some dir \<Rightarrow>
          (case issue_credential (ii_bytes i) (ii_issue_now i) ttl (ii_sweep_now i) (bs_transport bs) of
             (credential, transport) \<Rightarrow>
               let bs1 = bs\<lparr>bs_transport := transport\<rparr>;
                   file = with_carrier (bs_carrier bs)
                     (new_credential_file (bs_version bs) (bs_pid bs) (bs_claim_port bs) (bs_port bs)
                        (cred_token credential) (cred_expires_at credential) (ii_stamp_now i))
               in if ii_write_ok i then
                    (Ok (Some file), bs1\<lparr>bs_disk := Some file, bs_file_expiry := Some (cred_expires_at credential)\<rparr>)
                  else (Err (), bs1)))"

definition reissue_credential_file :: "issue_inputs \<Rightarrow> Bootstrap \<Rightarrow> Bootstrap" where
  "reissue_credential_file i bs = snd (issue_bootstrap_credential_file i LEASE_MILLIS bs)"

definition maintain_due :: "nat \<Rightarrow> Bootstrap \<Rightarrow> bool" where
  "maintain_due now bs =
     (let file_missing = (bs_dir bs \<noteq> None \<and> bs_disk bs = None);
          expiring = (case bs_file_expiry bs of
              Some expiry \<Rightarrow> expiry - now \<le> BOOTSTRAP_REFRESH_LEAD
            | None \<Rightarrow> True)
      in file_missing \<or> expiring)"

definition maintain_bootstrap_credential :: "nat \<Rightarrow> issue_inputs \<Rightarrow> Bootstrap \<Rightarrow> Bootstrap" where
  "maintain_bootstrap_credential now i bs =
     (if maintain_due now bs then snd (issue_bootstrap_credential_file i LEASE_MILLIS bs) else bs)"

section \<open>Startup\<close>

text \<open>
  What \<open>main\<close> derives from the command line and the environment before it serves: the directory of the lock file and of the
  banner, and the directory the server writes the credential file into (the parent of the catalog path).
\<close>

record startup =
  su_lock_dir :: path
  su_banner_file :: path
  su_credential_dir :: path
  su_claim_port :: nat
  su_policy_off :: bool

definition startup_plan :: "(string \<Rightarrow> path) \<Rightarrow> environment \<Rightarrow> string list \<Rightarrow> (startup, nat) result" where
  "startup_plan to_path E args =
     (case parse_args to_path args \<lparr>cli_data_dir = None, cli_claim_port = None, cli_policy_off = False\<rparr> of
        Cli_Exit code \<Rightarrow> Err code
      | Cli_Run o' \<Rightarrow>
          (case (case cli_data_dir o' of Some d \<Rightarrow> Ok d | None \<Rightarrow> data_dir E) of
             Err _ \<Rightarrow> Err 1
           | Ok dir \<Rightarrow>
               (case default_catalog_path E of
                  Err _ \<Rightarrow> Err 1
                | Ok catalog \<Rightarrow>
                    Ok \<lparr>su_lock_dir = dir, su_banner_file = dir @ [CREDENTIAL_FILE_NAME],
                        su_credential_dir = butlast catalog,
                        su_claim_port = (case cli_claim_port o' of Some p \<Rightarrow> p | None \<Rightarrow> CLAIM_PORT),
                        su_policy_off = cli_policy_off o'\<rparr>)))"

section \<open>Histories\<close>

text \<open>
  What happens to the registry and the file: reissues, maintenance calls and handshakes, with the tokens presented since they
  were minted and the latest clock reading. The clock does not run backwards and stays before the year 10000.
\<close>

type_synonym boot_state = "Bootstrap \<times> string set \<times> nat"

datatype boot_op = Boot_Reissue issue_inputs | Boot_Maintain nat issue_inputs | Boot_Present string nat

definition minted :: "issue_inputs \<Rightarrow> string" where
  "minted i = TOKEN_PREFIX @ hex (ii_bytes i)"

definition inputs_ok :: "nat \<Rightarrow> issue_inputs \<Rightarrow> bool" where
  "inputs_ok clk i = (length (ii_bytes i) = 16 \<and> clk \<le> ii_issue_now i \<and> ii_issue_now i \<le> ii_sweep_now i \<and>
     ii_sweep_now i \<le> ii_stamp_now i \<and> ii_stamp_now i + LEASE_MILLIS < 253402300800000)"

fun boot_ok :: "nat \<Rightarrow> boot_op \<Rightarrow> bool" where
  "boot_ok clk (Boot_Reissue i) = inputs_ok clk i"
| "boot_ok clk (Boot_Maintain now i) = (clk \<le> now \<and> inputs_ok now i)"
| "boot_ok clk (Boot_Present token t) = (clk \<le> t)"

fun boot_exec :: "boot_op \<Rightarrow> boot_state \<Rightarrow> boot_state" where
  "boot_exec (Boot_Reissue i) (bs, P, clk) =
     (reissue_credential_file i bs, if bs_dir bs = None then P else P - {minted i}, ii_stamp_now i)"
| "boot_exec (Boot_Maintain now i) (bs, P, clk) =
     (maintain_bootstrap_credential now i bs,
      if maintain_due now bs \<and> bs_dir bs \<noteq> None then P - {minted i} else P, ii_stamp_now i)"
| "boot_exec (Boot_Present token t) (bs, P, clk) =
     (bs\<lparr>bs_transport := snd (authenticate token t (bs_transport bs))\<rparr>, insert token P, t)"

inductive boot_step :: "boot_state \<Rightarrow> boot_op \<Rightarrow> boot_state \<Rightarrow> bool" where
  boot_stepI: "boot_ok (snd (snd s)) e \<Longrightarrow> boot_step s e (boot_exec e s)"

inductive_cases boot_stepE [elim!]: "boot_step s e s'"

text \<open>
  The file on disk carries the recorded expiry, and unless its token was presented or is past its expiry, the registry holds
  it unused with an expiry no earlier than the one written.
\<close>

definition boot_inv :: "boot_state \<Rightarrow> bool" where
  "boot_inv s = (case s of (bs, P, clk) \<Rightarrow>
     hm_wf (srv_credentials (bs_transport bs)) \<and>
     (\<forall>f. bs_disk bs = Some f \<longrightarrow>
        (\<exists>e. bs_file_expiry bs = Some e \<and> fc_expires_at (cf_credential f) = now_timestamp_like e \<and>
          e < 253402300800000 \<and> e \<le> clk + LEASE_MILLIS \<and> is_valid_format (fc_token (cf_credential f)) \<and>
          (fc_token (cf_credential f) \<in> P \<or> e \<le> clk \<or>
           (\<exists>e'. e \<le> e' \<and> hm_get (srv_credentials (bs_transport bs)) (fc_token (cf_credential f)) =
              Some \<lparr>ic_expires_at = e', ic_used = False\<rparr>)))))"

section \<open>Lemmas\<close>

lemma with_carrier_fields [simp]:
  "cf_credential (with_carrier c f) = cf_credential f"
  by (simp add: with_carrier_def split: option.splits CarrierEndpoint.splits)

lemma issue_registry:
  assumes "issue_credential bytes n ttl now s = (c, s')" "hm_wf (srv_credentials s)"
  shows "cred_token c = TOKEN_PREFIX @ hex bytes" "cred_expires_at c = n + ttl" "hm_wf (srv_credentials s')"
    "hm_get (srv_credentials s') (cred_token c) = Some \<lparr>ic_expires_at = n + ttl, ic_used = False\<rparr>"
    "\<And>t entry. t \<noteq> cred_token c \<Longrightarrow> hm_get (srv_credentials s) t = Some entry \<Longrightarrow> \<not> ic_used entry \<Longrightarrow>
       now < ic_expires_at entry \<Longrightarrow> hm_get (srv_credentials s') t = Some entry"
  using assms
  by (auto simp: issue_credential_def Let_def issue_def hm_get_insert hm_get_retain hm_wf_insert hm_wf_retain)

lemma issue_boot_inv:
  assumes inv0: "boot_inv (bs, P, clk)" and i: "inputs_ok clk i" and dir: "bs_dir bs \<noteq> None"
  shows "boot_inv (snd (issue_bootstrap_credential_file i LEASE_MILLIS bs), P - {minted i}, ii_stamp_now i)"
proof -
  obtain c tr where iss: "issue_credential (ii_bytes i) (ii_issue_now i) LEASE_MILLIS (ii_sweep_now i) (bs_transport bs) = (c, tr)"
    by fastforce
  have wf: "hm_wf (srv_credentials (bs_transport bs))" using inv0 by (simp add: boot_inv_def)
  note r = issue_registry [OF iss wf]
  have tok: "cred_token c = minted i" using r(1) by (simp add: minted_def)
  have fmt: "is_valid_format (minted i)"
    using issued_format [of "ii_bytes i" 0 0] i by (simp add: inputs_ok_def minted_def issue_def)
  show ?thesis
  proof (cases "ii_write_ok i")
    case True
    thus ?thesis
      using dir iss r(2-4) tok fmt i
      by (auto simp: issue_bootstrap_credential_file_def boot_inv_def Let_def new_credential_file_def inputs_ok_def)
  next
    case False
    hence bs': "snd (issue_bootstrap_credential_file i LEASE_MILLIS bs) = bs\<lparr>bs_transport := tr\<rparr>"
      using dir iss by (auto simp: issue_bootstrap_credential_file_def Let_def)
    have "\<exists>e. bs_file_expiry bs = Some e \<and> fc_expires_at (cf_credential f) = now_timestamp_like e \<and>
        e < 253402300800000 \<and> e \<le> ii_stamp_now i + LEASE_MILLIS \<and> is_valid_format (fc_token (cf_credential f)) \<and>
        (fc_token (cf_credential f) \<in> P - {minted i} \<or> e \<le> ii_stamp_now i \<or>
         (\<exists>e'. e \<le> e' \<and> hm_get (srv_credentials tr) (fc_token (cf_credential f)) = Some \<lparr>ic_expires_at = e', ic_used = False\<rparr>))"
      if f: "bs_disk bs = Some f" for f
    proof -
      let ?t = "fc_token (cf_credential f)"
      obtain e where e: "bs_file_expiry bs = Some e" "fc_expires_at (cf_credential f) = now_timestamp_like e"
          "e < 253402300800000" "e \<le> clk + LEASE_MILLIS" "is_valid_format ?t"
        and alt: "?t \<in> P \<or> e \<le> clk \<or> (\<exists>e'. e \<le> e' \<and> hm_get (srv_credentials (bs_transport bs)) ?t =
            Some \<lparr>ic_expires_at = e', ic_used = False\<rparr>)"
        using inv0 f by (auto simp: boot_inv_def)
      have clk: "clk \<le> ii_issue_now i" "ii_sweep_now i \<le> ii_stamp_now i" "clk \<le> ii_stamp_now i"
        using i by (auto simp: inputs_ok_def)
      have "?t \<in> P - {minted i} \<or> e \<le> ii_stamp_now i \<or>
         (\<exists>e'. e \<le> e' \<and> hm_get (srv_credentials tr) ?t = Some \<lparr>ic_expires_at = e', ic_used = False\<rparr>)"
      proof (cases "?t = minted i")
        case True
        thus ?thesis using r(4) tok e(4) clk by auto
      next
        case other: False
        show ?thesis
        proof (cases "?t \<in> P \<or> e \<le> clk")
          case True
          thus ?thesis using other clk by auto
        next
          case False
          then obtain e' where e': "e \<le> e'" "hm_get (srv_credentials (bs_transport bs)) ?t = Some \<lparr>ic_expires_at = e', ic_used = False\<rparr>"
            using alt by auto
          show ?thesis
          proof (cases "e \<le> ii_stamp_now i")
            case False
            hence "ii_sweep_now i < e'" using e'(1) clk by simp
            hence "hm_get (srv_credentials tr) ?t = Some \<lparr>ic_expires_at = e', ic_used = False\<rparr>"
              using r(5) [of ?t] other tok e'(2) by simp
            thus ?thesis using e'(1) by blast
          qed simp
        qed
      qed
      thus ?thesis using e clk by auto
    qed
    thus ?thesis unfolding bs' using r(3) by (simp add: boot_inv_def)
  qed
qed

lemma boot_inv_clock:
  assumes "boot_inv (bs, P, clk)" "clk \<le> clk'"
  shows "boot_inv (bs, P, clk')"
  unfolding boot_inv_def prod.case
proof (intro conjI allI impI)
  show "hm_wf (srv_credentials (bs_transport bs))" using assms(1) by (simp add: boot_inv_def)
  fix f
  assume "bs_disk bs = Some f"
  then obtain e where e: "bs_file_expiry bs = Some e" "fc_expires_at (cf_credential f) = now_timestamp_like e"
      "e < 253402300800000" "e \<le> clk + LEASE_MILLIS" "is_valid_format (fc_token (cf_credential f))"
    and alt: "fc_token (cf_credential f) \<in> P \<or> e \<le> clk \<or>
      (\<exists>e'. e \<le> e' \<and> hm_get (srv_credentials (bs_transport bs)) (fc_token (cf_credential f)) =
         Some \<lparr>ic_expires_at = e', ic_used = False\<rparr>)"
    using assms(1) by (auto simp: boot_inv_def)
  have "e \<le> clk' + LEASE_MILLIS" "e \<le> clk \<Longrightarrow> e \<le> clk'" using e(4) assms(2) by simp_all
  thus "\<exists>e. bs_file_expiry bs = Some e \<and> fc_expires_at (cf_credential f) = now_timestamp_like e \<and>
      e < 253402300800000 \<and> e \<le> clk' + LEASE_MILLIS \<and> is_valid_format (fc_token (cf_credential f)) \<and>
      (fc_token (cf_credential f) \<in> P \<or> e \<le> clk' \<or>
       (\<exists>e'. e \<le> e' \<and> hm_get (srv_credentials (bs_transport bs)) (fc_token (cf_credential f)) =
          Some \<lparr>ic_expires_at = e', ic_used = False\<rparr>))"
    using e alt by blast
qed

lemma authenticate_others:
  assumes "hm_wf (srv_credentials s)"
  shows "hm_wf (srv_credentials (snd (authenticate token t s)))"
    "token' \<noteq> token \<Longrightarrow> hm_get (srv_credentials (snd (authenticate token t s))) token' = hm_get (srv_credentials s) token'"
  using assms by (auto simp: authenticate_def hm_get_insert hm_get_remove hm_wf_insert hm_wf_remove split: option.splits)

lemma present_boot_inv:
  assumes "boot_inv (bs, P, clk)" "clk \<le> t"
  shows "boot_inv (bs\<lparr>bs_transport := snd (authenticate token t (bs_transport bs))\<rparr>, insert token P, t)"
proof -
  have inv': "boot_inv (bs, P, t)" using assms by (rule boot_inv_clock)
  hence wf: "hm_wf (srv_credentials (bs_transport bs))" by (simp add: boot_inv_def)
  note a = authenticate_others [OF wf, where token = token and t = t]
  show ?thesis
    unfolding boot_inv_def prod.case
  proof (intro conjI allI impI)
    show "hm_wf (srv_credentials (bs_transport (bs\<lparr>bs_transport := snd (authenticate token t (bs_transport bs))\<rparr>)))"
      using a(1) by simp
    fix f
    assume f: "bs_disk (bs\<lparr>bs_transport := snd (authenticate token t (bs_transport bs))\<rparr>) = Some f"
    then obtain e where "bs_file_expiry bs = Some e" "fc_expires_at (cf_credential f) = now_timestamp_like e"
        "e < 253402300800000" "e \<le> t + LEASE_MILLIS" "is_valid_format (fc_token (cf_credential f))"
        "fc_token (cf_credential f) \<in> P \<or> e \<le> t \<or>
          (\<exists>e'. e \<le> e' \<and> hm_get (srv_credentials (bs_transport bs)) (fc_token (cf_credential f)) =
             Some \<lparr>ic_expires_at = e', ic_used = False\<rparr>)"
      using inv' by (auto simp: boot_inv_def)
    thus "\<exists>e. bs_file_expiry (bs\<lparr>bs_transport := snd (authenticate token t (bs_transport bs))\<rparr>) = Some e \<and>
        fc_expires_at (cf_credential f) = now_timestamp_like e \<and> e < 253402300800000 \<and> e \<le> t + LEASE_MILLIS \<and>
        is_valid_format (fc_token (cf_credential f)) \<and>
        (fc_token (cf_credential f) \<in> insert token P \<or> e \<le> t \<or>
         (\<exists>e'. e \<le> e' \<and> hm_get (srv_credentials (bs_transport (bs\<lparr>bs_transport := snd (authenticate token t (bs_transport bs))\<rparr>)))
            (fc_token (cf_credential f)) = Some \<lparr>ic_expires_at = e', ic_used = False\<rparr>))"
      using a(2) [where token' = "fc_token (cf_credential f)"] by (cases "fc_token (cf_credential f) = token") auto
  qed
qed

lemma issue_no_dir: "bs_dir bs = None \<Longrightarrow> issue_bootstrap_credential_file i ttl bs = (Ok None, bs)"
  by (simp add: issue_bootstrap_credential_file_def)

lemma boot_step_inv:
  assumes "boot_inv s" "boot_step s e s'"
  shows "boot_inv s'"
proof -
  obtain bs P clk where s: "s = (bs, P, clk)" by (cases s) auto
  have ok: "boot_ok clk e" and s': "s' = boot_exec e (bs, P, clk)" using assms(2) s by auto
  show ?thesis
  proof (cases e)
    case (Boot_Reissue i)
    hence i: "inputs_ok clk i" "clk \<le> ii_stamp_now i" using ok by (auto simp: inputs_ok_def)
    show ?thesis
      using issue_boot_inv [of bs P clk i] boot_inv_clock [of bs P clk "ii_stamp_now i"] i assms(1)
      by (cases "bs_dir bs = None") (simp_all add: s' s Boot_Reissue reissue_credential_file_def issue_no_dir)
  next
    case (Boot_Maintain now i)
    hence i: "inputs_ok now i" "clk \<le> now" "clk \<le> ii_stamp_now i" using ok by (auto simp: inputs_ok_def)
    have now: "boot_inv (bs, P, now)" using assms(1) i(2) s boot_inv_clock by blast
    show ?thesis
      using issue_boot_inv [OF now i(1)] boot_inv_clock [of bs P clk "ii_stamp_now i"] i assms(1)
      by (cases "bs_dir bs = None"; cases "maintain_due now bs")
        (simp_all add: s' s Boot_Maintain maintain_bootstrap_credential_def issue_no_dir)
  next
    case (Boot_Present token t)
    thus ?thesis using present_boot_inv [of bs P clk t token] assms(1) ok s by (simp add: s')
  qed
qed

interpretation boot: preserved boot_step boot_inv
  by unfold_locales (rule boot_step_inv)

lemma boot_dir:
  assumes "run boot_step s es s'"
  shows "bs_dir (fst s') = bs_dir (fst s)"
  using assms
proof (induction rule: run.induct)
  case (run_cons s e t es u)
  obtain bs P clk where s: "s = (bs, P, clk)" by (cases s) auto
  have "t = boot_exec e (bs, P, clk)" using run_cons(1) s by auto
  hence "bs_dir (fst t) = bs_dir (fst s)"
    by (cases e)
      (auto simp: s reissue_credential_file_def maintain_bootstrap_credential_def issue_bootstrap_credential_file_def Let_def
        split: option.splits prod.splits)
  thus ?case using run_cons by simp
qed simp

lemma maintained_expiry:
  assumes inv0: "boot_inv (bs, P, clk)" and ok: "boot_ok clk (Boot_Maintain now i)" and "ii_write_ok i" and "bs_dir bs \<noteq> None"
    and s': "boot_exec (Boot_Maintain now i) (bs, P, clk) = (bs', P', clk')"
  shows "\<exists>f e. bs_disk bs' = Some f \<and> bs_file_expiry bs' = Some e \<and> now + BOOTSTRAP_REFRESH_LEAD < e"
proof (cases "maintain_due now bs")
  case True
  thus ?thesis
    using assms
    by (auto simp: maintain_bootstrap_credential_def issue_bootstrap_credential_file_def Let_def inputs_ok_def
        issue_credential_def issue_def BOOTSTRAP_REFRESH_LEAD_def LEASE_MILLIS_def split: option.splits prod.splits)
next
  case False
  thus ?thesis using assms by (auto simp: maintain_due_def maintain_bootstrap_credential_def Let_def split: option.splits)
qed

section \<open>Properties\<close>


definition sample_bootstrap :: Bootstrap where
  "sample_bootstrap = \<lparr>bs_transport = new_server default_limits, bs_dir = Some [''d''], bs_carrier = None, bs_version = ''0'',
     bs_pid = 1, bs_claim_port = 1, bs_port = 1, bs_file_expiry = None, bs_disk = None\<rparr>"

definition sample_inputs :: issue_inputs where
  "sample_inputs = \<lparr>ii_bytes = replicate 16 7, ii_issue_now = 1000, ii_sweep_now = 1000, ii_stamp_now = 1000, ii_write_ok = True\<rparr>"


text \<open>
  The \<^verbatim>\<open>--data-dir\<close> option does not move the credential file: with it the lock file and the banner name the given
  directory, while the server writes the credential file into the directory of the environment.
\<close>

lemma data_dir_option_ignored:
  assumes "startup_plan to_path E [''--data-dir'', v] = Ok plan" and "data_dir E = Ok d"
  shows "su_lock_dir plan = to_path v \<and> su_banner_file plan = to_path v @ [CREDENTIAL_FILE_NAME] \<and> su_credential_dir plan = d"
  using assms by (auto simp: startup_plan_def default_catalog_path_def)

end
