(* ===== verification/Envelope.thy ===== *)
theory Envelope
  imports Timestamps
begin

text \<open>
  The interop envelope of the daemon (\<^verbatim>\<open>crates/daemon/src/envelope.rs\<close>): wire types, frame-level validation,
  identifiers. JSON values are a type variable; what the code asks of \<^verbatim>\<open>serde_json\<close> is the record
  \<open>payload_codec\<close>, a parameter of the definitions. The \<open>issues\<close> vector a validator pushes to is the list it returns.
\<close>

section \<open>Wire types\<close>

definition PROTOCOL :: string where
  "PROTOCOL = ''interop.dsh-desktop.local/v1alpha1''"

definition ID_MIN_LEN :: nat where
  "ID_MIN_LEN = 8"

definition ID_MAX_LEN :: nat where
  "ID_MAX_LEN = 128"

definition ERROR_MESSAGE_MAX_LEN :: nat where
  "ERROR_MESSAGE_MAX_LEN = 512"

datatype EnvelopeKind = Kind_Hello | Kind_Agreement | Kind_Invocation | Kind_Result | Kind_Event

datatype ErrorCode =
    EC_Unavailable
  | EC_Unauthorized
  | EC_UnsupportedVersion
  | EC_NotProcessOwner
  | EC_UserGestureRequired
  | EC_UserDenied
  | EC_StaleGeneration
  | EC_MalformedMessage
  | EC_Conflict
  | EC_Timeout
  | EC_SafeStop

fun error_code_wire :: "ErrorCode \<Rightarrow> string" where
  "error_code_wire EC_Unavailable = ''UNAVAILABLE''"
| "error_code_wire EC_Unauthorized = ''UNAUTHORIZED''"
| "error_code_wire EC_UnsupportedVersion = ''UNSUPPORTED_VERSION''"
| "error_code_wire EC_NotProcessOwner = ''NOT_PROCESS_OWNER''"
| "error_code_wire EC_UserGestureRequired = ''USER_GESTURE_REQUIRED''"
| "error_code_wire EC_UserDenied = ''USER_DENIED''"
| "error_code_wire EC_StaleGeneration = ''STALE_GENERATION''"
| "error_code_wire EC_MalformedMessage = ''MALFORMED_MESSAGE''"
| "error_code_wire EC_Conflict = ''CONFLICT''"
| "error_code_wire EC_Timeout = ''TIMEOUT''"
| "error_code_wire EC_SafeStop = ''SAFE_STOP''"

datatype UnavailableReason = UR_Unavailable | UR_UnsupportedVersion | UR_PolicyDenied | UR_ProviderFailed

record ProtocolCoordinate =
  pc_api_version :: string
  pc_kind :: string

record Participant =
  pa_component :: string
  pa_facet :: string
  pa_activation_id :: "string option"

record ProtocolError =
  pe_code :: ErrorCode
  pe_message :: string
  pe_retryable :: bool
  pe_correlation_id :: string

record Requirement =
  rq_coordinate :: ProtocolCoordinate
  rq_required :: bool

record HelloPayload =
  hp_instance_id :: string
  hp_supports :: "ProtocolCoordinate list"
  hp_requires :: "Requirement list"

record UnavailableCapability =
  uc_coordinate :: ProtocolCoordinate
  uc_reason :: UnavailableReason

record LeaseConstraints =
  lc_max_seconds :: "nat option"
  lc_approval_required :: "bool option"

record AgreementPayload =
  ap_activation_id :: string
  ap_granted :: "ProtocolCoordinate list"
  ap_unavailable :: "UnavailableCapability list"
  ap_lease_constraints :: "LeaseConstraints option"

record 'v Envelope =
  env_protocol :: string
  env_id :: string
  env_kind :: EnvelopeKind
  env_reply_to :: "string option"
  env_participant :: Participant
  env_timestamp :: string
  env_generation :: nat
  env_capability :: "ProtocolCoordinate option"
  env_method :: "string option"
  env_payload :: "'v option"
  env_error :: "ProtocolError option"

text \<open>
  What the code asks of \<^verbatim>\<open>serde_json\<close>: whether a value is an object, typed decoding (with the error text),
  encoding of an Agreement, and the text of an item in \<open>unique_serialized\<close>.
\<close>

record 'v payload_codec =
  jc_is_object :: "'v \<Rightarrow> bool"
  jc_hello :: "'v \<Rightarrow> (HelloPayload, string) result"
  jc_agreement :: "'v \<Rightarrow> (AgreementPayload, string) result"
  jc_of_agreement :: "AgreementPayload \<Rightarrow> 'v"
  jc_coordinate_text :: "ProtocolCoordinate \<Rightarrow> string"
  jc_requirement_text :: "Requirement \<Rightarrow> string"
  jc_unavailable_text :: "UnavailableCapability \<Rightarrow> string"

text \<open>Documented behaviour: distinct items have distinct texts, and an encoded Agreement is an object that decodes to itself.\<close>

definition codec_ok :: "'v payload_codec \<Rightarrow> bool" where
  "codec_ok J = (inj (jc_coordinate_text J) \<and> inj (jc_requirement_text J) \<and> inj (jc_unavailable_text J) \<and>
     (\<forall>a. jc_agreement J (jc_of_agreement J a) = Ok a \<and> jc_is_object J (jc_of_agreement J a)))"

record ValidationIssue =
  vi_path :: string
  vi_message :: string

definition issue_new :: "string \<Rightarrow> string \<Rightarrow> ValidationIssue" where
  "issue_new path message = \<lparr>vi_path = path, vi_message = message\<rparr>"

section \<open>Patterns\<close>

definition valid_method :: "string \<Rightarrow> bool" where
  "valid_method m =
     (case m of
        [] \<Rightarrow> False
      | c # rest \<Rightarrow>
          if is_ascii_lowercase c then
            2 \<le> length m \<and>
            list_all (\<lambda>c. is_ascii_lowercase c \<or> is_ascii_digit c \<or> c = CHR ''.'' \<or> c = CHR ''_'' \<or> c = CHR ''-'') rest
          else False)"

definition valid_api_version :: "string \<Rightarrow> bool" where
  "valid_api_version value =
     (case rsplit_once CHR ''/'' value of
        None \<Rightarrow> False
      | Some (ns, version) \<Rightarrow>
          if ns = [] \<or> \<not> list_all (\<lambda>c. is_ascii_lowercase c \<or> is_ascii_digit c \<or> c = CHR ''.'' \<or> c = CHR ''-'') ns then False
          else (case version of
             [] \<Rightarrow> False
           | v # digits \<Rightarrow>
               if v \<noteq> CHR ''v'' then False
               else if takeWhile is_ascii_digit digits = [] then False
               else
                 (case dropWhile is_ascii_digit digits of
                    [] \<Rightarrow> True
                  | suffix \<Rightarrow>
                      (case (case strip_prefix ''alpha'' suffix of Some r \<Rightarrow> Some r | None \<Rightarrow> strip_prefix ''beta'' suffix) of
                         None \<Rightarrow> False
                       | Some rest \<Rightarrow> rest \<noteq> [] \<and> list_all is_ascii_digit rest))))"

definition valid_coordinate_kind :: "string \<Rightarrow> bool" where
  "valid_coordinate_kind value =
     (case value of
        [] \<Rightarrow> False
      | c # rest \<Rightarrow> if is_ascii_uppercase c then 2 \<le> length value \<and> list_all is_ascii_alphanumeric rest else False)"

section \<open>Validation\<close>

definition forbid :: "bool \<Rightarrow> string \<Rightarrow> string \<Rightarrow> ValidationIssue list" where
  "forbid condition path message = (if condition then [issue_new path message] else [])"

definition id_length_ok :: "string \<Rightarrow> bool" where
  "id_length_ok s = (ID_MIN_LEN \<le> length s \<and> length s \<le> ID_MAX_LEN)"

text \<open>The bound text of the messages; the source writes the format \<^verbatim>\<open>${ID_MIN_LEN}\<close>, so a dollar sign is printed.\<close>

definition id_bounds_text :: string where
  "id_bounds_text = ''$'' @ show_nat ID_MIN_LEN @ ''..=$'' @ show_nat ID_MAX_LEN"

definition validate_reply_to :: "'v Envelope \<Rightarrow> ValidationIssue list" where
  "validate_reply_to env =
     (case env_reply_to env of
        Some r \<Rightarrow>
          if id_length_ok r then []
          else [issue_new ''envelope.replyTo'' (''length '' @ show_nat (length r) @ '' outside '' @ id_bounds_text)]
      | None \<Rightarrow> [issue_new ''envelope.replyTo'' ''missing required \"replyTo\"''])"

definition validate_coordinate :: "ProtocolCoordinate \<Rightarrow> string \<Rightarrow> ValidationIssue list" where
  "validate_coordinate c path =
     (if \<not> valid_api_version (pc_api_version c) then
        [issue_new path (''\"'' @ pc_api_version c @ ''\" does not match ^[a-z0-9.-]+/v[0-9]+(alpha[0-9]+|beta[0-9]+)?$'')]
      else []) @
     (if \<not> valid_coordinate_kind (pc_kind c) then
        [issue_new path (''\"'' @ pc_kind c @ ''\" does not match ^[A-Z][A-Za-z0-9]+$'')]
      else [])"

definition validate_coordinates :: "ProtocolCoordinate list \<Rightarrow> string \<Rightarrow> ValidationIssue list" where
  "validate_coordinates cs path = concat (map (\<lambda>c. validate_coordinate c path) cs)"

definition validate_capability :: "'v Envelope \<Rightarrow> ValidationIssue list" where
  "validate_capability env =
     (case env_capability env of
        Some c \<Rightarrow> validate_coordinate c ''envelope.capability''
      | None \<Rightarrow> [issue_new ''envelope.capability'' ''missing required \"capability\"''])"

definition validate_method :: "'v Envelope \<Rightarrow> ValidationIssue list" where
  "validate_method env =
     (case env_method env of
        Some m \<Rightarrow>
          if valid_method m then []
          else [issue_new ''envelope.method'' (''\"'' @ m @ ''\" does not match ^[a-z][a-z0-9._-]+$'')]
      | None \<Rightarrow> [issue_new ''envelope.method'' ''missing required \"method\"''])"

definition validate_payload_object :: "'v payload_codec \<Rightarrow> 'v Envelope \<Rightarrow> ValidationIssue list" where
  "validate_payload_object J env =
     (case env_payload env of
        Some p \<Rightarrow> if jc_is_object J p then [] else [issue_new ''envelope.payload'' ''payload must be an object'']
      | None \<Rightarrow> [issue_new ''envelope.payload'' ''missing required \"payload\"''])"

definition parse_payload ::
  "('v \<Rightarrow> ('t, string) result) \<Rightarrow> 'v Envelope \<Rightarrow> string \<Rightarrow> 't option \<times> ValidationIssue list" where
  "parse_payload decode env path =
     (case env_payload env of
        None \<Rightarrow> (None, [issue_new path ''missing required \"payload\"''])
      | Some v \<Rightarrow>
          (case decode v of
             Ok t \<Rightarrow> (Some t, [])
           | Err e \<Rightarrow> (None, [issue_new path (''payload does not match shape: '' @ e)])))"

fun unique_serialized :: "('t \<Rightarrow> string) \<Rightarrow> string set \<Rightarrow> 't list \<Rightarrow> bool" where
  "unique_serialized ser seen [] = True"
| "unique_serialized ser seen (x # xs) =
     (if ser x \<in> seen then False else unique_serialized ser (insert (ser x) seen) xs)"

definition unique_issue :: "bool \<Rightarrow> string \<Rightarrow> ValidationIssue list" where
  "unique_issue u path = (if u then [] else [issue_new path ''items must be unique''])"

definition indexed_coordinates :: "string \<Rightarrow> ProtocolCoordinate list \<Rightarrow> ValidationIssue list" where
  "indexed_coordinates path cs =
     concat (map (\<lambda>(i, c). validate_coordinate c (path @ ''['' @ show_nat i @ ''].coordinate'')) (List.enumerate 0 cs))"

definition validate_hello :: "'v payload_codec \<Rightarrow> 'v Envelope \<Rightarrow> ValidationIssue list" where
  "validate_hello J env =
     forbid (env_reply_to env \<noteq> None) ''envelope.replyTo'' ''Hello must not carry replyTo'' @
     forbid (env_capability env \<noteq> None) ''envelope.capability'' ''Hello must not carry capability'' @
     forbid (env_method env \<noteq> None) ''envelope.method'' ''Hello must not carry method'' @
     forbid (env_error env \<noteq> None) ''envelope.error'' ''Hello must not carry error'' @
     (case parse_payload (jc_hello J) env ''envelope.payload'' of
        (None, is) \<Rightarrow> is
      | (Some p, is) \<Rightarrow> is @
          (if \<not> (8 \<le> length (hp_instance_id p) \<and> length (hp_instance_id p) \<le> 128) then
             [issue_new ''envelope.payload.instanceId'' (''length '' @ show_nat (length (hp_instance_id p)) @ '' outside 8..=128'')]
           else []) @
          validate_coordinates (hp_supports p) ''envelope.payload.supports'' @
          unique_issue (unique_serialized (jc_coordinate_text J) {} (hp_supports p)) ''envelope.payload.supports'' @
          indexed_coordinates ''envelope.payload.requires'' (map rq_coordinate (hp_requires p)) @
          unique_issue (unique_serialized (jc_requirement_text J) {} (hp_requires p)) ''envelope.payload.requires'')"

definition lease_issue :: "LeaseConstraints option \<Rightarrow> ValidationIssue list" where
  "lease_issue lc =
     (case lc of
        None \<Rightarrow> []
      | Some c \<Rightarrow>
          (case lc_max_seconds c of
             None \<Rightarrow> []
           | Some n \<Rightarrow>
               if n < 1 then [issue_new ''envelope.payload.leaseConstraints.maxSeconds'' ''minimum 1''] else []))"

definition validate_agreement :: "'v payload_codec \<Rightarrow> 'v Envelope \<Rightarrow> ValidationIssue list" where
  "validate_agreement J env =
     forbid (env_capability env \<noteq> None) ''envelope.capability'' ''Agreement must not carry capability'' @
     forbid (env_method env \<noteq> None) ''envelope.method'' ''Agreement must not carry method'' @
     forbid (env_error env \<noteq> None) ''envelope.error'' ''Agreement must not carry error'' @
     validate_reply_to env @
     (case parse_payload (jc_agreement J) env ''envelope.payload'' of
        (None, is) \<Rightarrow> is
      | (Some p, is) \<Rightarrow> is @
          (if ap_activation_id p = [] \<or> 128 < length (ap_activation_id p) then
             [issue_new ''envelope.payload.activationId'' ''length outside 1..=128'']
           else []) @
          validate_coordinates (ap_granted p) ''envelope.payload.granted'' @
          unique_issue (unique_serialized (jc_coordinate_text J) {} (ap_granted p)) ''envelope.payload.granted'' @
          indexed_coordinates ''envelope.payload.unavailable'' (map uc_coordinate (ap_unavailable p)) @
          unique_issue (unique_serialized (jc_unavailable_text J) {} (ap_unavailable p)) ''envelope.payload.unavailable'' @
          lease_issue (ap_lease_constraints p))"

definition validate_invocation :: "'v payload_codec \<Rightarrow> 'v Envelope \<Rightarrow> ValidationIssue list" where
  "validate_invocation J env =
     forbid (env_reply_to env \<noteq> None) ''envelope.replyTo'' ''Invocation must not carry replyTo'' @
     forbid (env_error env \<noteq> None) ''envelope.error'' ''Invocation must not carry error'' @
     validate_capability env @ validate_method env @ validate_payload_object J env"

definition validate_event :: "'v payload_codec \<Rightarrow> 'v Envelope \<Rightarrow> ValidationIssue list" where
  "validate_event J env =
     forbid (env_error env \<noteq> None) ''envelope.error'' ''Event must not carry error'' @
     validate_capability env @ validate_method env @ validate_payload_object J env"

definition validate_error :: "ProtocolError \<Rightarrow> ValidationIssue list" where
  "validate_error e =
     (if ERROR_MESSAGE_MAX_LEN < chars_count (pe_message e) then
        [issue_new ''envelope.error.message'' (''longer than maxLength $'' @ show_nat ERROR_MESSAGE_MAX_LEN)]
      else []) @
     (if \<not> id_length_ok (pe_correlation_id e) then
        [issue_new ''envelope.error.correlationId''
          (''length '' @ show_nat (length (pe_correlation_id e)) @ '' outside '' @ id_bounds_text)]
      else [])"

definition validate_result :: "'v payload_codec \<Rightarrow> 'v Envelope \<Rightarrow> ValidationIssue list" where
  "validate_result J env =
     validate_reply_to env @ validate_capability env @ validate_method env @
     (case (env_payload env, env_error env) of
        (Some _, Some _) \<Rightarrow>
          [issue_new ''envelope''
            ''oneOf matched 2 branches (expected exactly 1): payload and error are mutually exclusive'']
      | (None, None) \<Rightarrow>
          [issue_new ''envelope'' ''oneOf matched 0 branches (expected exactly 1): Result requires payload or error'']
      | (Some p, None) \<Rightarrow> if jc_is_object J p then [] else [issue_new ''envelope.payload'' ''payload must be an object'']
      | (None, Some e) \<Rightarrow> validate_error e)"

definition validate_root :: "'v Envelope \<Rightarrow> ValidationIssue list" where
  "validate_root env =
     (if env_protocol env \<noteq> PROTOCOL then
        [issue_new ''envelope.protocol'' (''expected const \"$'' @ PROTOCOL @ ''\", got \"'' @ env_protocol env @ ''\"'')]
      else []) @
     (if \<not> id_length_ok (env_id env) then
        [issue_new ''envelope.id'' (''id length '' @ show_nat (length (env_id env)) @ '' outside '' @ id_bounds_text)]
      else []) @
     (if pa_component (env_participant env) = [] then [issue_new ''envelope.participant.component'' ''minLength 1''] else []) @
     (if pa_facet (env_participant env) = [] then [issue_new ''envelope.participant.facet'' ''minLength 1''] else []) @
     (case pa_activation_id (env_participant env) of
        Some a \<Rightarrow>
          if a = [] \<or> 128 < length a then [issue_new ''envelope.participant.activationId'' ''length outside 1..=128''] else []
      | None \<Rightarrow> []) @
     (if \<not> is_rfc3339_timestamp (env_timestamp env) then
        [issue_new ''envelope.timestamp'' (''\"'' @ env_timestamp env @ ''\" is not a valid date-time'')]
      else [])"

definition validate_envelope :: "'v payload_codec \<Rightarrow> 'v Envelope \<Rightarrow> (unit, ValidationIssue list) result" where
  "validate_envelope J env =
     (let issues = validate_root env @
        (case env_kind env of
           Kind_Hello \<Rightarrow> validate_hello J env
         | Kind_Agreement \<Rightarrow> validate_agreement J env
         | Kind_Invocation \<Rightarrow> validate_invocation J env
         | Kind_Result \<Rightarrow> validate_result J env
         | Kind_Event \<Rightarrow> validate_event J env)
      in if issues = [] then Ok () else Err issues)"

section \<open>Identifiers\<close>

text \<open>\<open>unique_token\<close> for a clock reading in nanoseconds and a value of the process-wide counter.\<close>

definition unique_token :: "string \<Rightarrow> nat \<Rightarrow> nat \<Rightarrow> string" where
  "unique_token prefix nanos counter =
     prefix @ ''-'' @ pad0 16 (show_base 16 nanos) @ ''-'' @ pad0 4 (show_base 16 counter)"

definition new_message_id :: "nat \<Rightarrow> nat \<Rightarrow> string" where
  "new_message_id nanos counter = unique_token ''msg'' nanos counter"

definition new_activation_id :: "nat \<Rightarrow> nat \<Rightarrow> string" where
  "new_activation_id nanos counter = unique_token ''act'' nanos counter"

section \<open>What the schema says\<close>

text \<open>Regular expressions, for the patterns of the schema.\<close>

datatype rexp = Cls "char \<Rightarrow> bool" | Txt string | Seq rexp rexp | Plus rexp | Alt rexp rexp | Opt rexp

fun lang :: "rexp \<Rightarrow> string set" where
  "lang (Cls P) = {[c] | c. P c}"
| "lang (Txt t) = {t}"
| "lang (Seq r s) = {u @ v | u v. u \<in> lang r \<and> v \<in> lang s}"
| "lang (Plus r) = {concat ws | ws. ws \<noteq> [] \<and> set ws \<subseteq> lang r}"
| "lang (Alt r s) = lang r \<union> lang s"
| "lang (Opt r) = insert [] (lang r)"

definition method_pattern :: rexp where
  "method_pattern = Seq (Cls is_ascii_lowercase)
     (Plus (Cls (\<lambda>c. is_ascii_lowercase c \<or> is_ascii_digit c \<or> c = CHR ''.'' \<or> c = CHR ''_'' \<or> c = CHR ''-'')))"

definition api_version_pattern :: rexp where
  "api_version_pattern =
     Seq (Plus (Cls (\<lambda>c. is_ascii_lowercase c \<or> is_ascii_digit c \<or> c = CHR ''.'' \<or> c = CHR ''-''))) (Seq (Txt ''/v'')
       (Seq (Plus (Cls is_ascii_digit))
         (Opt (Alt (Seq (Txt ''alpha'') (Plus (Cls is_ascii_digit))) (Seq (Txt ''beta'') (Plus (Cls is_ascii_digit)))))))"

definition kind_pattern :: rexp where
  "kind_pattern = Seq (Cls is_ascii_uppercase) (Plus (Cls is_ascii_alphanumeric))"

definition coordinate_ok :: "ProtocolCoordinate \<Rightarrow> bool" where
  "coordinate_ok c = (pc_api_version c \<in> lang api_version_pattern \<and> pc_kind c \<in> lang kind_pattern)"

definition hello_ok :: "HelloPayload \<Rightarrow> bool" where
  "hello_ok p = (length (hp_instance_id p) \<in> {8..128} \<and> list_all coordinate_ok (hp_supports p) \<and> distinct (hp_supports p) \<and>
     list_all (\<lambda>r. coordinate_ok (rq_coordinate r)) (hp_requires p) \<and> distinct (hp_requires p))"

definition agreement_ok :: "AgreementPayload \<Rightarrow> bool" where
  "agreement_ok p = (length (ap_activation_id p) \<in> {1..128} \<and> list_all coordinate_ok (ap_granted p) \<and> distinct (ap_granted p) \<and>
     list_all (\<lambda>u. coordinate_ok (uc_coordinate u)) (ap_unavailable p) \<and> distinct (ap_unavailable p) \<and>
     (case ap_lease_constraints p of Some c \<Rightarrow> lc_max_seconds c \<noteq> Some 0 | None \<Rightarrow> True))"

definition root_ok :: "'v Envelope \<Rightarrow> bool" where
  "root_ok env = (env_protocol env = PROTOCOL \<and> length (env_id env) \<in> {8..128} \<and>
     pa_component (env_participant env) \<noteq> [] \<and> pa_facet (env_participant env) \<noteq> [] \<and>
     (case pa_activation_id (env_participant env) of Some a \<Rightarrow> length a \<in> {1..128} | None \<Rightarrow> True) \<and>
     is_rfc3339_timestamp (env_timestamp env))"

text \<open>The fields each kind requires and forbids.\<close>

definition call_ok :: "'v Envelope \<Rightarrow> bool" where
  "call_ok env = (case (env_capability env, env_method env) of
     (Some c, Some m) \<Rightarrow> coordinate_ok c \<and> m \<in> lang method_pattern | _ \<Rightarrow> False)"

definition object_ok :: "'v payload_codec \<Rightarrow> 'v Envelope \<Rightarrow> bool" where
  "object_ok J env = (case env_payload env of Some p \<Rightarrow> jc_is_object J p | None \<Rightarrow> False)"

definition reply_ok :: "'v Envelope \<Rightarrow> bool" where
  "reply_ok env = (case env_reply_to env of Some r \<Rightarrow> length r \<in> {8..128} | None \<Rightarrow> False)"

fun kind_ok :: "'v payload_codec \<Rightarrow> EnvelopeKind \<Rightarrow> 'v Envelope \<Rightarrow> bool" where
  "kind_ok J Kind_Hello env = (env_reply_to env = None \<and> env_capability env = None \<and> env_method env = None \<and> env_error env = None \<and>
     (case env_payload env of Some v \<Rightarrow> (case jc_hello J v of Ok p \<Rightarrow> hello_ok p | Err _ \<Rightarrow> False) | None \<Rightarrow> False))"
| "kind_ok J Kind_Agreement env = (reply_ok env \<and> env_capability env = None \<and> env_method env = None \<and> env_error env = None \<and>
     (case env_payload env of Some v \<Rightarrow> (case jc_agreement J v of Ok p \<Rightarrow> agreement_ok p | Err _ \<Rightarrow> False) | None \<Rightarrow> False))"
| "kind_ok J Kind_Invocation env = (env_reply_to env = None \<and> env_error env = None \<and> call_ok env \<and> object_ok J env)"
| "kind_ok J Kind_Result env = (reply_ok env \<and> call_ok env \<and>
     (case env_error env of
        None \<Rightarrow> object_ok J env
      | Some e \<Rightarrow> env_payload env = None \<and> chars_count (pe_message e) \<le> 512 \<and> length (pe_correlation_id e) \<in> {8..128}))"
| "kind_ok J Kind_Event env = (env_error env = None \<and> call_ok env \<and> object_ok J env)"

definition frame_ok :: "'v payload_codec \<Rightarrow> 'v Envelope \<Rightarrow> bool" where
  "frame_ok J env = (root_ok env \<and> kind_ok J (env_kind env) env)"

text \<open>An encoder for the examples: every character escaped, a terminator per string.\<close>

definition enc :: "string \<Rightarrow> string" where
  "enc s = concat (map (\<lambda>c. [CHR ''a'', c]) s) @ ''b''"

definition coordinate_text :: "ProtocolCoordinate \<Rightarrow> string" where
  "coordinate_text c = enc (pc_api_version c) @ enc (pc_kind c)"

definition sample_codec :: "(HelloPayload + AgreementPayload) payload_codec" where
  "sample_codec = \<lparr>jc_is_object = (\<lambda>_. True),
     jc_hello = (\<lambda>v. case v of Inl h \<Rightarrow> Ok h | Inr _ \<Rightarrow> Err ''shape''),
     jc_agreement = (\<lambda>v. case v of Inr a \<Rightarrow> Ok a | Inl _ \<Rightarrow> Err ''shape''), jc_of_agreement = Inr,
     jc_coordinate_text = coordinate_text,
     jc_requirement_text = (\<lambda>r. (if rq_required r then ''t'' else ''f'') @ coordinate_text (rq_coordinate r)),
     jc_unavailable_text = (\<lambda>u. (case uc_reason u of UR_Unavailable \<Rightarrow> ''u'' | UR_UnsupportedVersion \<Rightarrow> ''v''
        | UR_PolicyDenied \<Rightarrow> ''p'' | UR_ProviderFailed \<Rightarrow> ''f'') @ coordinate_text (uc_coordinate u))\<rparr>"

section \<open>Lemmas\<close>

lemma enc_append: "enc s @ r = enc s' @ r' \<longleftrightarrow> s = s' \<and> r = r'"
proof (induction s arbitrary: s')
  case Nil
  show ?case by (cases s') (auto simp: enc_def)
next
  case (Cons c s)
  show ?case
  proof (cases s')
    case (Cons c' t)
    thus ?thesis using Cons.IH [of t] by (auto simp: enc_def)
  qed (auto simp: enc_def)
qed

lemma coordinate_text_inj: "coordinate_text c = coordinate_text d \<longleftrightarrow> c = d"
  using enc_append [of "pc_kind c" "[]" "pc_kind d" "[]"]
  by (auto simp: coordinate_text_def enc_append intro: ProtocolCoordinate.equality)

lemma sample_codec_ok: "codec_ok sample_codec"
  unfolding codec_ok_def sample_codec_def
  by (auto intro!: injI simp: coordinate_text_inj Requirement.equality UnavailableCapability.equality
      split: if_splits UnavailableReason.splits)

lemma lang_Plus_Cls: "lang (Plus (Cls P)) = {s. s \<noteq> [] \<and> list_all P s}"
proof (intro set_eqI iffI)
  fix s
  assume "s \<in> lang (Plus (Cls P))"
  then obtain ws where ws: "s = concat ws" "ws \<noteq> []" "set ws \<subseteq> {[c] | c. P c}" by auto
  hence "w \<in> set ws \<Longrightarrow> w \<noteq> [] \<and> list_all P w" for w by auto
  thus "s \<in> {s. s \<noteq> [] \<and> list_all P s}" using ws by (cases ws) (auto simp: list_all_iff)
next
  fix s
  assume "s \<in> {s. s \<noteq> [] \<and> list_all P s}"
  moreover have "concat (map (\<lambda>c. [c]) s) = s" by (induction s) simp_all
  ultimately show "s \<in> lang (Plus (Cls P))"
    by (auto simp: list_all_iff intro!: exI [of _ "map (\<lambda>c. [c]) s"])
qed

lemma lang_Seq_Cls: "s \<in> lang (Seq (Cls P) r) \<longleftrightarrow> (\<exists>c t. s = c # t \<and> P c \<and> t \<in> lang r)"
proof
  assume "\<exists>c t. s = c # t \<and> P c \<and> t \<in> lang r"
  then obtain c t where "s = [c] @ t" "P c" "t \<in> lang r" by auto
  thus "s \<in> lang (Seq (Cls P) r)" by (auto simp del: append_Cons append_Nil)
qed auto

lemma lang_Seq_Txt: "s \<in> lang (Seq (Txt t) r) \<longleftrightarrow> (\<exists>v. s = t @ v \<and> v \<in> lang r)"
  by auto

lemma lang_Seq: "s \<in> lang (Seq q r) \<longleftrightarrow> (\<exists>u v. s = u @ v \<and> u \<in> lang q \<and> v \<in> lang r)"
  by auto

declare lang.simps [simp del]

lemma valid_method_pattern: "valid_method m \<longleftrightarrow> m \<in> lang method_pattern"
  unfolding method_pattern_def lang_Seq_Cls lang_Plus_Cls
  by (cases m) (auto simp: valid_method_def Suc_le_eq)

lemma valid_kind_pattern: "valid_coordinate_kind k \<longleftrightarrow> k \<in> lang kind_pattern"
  unfolding kind_pattern_def lang_Seq_Cls lang_Plus_Cls
  by (cases k) (auto simp: valid_coordinate_kind_def Suc_le_eq)

definition stage_ok :: "string \<Rightarrow> bool" where
  "stage_ok s = (s = [] \<or> (\<exists>d. (s = ''alpha'' @ d \<or> s = ''beta'' @ d) \<and> d \<noteq> [] \<and> list_all is_ascii_digit d))"

lemma api_version_pattern_iff:
  "s \<in> lang api_version_pattern \<longleftrightarrow>
     (\<exists>ns ds st. s = ns @ ''/v'' @ ds @ st \<and> ns \<noteq> [] \<and>
        list_all (\<lambda>c. is_ascii_lowercase c \<or> is_ascii_digit c \<or> c = CHR ''.'' \<or> c = CHR ''-'') ns \<and>
        ds \<noteq> [] \<and> list_all is_ascii_digit ds \<and> stage_ok st)"
proof -
  have st: "st \<in> lang (Opt (Alt (Seq (Txt ''alpha'') (Plus (Cls is_ascii_digit))) (Seq (Txt ''beta'') (Plus (Cls is_ascii_digit))))) \<longleftrightarrow> stage_ok st" for st
    unfolding lang.simps(5,6) insert_iff Un_iff lang_Seq_Txt lang_Plus_Cls stage_ok_def by auto
  show ?thesis
    unfolding api_version_pattern_def lang_Seq [of _ "Plus _"] lang_Seq_Txt st lang_Plus_Cls mem_Collect_eq by blast
qed

lemma digits_split:
  assumes "list_all is_ascii_digit ds" "stage_ok st"
  shows "takeWhile is_ascii_digit (ds @ st) = ds" "dropWhile is_ascii_digit (ds @ st) = st"
proof -
  have "st = [] \<or> \<not> is_ascii_digit (hd st)"
    using assms(2) by (auto simp: stage_ok_def is_ascii_digit_def byte_of_def)
  thus "takeWhile is_ascii_digit (ds @ st) = ds" "dropWhile is_ascii_digit (ds @ st) = st"
    using assms(1) by (cases st; simp add: takeWhile_append dropWhile_append list_all_iff; fail)+
qed

lemma valid_api_version_split:
  "valid_api_version s \<longleftrightarrow>
     (\<exists>ns version. rsplit_once CHR ''/'' s = Some (ns, CHR ''v'' # version) \<and> ns \<noteq> [] \<and>
        list_all (\<lambda>c. is_ascii_lowercase c \<or> is_ascii_digit c \<or> c = CHR ''.'' \<or> c = CHR ''-'') ns \<and>
        takeWhile is_ascii_digit version \<noteq> [] \<and> stage_ok (dropWhile is_ascii_digit version))"
proof -
  have stage: "(case sfx of [] \<Rightarrow> True
      | suffix \<Rightarrow>
          (case (case strip_prefix ''alpha'' suffix of Some r \<Rightarrow> Some r | None \<Rightarrow> strip_prefix ''beta'' suffix) of
             None \<Rightarrow> False
           | Some rest \<Rightarrow> rest \<noteq> [] \<and> list_all is_ascii_digit rest)) \<longleftrightarrow> stage_ok sfx" for sfx
  proof (cases sfx)
    case (Cons c t)
    show ?thesis
      unfolding stage_ok_def Cons [symmetric]
      using Cons by (auto simp: strip_prefix_Some split: option.splits) (metis option.distinct(1) strip_prefix_append append_Cons append_Nil)+
  qed (simp add: stage_ok_def)
  show ?thesis
    unfolding valid_api_version_def stage
    by (auto split: option.splits list.splits prod.splits if_splits)
qed

lemma valid_api_version_pattern: "valid_api_version s \<longleftrightarrow> s \<in> lang api_version_pattern"
proof
  assume "valid_api_version s"
  then obtain ns version where sp: "rsplit_once CHR ''/'' s = Some (ns, CHR ''v'' # version)"
    and ns: "ns \<noteq> []" "list_all (\<lambda>c. is_ascii_lowercase c \<or> is_ascii_digit c \<or> c = CHR ''.'' \<or> c = CHR ''-'') ns"
    and d: "takeWhile is_ascii_digit version \<noteq> []" "stage_ok (dropWhile is_ascii_digit version)"
    unfolding valid_api_version_split by blast
  have "s = ns @ ''/v'' @ takeWhile is_ascii_digit version @ dropWhile is_ascii_digit version"
    using sp by (simp add: rsplit_once_Some)
  moreover have "list_all is_ascii_digit (takeWhile is_ascii_digit version)"
    by (auto simp: list_all_iff dest: set_takeWhileD)
  ultimately show "s \<in> lang api_version_pattern"
    unfolding api_version_pattern_iff using ns d by blast
next
  assume "s \<in> lang api_version_pattern"
  then obtain ns ds st where s: "s = ns @ ''/v'' @ ds @ st" and ns: "ns \<noteq> []"
      "list_all (\<lambda>c. is_ascii_lowercase c \<or> is_ascii_digit c \<or> c = CHR ''.'' \<or> c = CHR ''-'') ns"
    and ds: "ds \<noteq> []" "list_all is_ascii_digit ds" and st: "stage_ok st"
    unfolding api_version_pattern_iff by blast
  have slash: "\<not> is_ascii_digit CHR ''/''" by code_simp
  have "CHR ''/'' \<notin> set ds" using ds(2) slash by (auto simp: list_all_iff)
  moreover have "CHR ''/'' \<notin> set st" using st slash by (auto simp: stage_ok_def list_all_iff)
  ultimately have "rsplit_once CHR ''/'' s = Some (ns, CHR ''v'' # ds @ st)" by (simp add: rsplit_once_Some s)
  thus "valid_api_version s"
    unfolding valid_api_version_split using ns ds st digits_split [OF ds(2) st] by auto
qed

text \<open>Each validator pushes no issue exactly when its part of the frame is well formed.\<close>

lemma issue_nil_simps [simp]:
  "forbid b path msg = [] \<longleftrightarrow> \<not> b" "unique_issue u path = [] \<longleftrightarrow> u"
  by (simp_all add: forbid_def unique_issue_def)

lemma id_length_ok_iff: "id_length_ok s \<longleftrightarrow> length s \<in> {8..128}"
  by (simp add: id_length_ok_def ID_MIN_LEN_def ID_MAX_LEN_def)

lemma validate_coordinate_nil: "validate_coordinate c path = [] \<longleftrightarrow> coordinate_ok c"
  by (simp add: validate_coordinate_def coordinate_ok_def valid_api_version_pattern valid_kind_pattern)

lemma validate_coordinates_nil: "validate_coordinates cs path = [] \<longleftrightarrow> list_all coordinate_ok cs"
  by (simp add: validate_coordinates_def validate_coordinate_nil list_all_iff)

lemma indexed_coordinates_nil: "indexed_coordinates path cs = [] \<longleftrightarrow> list_all coordinate_ok cs"
proof -
  have "indexed_coordinates path cs = [] \<longleftrightarrow> list_all (\<lambda>(i, c). coordinate_ok c) (List.enumerate 0 cs)"
    by (auto simp: indexed_coordinates_def validate_coordinate_nil list_all_iff)
  also have "\<dots> \<longleftrightarrow> list_all coordinate_ok (map snd (List.enumerate 0 cs))"
    by (simp only: list.pred_map comp_def case_prod_unfold)
  finally show ?thesis by (simp only: map_snd_enumerate)
qed

lemma unique_serialized_iff:
  assumes "inj ser"
  shows "unique_serialized ser seen xs \<longleftrightarrow> distinct xs \<and> ser ` set xs \<inter> seen = {}"
  using assms by (induction xs arbitrary: seen) (auto simp: inj_eq)

lemma unique_serialized_distinct: "inj ser \<Longrightarrow> unique_serialized ser {} xs \<longleftrightarrow> distinct xs"
  by (simp add: unique_serialized_iff)

lemma validate_reply_to_nil: "validate_reply_to env = [] \<longleftrightarrow> reply_ok env"
  by (simp add: validate_reply_to_def reply_ok_def id_length_ok_iff split: option.splits)

lemma validate_call_nil: "validate_capability env = [] \<and> validate_method env = [] \<longleftrightarrow> call_ok env"
  by (auto simp: validate_capability_def validate_method_def call_ok_def validate_coordinate_nil valid_method_pattern
      split: option.splits)

lemma validate_object_nil: "validate_payload_object J env = [] \<longleftrightarrow> object_ok J env"
  by (simp add: validate_payload_object_def object_ok_def split: option.splits)

lemma validate_root_nil: "validate_root env = [] \<longleftrightarrow> root_ok env"
  by (auto simp: validate_root_def root_ok_def id_length_ok_iff Suc_le_eq split: option.splits)

lemma lease_issue_nil: "lease_issue lc = [] \<longleftrightarrow> (case lc of Some c \<Rightarrow> lc_max_seconds c \<noteq> Some 0 | None \<Rightarrow> True)"
  by (simp add: lease_issue_def split: option.splits)

lemma validate_error_nil:
  "validate_error e = [] \<longleftrightarrow> chars_count (pe_message e) \<le> 512 \<and> length (pe_correlation_id e) \<in> {8..128}"
  by (simp add: validate_error_def id_length_ok_iff ERROR_MESSAGE_MAX_LEN_def linorder_not_less)

lemma codec_injD:
  assumes "codec_ok J"
  shows "inj (jc_coordinate_text J)" "inj (jc_requirement_text J)" "inj (jc_unavailable_text J)"
  using assms by (simp_all add: codec_ok_def)

lemmas nil_simps = validate_coordinates_nil indexed_coordinates_nil validate_reply_to_nil validate_object_nil
  validate_root_nil lease_issue_nil validate_error_nil

lemma validate_hello_nil:
  assumes "codec_ok J"
  shows "validate_hello J env = [] \<longleftrightarrow> kind_ok J Kind_Hello env"
  using codec_injD [OF assms]
  by (auto simp: validate_hello_def parse_payload_def nil_simps unique_serialized_distinct hello_ok_def list.pred_map comp_def
      split: option.splits result.splits)

lemma validate_agreement_nil:
  assumes "codec_ok J"
  shows "validate_agreement J env = [] \<longleftrightarrow> kind_ok J Kind_Agreement env"
  using codec_injD [OF assms]
  by (auto simp: validate_agreement_def parse_payload_def nil_simps unique_serialized_distinct agreement_ok_def list.pred_map
      comp_def Suc_le_eq split: option.splits result.splits)

lemma validate_invocation_nil: "validate_invocation J env = [] \<longleftrightarrow> kind_ok J Kind_Invocation env"
  using validate_call_nil [of env] by (auto simp: validate_invocation_def nil_simps)

lemma validate_event_nil: "validate_event J env = [] \<longleftrightarrow> kind_ok J Kind_Event env"
  using validate_call_nil [of env] by (auto simp: validate_event_def nil_simps)

lemma validate_result_nil: "validate_result J env = [] \<longleftrightarrow> kind_ok J Kind_Result env"
  using validate_call_nil [of env]
  by (cases "env_payload env"; cases "env_error env") (auto simp: validate_result_def nil_simps object_ok_def)

lemma validate_envelope_iff:
  assumes "codec_ok J"
  shows "validate_envelope J env = Ok () \<longleftrightarrow> frame_ok J env"
  using validate_hello_nil [OF assms, of env] validate_agreement_nil [OF assms, of env]
    validate_invocation_nil [of J env] validate_result_nil [of J env] validate_event_nil [of J env]
  by (cases "env_kind env") (auto simp: validate_envelope_def frame_ok_def nil_simps Let_def)

subsection \<open>Identifiers\<close>

definition hex_val :: "char \<Rightarrow> nat" where
  "hex_val c = (if byte_of c \<le> 57 then byte_of c - 48 else byte_of c - 87)"

definition hex_number :: "string \<Rightarrow> nat" where
  "hex_number s = foldl (\<lambda>v c. v * 16 + hex_val c) 0 s"

lemma byte_of_digit_char: "d < 16 \<Longrightarrow> byte_of (digit_char d) = (if d < 10 then 48 + d else 87 + d)"
  by (simp add: byte_of_def digit_char_def)

lemma hex_val_digit: "d < 16 \<Longrightarrow> hex_val (digit_char d) = d"
  by (simp add: hex_val_def byte_of_digit_char)

lemma digit_char_no_dash: "d < 16 \<Longrightarrow> digit_char d \<noteq> CHR ''-''"
proof
  assume "d < 16" "digit_char d = CHR ''-''"
  moreover have "byte_of CHR ''-'' = 45" by (simp add: byte_of_def)
  ultimately show False using byte_of_digit_char [of d] by (simp split: if_splits)
qed

lemma show_base_16:
  "hex_number (show_base 16 n) = n \<and> CHR ''-'' \<notin> set (show_base 16 n) \<and> show_base 16 n \<noteq> []"
proof (induction n rule: less_induct)
  case (less n)
  show ?case
  proof (cases "n < 16")
    case True
    thus ?thesis using digit_char_no_dash [of n]
      by (simp add: show_base.simps [of 16 n] hex_number_def hex_val_digit)
  next
    case False
    hence IH: "hex_number (show_base 16 (n div 16)) = n div 16" "CHR ''-'' \<notin> set (show_base 16 (n div 16))"
      using less.IH [of "n div 16"] by simp_all
    show ?thesis
      using False IH digit_char_no_dash [of "n mod 16"]
      by (simp add: show_base.simps [of 16 n] hex_number_def hex_val_digit)
  qed
qed

lemma hex_number_pad0: "hex_number (pad0 w s) = hex_number s"
proof -
  have "hex_val CHR ''0'' = 0" by code_simp
  hence "hex_number (replicate k CHR ''0'' @ s) = hex_number s" for k
    by (induction k) (simp_all add: hex_number_def)
  thus ?thesis by (simp add: pad0_def)
qed

lemma pad0_no_dash: "CHR ''-'' \<notin> set s \<Longrightarrow> CHR ''-'' \<notin> set (pad0 w s)"
  by (simp add: pad0_def)

lemma unique_token_counter:
  assumes "unique_token p n c = unique_token p' n' c'"
  shows "c = c'"
proof -
  let ?h = "\<lambda>c. pad0 4 (show_base 16 c)"
  have "rsplit_once CHR ''-'' (unique_token p n c) = Some (p @ ''-'' @ pad0 16 (show_base 16 n), ?h c)" for p n c
    using pad0_no_dash [of "show_base 16 c" 4] show_base_16 [of c] by (simp add: rsplit_once_Some unique_token_def)
  hence "?h c = ?h c'" using assms by (metis option.inject prod.inject)
  hence "hex_number (?h c) = hex_number (?h c')" by simp
  thus ?thesis by (simp add: hex_number_pad0 show_base_16)
qed

lemma show_base_length: "n < 16 ^ k \<Longrightarrow> 0 < k \<Longrightarrow> length (show_base 16 n) \<le> k"
proof (induction k arbitrary: n)
  case (Suc k)
  show ?case
  proof (cases "n < 16")
    case False
    have "n div 16 < 16 ^ k" using Suc.prems(1) by (simp add: less_mult_imp_div_less mult.commute)
    moreover have "0 < k" using False Suc.prems(1) by (cases k) simp_all
    ultimately show ?thesis using Suc.IH False by (simp add: show_base.simps [of 16 n])
  qed (simp add: show_base.simps [of 16 n])
qed simp

lemma pad0_length: "length (pad0 w s) = max w (length s)"
  by (simp add: pad0_def)

lemma unique_token_length:
  assumes "n < 16 ^ 32" "c < 16 ^ 16"
  shows "length p + 22 \<le> length (unique_token p n c)" "length (unique_token p n c) \<le> length p + 50"
  using show_base_length [OF assms(1)] show_base_length [OF assms(2)]
  by (simp_all add: unique_token_def pad0_length)

section \<open>Properties\<close>


definition sample_hello :: "(HelloPayload + AgreementPayload) Envelope" where
  "sample_hello = \<lparr>env_protocol = PROTOCOL, env_id = ''msg-0001'', env_kind = Kind_Hello, env_reply_to = None,
     env_participant = \<lparr>pa_component = ''agent'', pa_facet = ''tool'', pa_activation_id = None\<rparr>,
     env_timestamp = ''2026-08-31T09:30:00Z'', env_generation = 0, env_capability = None, env_method = None,
     env_payload = Some (Inl \<lparr>hp_instance_id = ''instance'',
       hp_supports = [\<lparr>pc_api_version = ''t.local/v1alpha1'', pc_kind = ''Terminal''\<rparr>], hp_requires = []\<rparr>),
     env_error = None\<rparr>"


text \<open>
  Message identifiers are never reused and always fit the schema: two calls of the generator with different counter
  values return different identifiers whatever the clock says, and every identifier has a length within the bounds.
\<close>

lemma message_ids_unique:
  assumes "nanos < 16 ^ 32" "counter < 16 ^ 16"
  shows "id_length_ok (new_message_id nanos counter) \<and> id_length_ok (new_activation_id nanos counter) \<and>
     (\<forall>nanos' counter'. counter' \<noteq> counter \<longrightarrow> new_message_id nanos' counter' \<noteq> new_message_id nanos counter \<and>
        new_activation_id nanos' counter' \<noteq> new_activation_id nanos counter)"
  using unique_token_length [OF assms, of "''msg''"] unique_token_length [OF assms, of "''act''"] unique_token_counter
  by (auto simp: new_message_id_def new_activation_id_def id_length_ok_def ID_MIN_LEN_def ID_MAX_LEN_def)

end
