(* ===== verification/Daemon_Server.thy ===== *)
theory Daemon_Server
  imports Agent_Bridge Bootstrap Envelope
begin

text \<open>
  The envelope server of the daemon (\<^verbatim>\<open>crates/daemon/src/server.rs\<close>): the peer-identity policy, the per-connection
  session state, the handling of Hello and Invocation against the broker of \<open>Agent_Bridge\<close>, and the life of one
  connection up to its teardown. The capability handlers behind the gate act on a host state of their own and are
  a parameter (\<open>host_ops\<close>); clock readings are arguments; the process-wide identifier counter is part of the server.
\<close>

section \<open>Identity and authority\<close>

definition SERVER_COMPONENT :: string where
  "SERVER_COMPONENT = ''dsh-desktop-shell''"

definition SERVER_FACET :: string where
  "SERVER_FACET = ''daemon''"

definition SHELL_COMPONENT :: string where
  "SHELL_COMPONENT = ''dsh-desktop-shell''"

definition SHELL_FACET :: string where
  "SHELL_FACET = ''shell''"

definition LEASE_MAX_SECONDS :: nat where
  "LEASE_MAX_SECONDS = 3600"

datatype PeerIdentityPolicy = Policy_Off | Policy_Strict "string option"

definition policy_allows :: "bool \<Rightarrow> PeerIdentityPolicy \<Rightarrow> PeerIdentity option \<Rightarrow> bool" where
  "policy_allows folds_case policy identity =
     (case policy of
        Policy_Off \<Rightarrow> True
      | Policy_Strict expected_shell \<Rightarrow>
          (case (identity, expected_shell) of
             (Some ident, Some expected) \<Rightarrow> image_matches folds_case ident expected
           | _ \<Rightarrow> False))"

datatype ActivationAuthority = ShellControl | ParticipantAuthority

record Activation =
  av_activation_id :: string
  av_authority :: ActivationAuthority
  av_agent_id :: string
  av_generation :: nat
  av_granted :: "ProtocolCoordinate list"
  av_hello_id :: string

record SessionState =
  ss_activations :: "(string, Activation) hashmap"
  ss_authority :: "ActivationAuthority option"
  ss_identity :: "PeerIdentity option"
  ss_seen_ids :: "string list"
  ss_next_generation :: nat

definition new_session :: "PeerIdentity option \<Rightarrow> SessionState" where
  "new_session identity =
     \<lparr>ss_activations = [], ss_authority = None, ss_identity = identity, ss_seen_ids = [], ss_next_generation = 0\<rparr>"

section \<open>The server\<close>

datatype DaemonMethodError =
    MethodNotFound ProtocolCoordinate string
  | InvalidPayload ProtocolCoordinate string string
  | MethodConflict ProtocolCoordinate string string
  | MethodFailed ErrorCode string bool

text \<open>The server state a connection works on. The host is the state of the capability handlers.\<close>

record ('v, 'h) DaemonServer =
  ds_broker :: "'v Broker"
  ds_policy :: PeerIdentityPolicy
  ds_folds_case :: bool
  ds_id_counter :: nat
  ds_bootstrap :: Bootstrap
  ds_host :: 'h

text \<open>Readings of the clocks while one envelope is handled.\<close>

record Readings =
  rd_act_nanos :: nat
  rd_msg_nanos :: nat
  rd_timestamp_ms :: nat
  rd_broker_ms :: nat
  rd_grant_ms :: "nat \<Rightarrow> nat"
  rd_lease_ms :: "nat \<Rightarrow> nat"

text \<open>
  The capability layer: the catalog, the dispatch of one method (with the connection key and the broker), and the release
  of what a connection owned. \<open>ho_null\<close> is JSON null.
\<close>

record ('v, 'h) host_ops =
  ho_catalog :: "ProtocolCoordinate list"
  ho_dispatch :: "'v Broker \<Rightarrow> Readings \<Rightarrow> nat \<Rightarrow> ProtocolCoordinate \<Rightarrow> string \<Rightarrow> 'v \<Rightarrow> 'h \<Rightarrow>
                  ('v, DaemonMethodError) result \<times> 'h"
  ho_release :: "nat \<Rightarrow> 'h \<Rightarrow> 'h"
  ho_null :: 'v

definition server_participant :: "string option \<Rightarrow> Participant" where
  "server_participant activation_id =
     \<lparr>pa_component = SERVER_COMPONENT, pa_facet = SERVER_FACET, pa_activation_id = activation_id\<rparr>"

definition catalog_supports :: "('v, 'h) host_ops \<Rightarrow> ProtocolCoordinate \<Rightarrow> bool" where
  "catalog_supports H c = (c \<in> set (ho_catalog H))"

definition coordinate_to_capability :: "ProtocolCoordinate \<Rightarrow> CapabilityId" where
  "coordinate_to_capability c = \<lparr>cap_api_version = pc_api_version c, cap_kind = pc_kind c\<rparr>"

fun broker_error_mapping :: "BrokerError \<Rightarrow> ErrorCode \<times> bool" where
  "broker_error_mapping UnknownCapability = (EC_Unavailable, True)"
| "broker_error_mapping UnknownProvider = (EC_Unavailable, True)"
| "broker_error_mapping GenerationMismatch = (EC_StaleGeneration, False)"
| "broker_error_mapping Conflict = (EC_Conflict, False)"
| "broker_error_mapping NotGranted = (EC_Unauthorized, False)"
| "broker_error_mapping LeaseExpired = (EC_Unauthorized, False)"
| "broker_error_mapping LeaseRevoked = (EC_Unauthorized, False)"
| "broker_error_mapping ScopeMismatch = (EC_Unauthorized, False)"

text \<open>Every reply takes the next identifier of the process and the next generation of the session.\<close>

definition error_result ::
  "Readings \<Rightarrow> string \<Rightarrow> string \<Rightarrow> ProtocolCoordinate option \<Rightarrow> string option \<Rightarrow> ErrorCode \<Rightarrow> string \<Rightarrow> bool \<Rightarrow>
   ('v, 'h) DaemonServer \<Rightarrow> SessionState \<Rightarrow> 'v Envelope \<times> ('v, 'h) DaemonServer \<times> SessionState" where
  "error_result rd correlation_id reply_to capability mname code message retry srv st =
     (\<lparr>env_protocol = PROTOCOL, env_id = new_message_id (rd_msg_nanos rd) (ds_id_counter srv), env_kind = Kind_Result,
       env_reply_to = Some reply_to, env_participant = server_participant None,
       env_timestamp = now_timestamp_like (rd_timestamp_ms rd), env_generation = ss_next_generation st,
       env_capability = capability, env_method = mname, env_payload = None,
       env_error = Some \<lparr>pe_code = code, pe_message = chars_take 512 message, pe_retryable = retry,
         pe_correlation_id = correlation_id\<rparr>\<rparr>,
      srv\<lparr>ds_id_counter := ds_id_counter srv + 1\<rparr>, st\<lparr>ss_next_generation := ss_next_generation st + 1\<rparr>)"

section \<open>Hello\<close>

definition hello_authority :: "('v, 'h) DaemonServer \<Rightarrow> SessionState \<Rightarrow> Participant \<Rightarrow> ActivationAuthority" where
  "hello_authority srv st p =
     (if pa_component p = SHELL_COMPONENT \<and> pa_facet p = SHELL_FACET \<and>
         policy_allows (ds_folds_case srv) (ds_policy srv) (ss_identity st)
      then ShellControl else ParticipantAuthority)"

definition agent_id_of :: "Participant \<Rightarrow> string" where
  "agent_id_of p = pa_component p @ ''-'' @ pa_facet p"

definition denied :: "ProtocolCoordinate \<Rightarrow> UnavailableCapability" where
  "denied c = \<lparr>uc_coordinate = c, uc_reason = UR_PolicyDenied\<rparr>"

text \<open>The bridge call of a non-empty grant list: what stays granted, what is denied, the generation, the broker.\<close>

definition negotiate ::
  "Readings \<Rightarrow> ActivationAuthority \<Rightarrow> string \<Rightarrow> string \<Rightarrow> ProtocolCoordinate list \<Rightarrow> UnavailableCapability list \<Rightarrow> 'v Broker \<Rightarrow>
   ProtocolCoordinate list \<times> UnavailableCapability list \<times> nat \<times> 'v Broker" where
  "negotiate rd authority agent activation_id granted unavailable b =
     (if granted = [] then (granted, unavailable, 0, b)
      else
        let result = \<lparr>anr_activation_id = activation_id, anr_agreed = True,
              anr_granted = map coordinate_to_capability granted, anr_conformance = Agent_Known,
              anr_lease_constraints = Some \<lparr>max_seconds = LEASE_MAX_SECONDS, approval_required = None\<rparr>,
              anr_scope = default_scope\<rparr>
        in case broker_grant_from_negotiation (rd_broker_ms rd) (rd_grant_ms rd) (rd_lease_ms rd) agent result b of
             (Ok g, b') \<Rightarrow> (granted, unavailable, ag_generation g, b')
           | (Err e, b') \<Rightarrow>
               if e = Bridge_Broker Conflict \<and> authority = ShellControl then (granted, unavailable, 0, b')
               else ([], unavailable @ map denied granted, 0, b'))"

definition handle_hello ::
  "'v payload_codec \<Rightarrow> ('v, 'h) host_ops \<Rightarrow> Readings \<Rightarrow> 'v Envelope \<Rightarrow> ('v, 'h) DaemonServer \<Rightarrow> SessionState \<Rightarrow>
   'v Envelope list \<times> ('v, 'h) DaemonServer \<times> SessionState" where
  "handle_hello J H rd env srv st =
     (case Option.bind (env_payload env) (\<lambda>v. case jc_hello J v of Ok p \<Rightarrow> Some p | Err _ \<Rightarrow> None) of
        None \<Rightarrow> ([], srv, st)
      | Some hello \<Rightarrow>
          let activation_id = new_activation_id (rd_act_nanos rd) (ds_id_counter srv);
              srv0 = srv\<lparr>ds_id_counter := ds_id_counter srv + 1\<rparr>;
              agent = agent_id_of (env_participant env);
              authority = hello_authority srv st (env_participant env)
          in
            if ss_authority st \<noteq> None \<and> ss_authority st \<noteq> Some authority then
              (case error_result rd (env_id env) (env_id env) None None EC_Unauthorized
                 ''this connection already established a different participant authority; open a new connection''
                 False srv0 st of (reply, srv1, st1) \<Rightarrow> ([reply], srv1, st1))
            else
              (case negotiate rd authority agent activation_id (filter (catalog_supports H) (hp_supports hello))
                 (map denied (filter (\<lambda>c. \<not> catalog_supports H c) (hp_supports hello))) (ds_broker srv0) of
                 (granted, unavailable, generation, b) \<Rightarrow>
                   ([\<lparr>env_protocol = PROTOCOL, env_id = new_message_id (rd_msg_nanos rd) (ds_id_counter srv0),
                      env_kind = Kind_Agreement, env_reply_to = Some (env_id env),
                      env_participant = server_participant (Some activation_id),
                      env_timestamp = now_timestamp_like (rd_timestamp_ms rd), env_generation = ss_next_generation st,
                      env_capability = None, env_method = None,
                      env_payload = Some (jc_of_agreement J \<lparr>ap_activation_id = activation_id, ap_granted = granted,
                        ap_unavailable = unavailable,
                        ap_lease_constraints = (if granted = [] then None
                          else Some \<lparr>lc_max_seconds = Some LEASE_MAX_SECONDS, lc_approval_required = None\<rparr>)\<rparr>),
                      env_error = None\<rparr>],
                    srv0\<lparr>ds_broker := b, ds_id_counter := ds_id_counter srv0 + 1\<rparr>,
                    st\<lparr>ss_activations := hm_insert activation_id
                         \<lparr>av_activation_id = activation_id, av_authority = authority, av_agent_id = agent,
                          av_generation = generation, av_granted = granted, av_hello_id = env_id env\<rparr> (ss_activations st),
                       ss_authority := Some authority, ss_next_generation := ss_next_generation st + 1\<rparr>)))"

section \<open>Invocation\<close>

definition invocation_error ::
  "Readings \<Rightarrow> 'v Envelope \<Rightarrow> ProtocolCoordinate \<Rightarrow> string \<Rightarrow> ErrorCode \<Rightarrow> string \<Rightarrow> bool \<Rightarrow>
   ('v, 'h) DaemonServer \<Rightarrow> SessionState \<Rightarrow> 'v Envelope list \<times> ('v, 'h) DaemonServer \<times> SessionState" where
  "invocation_error rd env cap mname code message retry srv st =
     (case error_result rd (env_id env) (env_id env) (Some cap) (Some mname) code message retry srv st of
        (reply, srv1, st1) \<Rightarrow> ([reply], srv1, st1))"

text \<open>The result of the capability handler as a reply.\<close>

definition method_reply ::
  "Readings \<Rightarrow> 'v Envelope \<Rightarrow> string \<Rightarrow> ProtocolCoordinate \<Rightarrow> string \<Rightarrow> ('v, DaemonMethodError) result \<Rightarrow>
   ('v, 'h) DaemonServer \<Rightarrow> SessionState \<Rightarrow> 'v Envelope list \<times> ('v, 'h) DaemonServer \<times> SessionState" where
  "method_reply rd env activation_id cap mname r srv st =
     (case r of
        Ok payload \<Rightarrow>
          ([\<lparr>env_protocol = PROTOCOL, env_id = new_message_id (rd_msg_nanos rd) (ds_id_counter srv), env_kind = Kind_Result,
             env_reply_to = Some (env_id env), env_participant = server_participant (Some activation_id),
             env_timestamp = now_timestamp_like (rd_timestamp_ms rd), env_generation = ss_next_generation st,
             env_capability = Some cap, env_method = Some mname, env_payload = Some payload, env_error = None\<rparr>],
           srv\<lparr>ds_id_counter := ds_id_counter srv + 1\<rparr>, st\<lparr>ss_next_generation := ss_next_generation st + 1\<rparr>)
      | Err (MethodNotFound c m) \<Rightarrow>
          invocation_error rd env c m EC_Unavailable
            (''method \"'' @ m @ ''\" is not implemented for '' @ pc_api_version c @ ''/'' @ pc_kind c) False srv st
      | Err (InvalidPayload c m message) \<Rightarrow> invocation_error rd env cap mname EC_MalformedMessage message False srv st
      | Err (MethodConflict c m message) \<Rightarrow> invocation_error rd env cap mname EC_Conflict message False srv st
      | Err (MethodFailed code message retry) \<Rightarrow> invocation_error rd env cap mname code message retry srv st)"

text \<open>The checks before the handler: the activation, the grant, the authority class, the broker gate.\<close>

definition invocation_gate ::
  "Readings \<Rightarrow> 'v Envelope \<Rightarrow> ProtocolCoordinate \<Rightarrow> ('v, 'h) DaemonServer \<Rightarrow> SessionState \<Rightarrow>
   (string, ErrorCode \<times> string \<times> bool) result" where
  "invocation_gate rd env cap srv st =
     (case pa_activation_id (env_participant env) of
        None \<Rightarrow> Err (EC_Unauthorized, ''Invocation without an Agreement: participant.activationId is missing'', False)
      | Some activation_id \<Rightarrow>
          (case hm_get (ss_activations st) activation_id of
             None \<Rightarrow> Err (EC_Unauthorized, ''no Agreement for activation \"'' @ activation_id @
                       ''\": negotiate Hello '' @ [CHR 0xE2, CHR 0x86, CHR 0x92] @ '' Agreement first'', False)
           | Some av \<Rightarrow>
               if cap \<notin> set (av_granted av) then
                 Err (EC_Unauthorized, ''capability '' @ pc_api_version cap @ ''/'' @ pc_kind cap @
                   '' is not granted by the Agreement for activation \"'' @ activation_id @ ''\"'', False)
               else if av_generation av = 0 \<and> av_authority av \<noteq> ShellControl then
                 Err (EC_Unauthorized, ''broker-relaxed activations are Shell-only'', False)
               else if av_generation av \<noteq> 0 then
                 (case enforce_dispatch (rd_broker_ms rd) (coordinate_to_capability cap) (av_agent_id av)
                    (av_generation av) default_scope (ds_broker srv) of
                    Err e \<Rightarrow> Err (fst (broker_error_mapping e), broker_error_message e, snd (broker_error_mapping e))
                  | Ok _ \<Rightarrow> Ok activation_id)
               else Ok activation_id))"

definition handle_invocation ::
  "('v, 'h) host_ops \<Rightarrow> Readings \<Rightarrow> 'v Envelope \<Rightarrow> nat \<Rightarrow> ('v, 'h) DaemonServer \<Rightarrow> SessionState \<Rightarrow>
   'v Envelope list \<times> ('v, 'h) DaemonServer \<times> SessionState" where
  "handle_invocation H rd env key srv st =
     (let cap = the (env_capability env); mname = the (env_method env)
      in case invocation_gate rd env cap srv st of
           Err (code, message, retry) \<Rightarrow> invocation_error rd env cap mname code message retry srv st
         | Ok activation_id \<Rightarrow>
             (case ho_dispatch H (ds_broker srv) rd key cap mname
                (case env_payload env of Some p \<Rightarrow> p | None \<Rightarrow> ho_null H) (ds_host srv) of
                (r, host) \<Rightarrow> method_reply rd env activation_id cap mname r (srv\<lparr>ds_host := host\<rparr>) st))"

section \<open>Envelopes\<close>

definition issue_text :: "ValidationIssue \<Rightarrow> string" where
  "issue_text i = vi_path i @ '': '' @ vi_message i"

fun join_text :: "string \<Rightarrow> string list \<Rightarrow> string" where
  "join_text sep [] = []"
| "join_text sep [x] = x"
| "join_text sep (x # xs) = x @ sep @ join_text sep xs"

definition handle_envelope ::
  "'v payload_codec \<Rightarrow> ('v, 'h) host_ops \<Rightarrow> Readings \<Rightarrow> 'v Envelope \<Rightarrow> nat \<Rightarrow> ('v, 'h) DaemonServer \<Rightarrow> SessionState \<Rightarrow>
   'v Envelope list \<times> ('v, 'h) DaemonServer \<times> SessionState" where
  "handle_envelope J H rd env key srv st0 =
     (if env_id env \<in> set (ss_seen_ids st0) then
        (case error_result rd (env_id env) (env_id env) (env_capability env) (env_method env) EC_MalformedMessage
           (''message id \"'' @ env_id env @ ''\" already used on this connection (replay)'') False srv st0 of
           (reply, srv1, st1) \<Rightarrow> ([reply], srv1, st1))
      else
        let st = st0\<lparr>ss_seen_ids := env_id env # ss_seen_ids st0\<rparr>
        in case validate_envelope J env of
             Err found \<Rightarrow>
               if id_length_ok (env_id env) then
                 (case error_result rd (env_id env) (env_id env) (env_capability env) (env_method env) EC_MalformedMessage
                    (''envelope validation failed: '' @ join_text ''; '' (map issue_text found)) False srv st of
                    (reply, srv1, st1) \<Rightarrow> ([reply], srv1, st1))
               else ([], srv, st)
           | Ok _ \<Rightarrow>
               (case env_kind env of
                  Kind_Hello \<Rightarrow> handle_hello J H rd env srv st
                | Kind_Invocation \<Rightarrow> handle_invocation H rd env key srv st
                | _ \<Rightarrow> ([], srv, st)))"

section \<open>A connection\<close>

text \<open>Decoding of a received frame, and the identifier of one that does not decode.\<close>

record 'v frame_codec = "'v payload_codec" +
  jc_envelope :: "u8 list \<Rightarrow> ('v Envelope, string) result"
  jc_frame_id :: "u8 list \<Rightarrow> string option"

definition malformed_reply ::
  "'v frame_codec \<Rightarrow> Readings \<Rightarrow> u8 list \<Rightarrow> string \<Rightarrow> ('v, 'h) DaemonServer \<Rightarrow> SessionState \<Rightarrow>
   'v Envelope list \<times> ('v, 'h) DaemonServer \<times> SessionState" where
  "malformed_reply J rd bytes e srv st =
     (case jc_frame_id J bytes of
        Some i \<Rightarrow>
          if id_length_ok i then
            (case error_result rd i i None None EC_MalformedMessage (''frame is not a valid envelope: '' @ e) False srv st of
               (reply, srv1, st1) \<Rightarrow> ([reply], srv1, st1))
          else ([], srv, st)
      | None \<Rightarrow> ([], srv, st))"

definition handle_frame ::
  "'v frame_codec \<Rightarrow> ('v, 'h) host_ops \<Rightarrow> Readings \<Rightarrow> u8 list \<Rightarrow> nat \<Rightarrow> ('v, 'h) DaemonServer \<Rightarrow> SessionState \<Rightarrow>
   'v Envelope list \<times> ('v, 'h) DaemonServer \<times> SessionState" where
  "handle_frame J H rd bytes key srv st =
     (case jc_envelope J bytes of
        Ok env \<Rightarrow> handle_envelope (payload_codec.truncate J) H rd env key srv st
      | Err e \<Rightarrow> malformed_reply J rd bytes e srv st)"

text \<open>
  The receive loop over the frames of a connection until the peer closes. Each event is a frame with the clock readings
  of its handling and whether the replies can be sent; the flag of the result says whether the loop ran to its end.
\<close>

fun serve_frames ::
  "'v frame_codec \<Rightarrow> ('v, 'h) host_ops \<Rightarrow> nat \<Rightarrow> (u8 list \<times> Readings \<times> bool) list \<Rightarrow> ('v, 'h) DaemonServer \<Rightarrow> SessionState \<Rightarrow>
   'v Envelope list \<times> bool \<times> ('v, 'h) DaemonServer \<times> SessionState" where
  "serve_frames J H key [] srv st = ([], True, srv, st)"
| "serve_frames J H key ((bytes, rd, send_ok) # fs) srv st =
     (case handle_frame J H rd bytes key srv st of
        (replies, srv1, st1) \<Rightarrow>
          if replies \<noteq> [] \<and> \<not> send_ok then ([], False, srv1, st1)
          else (case serve_frames J H key fs srv1 st1 of
                  (rest, ended, srv2, st2) \<Rightarrow> (replies @ rest, ended, srv2, st2)))"

text \<open>The end of a connection: reissue the credential file, release what it owned and revoke its activations.\<close>

definition revoke_session :: "nat \<Rightarrow> SessionState \<Rightarrow> 'v Broker \<Rightarrow> 'v Broker" where
  "revoke_session at st b =
     fold (\<lambda>(i, _) b. snd (revoke_agent_grants at i Disconnect b)) (ss_activations st) b"

definition teardown ::
  "('v, 'h) host_ops \<Rightarrow> nat \<Rightarrow> issue_inputs \<Rightarrow> nat \<Rightarrow> SessionState \<Rightarrow> ('v, 'h) DaemonServer \<Rightarrow> ('v, 'h) DaemonServer" where
  "teardown H key i at st srv =
     srv\<lparr>ds_bootstrap := reissue_credential_file i (ds_bootstrap srv), ds_host := ho_release H key (ds_host srv),
       ds_broker := revoke_session at st (ds_broker srv)\<rparr>"

definition serve_connection ::
  "'v frame_codec \<Rightarrow> ('v, 'h) host_ops \<Rightarrow> nat \<Rightarrow> PeerIdentity option \<Rightarrow> (u8 list \<times> Readings \<times> bool) list \<Rightarrow> issue_inputs \<Rightarrow> nat \<Rightarrow>
   ('v, 'h) DaemonServer \<Rightarrow> 'v Envelope list \<times> ('v, 'h) DaemonServer" where
  "serve_connection J H key identity fs i at srv =
     (case serve_frames J H key fs srv (new_session identity) of
        (replies, ended, srv1, st) \<Rightarrow> (replies, if ended then teardown H key i at st srv1 else srv1))"

section \<open>All connections together\<close>

text \<open>
  The daemon with its open sessions. A frame is handled in one step: its handler takes the broker lock at most once before
  the capability handler runs. \<open>D_Abort\<close> is a connection whose reply could not be sent.
\<close>

type_synonym ('v, 'h) daemon = "('v, 'h) DaemonServer \<times> (nat, SessionState) hashmap"

datatype daemon_event =
    D_Connect nat "PeerIdentity option"
  | D_Frame nat "u8 list" Readings
  | D_Close nat issue_inputs nat
  | D_Abort nat
  | D_Maintain nat issue_inputs

inductive daemon_step ::
  "'v frame_codec \<Rightarrow> ('v, 'h) host_ops \<Rightarrow> ('v, 'h) daemon \<Rightarrow> daemon_event \<Rightarrow> ('v, 'h) daemon \<Rightarrow> bool" for J H where
  connect: "daemon_step J H (srv, ss) (D_Connect key identity) (srv, hm_insert key (new_session identity) ss)"
| frame: "hm_get ss key = Some st \<Longrightarrow> handle_frame J H rd bytes key srv st = (replies, srv', st') \<Longrightarrow>
    daemon_step J H (srv, ss) (D_Frame key bytes rd) (srv', hm_insert key st' ss)"
| close: "hm_get ss key = Some st \<Longrightarrow>
    daemon_step J H (srv, ss) (D_Close key i at) (teardown H key i at st srv, hm_remove key ss)"
| abort: "daemon_step J H (srv, ss) (D_Abort key) (srv, hm_remove key ss)"
| maintain: "daemon_step J H (srv, ss) (D_Maintain now i)
    (srv\<lparr>ds_bootstrap := maintain_bootstrap_credential now i (ds_bootstrap srv)\<rparr>, ss)"

definition activation_ok :: "('v, 'h) host_ops \<Rightarrow> ('v, 'h) DaemonServer \<Rightarrow> SessionState \<Rightarrow> string \<Rightarrow> Activation \<Rightarrow> bool" where
  "activation_ok H srv st i av =
     (ss_authority st = Some (av_authority av) \<and>
      (av_authority av = ShellControl \<longrightarrow> policy_allows (ds_folds_case srv) (ds_policy srv) (ss_identity st)) \<and>
      (av_generation av = 0 \<longrightarrow> av_granted av = [] \<or> av_authority av = ShellControl) \<and>
      set (av_granted av) \<subseteq> set (ho_catalog H) \<and>
      (av_generation av = 0 \<or> agent_generation (av_agent_id av) i (ds_broker srv) = Some (av_generation av)))"

definition session_ok :: "('v, 'h) host_ops \<Rightarrow> ('v, 'h) DaemonServer \<Rightarrow> SessionState \<Rightarrow> bool" where
  "session_ok H srv st = (\<forall>i av. hm_get (ss_activations st) i = Some av \<longrightarrow> activation_ok H srv st i av)"

definition positive_generations :: "'v Broker \<Rightarrow> bool" where
  "positive_generations b = (\<forall>agent act g. agent_generation agent act b = Some g \<longrightarrow> 0 < g)"

definition daemon_inv :: "('v, 'h) host_ops \<Rightarrow> ('v, 'h) daemon \<Rightarrow> bool" where
  "daemon_inv H w = (bridge_inv UNIV (ds_broker (fst w)) \<and> positive_generations (ds_broker (fst w)) \<and>
     (\<forall>key st. hm_get (snd w) key = Some st \<longrightarrow> session_ok H (fst w) st))"

section \<open>Lemmas\<close>

lemma bridge_activations:
  assumes "bridge_inv A b"
  shows "activation a x (snd (broker_grant_from_negotiation now gclk lclk agent r b)) = activation a x b \<or>
    activation a x b = None \<and> activation a x (snd (broker_grant_from_negotiation now gclk lclk agent r b)) =
      Some \<lparr>act_generation = counter_of agent b + 1, act_revoked = False\<rparr>"
proof -
  obtain res b' where res: "broker_grant_from_negotiation now gclk lclk agent r b = (res, b')" by fastforce
  let ?P = "\<lambda>c. activation a x c = activation a x b \<or>
    activation a x b = None \<and> activation a x c = Some \<lparr>act_generation = counter_of agent b + 1, act_revoked = False\<rparr>"
  show ?thesis
  proof (cases "\<exists>e. res = Err e \<and> (\<forall>x. e \<noteq> Bridge_Broker x)")
    case True
    then have "b' = b" using bridge_refused res by blast
    then show ?thesis using res by simp
  next
    case False
    from res False have "?P b'"
    proof (rule bridge_issued)
      fix gen b0 b1 c
      let ?mk = "agent_lease_record agent (anr_activation_id r) (anr_scope r) gen
         (saturating_add now (saturating_mul (max_seconds c) 1000))"
      assume act: "activate agent (anr_activation_id r) b = (Ok gen, b0)"
        and g: "b1 = snd (issue_grants gclk (agent_grant_record agent (anr_scope r) gen now) (anr_granted r) b0)"
        and b': "b' = (if is_ok (fst (issue_grants gclk (agent_grant_record agent (anr_scope r) gen now) (anr_granted r) b0))
           then snd (issue_leases lclk ?mk (anr_granted r) b1) else b1)"
      have "?P b0" using act by (auto simp: activate_eq split: option.splits if_splits)
      moreover have "same_register b0 b1"
        using issue_grants_effect [of b0] bridge_inv_activate [OF assms(1) act] unfolding g bridge_inv_def by blast
      moreover have "same_register b1 (snd (issue_leases lclk ?mk (anr_granted r) b1))"
        using issue_leases_frame by blast
      ultimately show "?P b'" unfolding b' by (simp add: same_register_activation)
    qed
    then show ?thesis using res by simp
  qed
qed

lemma bridge_keeps_generation:
  assumes "bridge_inv A b" and "agent_generation a x b = Some g"
  shows "agent_generation a x (snd (broker_grant_from_negotiation now gclk lclk agent r b)) = Some g"
  using assms bridge_activations [OF assms(1), of a x now gclk lclk agent r] by (auto simp: agent_generation_def)

lemma bridge_positive:
  assumes "bridge_inv A b" and "positive_generations b"
  shows "positive_generations (snd (broker_grant_from_negotiation now gclk lclk agent r b))"
  unfolding positive_generations_def
proof (intro allI impI)
  fix a x g
  assume g: "agent_generation a x (snd (broker_grant_from_negotiation now gclk lclk agent r b)) = Some g"
  have "agent_generation a x (snd (broker_grant_from_negotiation now gclk lclk agent r b)) = agent_generation a x b \<or>
      agent_generation a x (snd (broker_grant_from_negotiation now gclk lclk agent r b)) = Some (counter_of agent b + 1)"
    using bridge_activations [OF assms(1), of a x now gclk lclk agent r] by (auto simp: agent_generation_def)
  thus "0 < g" using g assms(2) unfolding positive_generations_def by auto
qed

lemma revoke_keeps_generation:
  assumes "bridge_inv A b"
  shows "agent_generation a x (snd (revoke_agent_grants at act r b)) = agent_generation a x b"
proof -
  have "hm_wf (br_agent_activations b)" using assms by (simp add: bridge_inv_def generations_inv_def)
  thus ?thesis by (cases "activation a x b") (auto simp: agent_generation_def revoke_agent_activation)
qed

lemma bridge_generation:
  assumes "bridge_inv A b" and "broker_grant_from_negotiation now gclk lclk agent r b = (Ok ag, b')"
  shows "agent_generation agent (anr_activation_id r) b' = Some (ag_generation ag)"
  using assms(2)
proof (rule bridge_Ok)
  fix gen b0 b1 c
  let ?mk = "agent_lease_record agent (anr_activation_id r) (anr_scope r) gen
       (saturating_add now (saturating_mul (max_seconds c) 1000))"
  assume act: "activate agent (anr_activation_id r) b = (Ok gen, b0)"
    and g: "issue_grants gclk (agent_grant_record agent (anr_scope r) gen now) (anr_granted r) b0 = (Ok (), b1)"
    and l: "issue_leases lclk ?mk (anr_granted r) b1 = (Ok (), b')" and gen: "ag_generation ag = gen"
  have "agent_generation agent (anr_activation_id r) b0 = Some gen"
    using act by (auto simp: activate_eq agent_generation_def split: option.splits if_splits)
  moreover have "same_register b0 b1"
    using issue_grants_effect [of b0 gclk "agent_grant_record agent (anr_scope r) gen now" "anr_granted r"]
      bridge_inv_activate [OF assms(1) act] unfolding g bridge_inv_def by auto
  moreover have "same_register b1 b'" using issue_leases_frame [of b1 lclk ?mk "anr_granted r"] unfolding l by simp
  ultimately show ?thesis by (simp add: agent_generation_def same_register_activation gen)
qed

text \<open>What handling a frame does to the session and the broker: nothing but bookkeeping, or one negotiation.\<close>

definition core_same :: "('v, 'h) DaemonServer \<Rightarrow> ('v, 'h) DaemonServer \<Rightarrow> bool" where
  "core_same srv srv' = (ds_policy srv' = ds_policy srv \<and> ds_folds_case srv' = ds_folds_case srv \<and>
     ds_bootstrap srv' = ds_bootstrap srv)"

definition quiet :: "('v, 'h) DaemonServer \<Rightarrow> SessionState \<Rightarrow> ('v, 'h) DaemonServer \<Rightarrow> SessionState \<Rightarrow> bool" where
  "quiet srv st srv' st' = (core_same srv srv' \<and> ds_broker srv' = ds_broker srv \<and>
     ss_activations st' = ss_activations st \<and> ss_authority st' = ss_authority st \<and> ss_identity st' = ss_identity st)"

definition greeted ::
  "('v, 'h) host_ops \<Rightarrow> Readings \<Rightarrow> ('v, 'h) DaemonServer \<Rightarrow> SessionState \<Rightarrow> ('v, 'h) DaemonServer \<Rightarrow> SessionState \<Rightarrow> bool" where
  "greeted H rd srv st srv' st' = (core_same srv srv' \<and> ss_identity st' = ss_identity st \<and>
     (\<exists>p hello i hid granted un g.
        (ss_authority st = None \<or> ss_authority st = Some (hello_authority srv st p)) \<and>
        negotiate rd (hello_authority srv st p) (agent_id_of p) i (filter (catalog_supports H) hello)
          (map denied (filter (\<lambda>c. \<not> catalog_supports H c) hello)) (ds_broker srv) = (granted, un, g, ds_broker srv') \<and>
        ss_authority st' = Some (hello_authority srv st p) \<and>
        ss_activations st' = hm_insert i \<lparr>av_activation_id = i, av_authority = hello_authority srv st p,
          av_agent_id = agent_id_of p, av_generation = g, av_granted = granted, av_hello_id = hid\<rparr> (ss_activations st)))"

declare chars_take.simps [simp del]

lemma error_result_quiet:
  "error_result rd c r cap m code msg b srv st = (reply, srv', st') \<Longrightarrow> quiet srv st srv' st' \<and> ds_host srv' = ds_host srv"
  by (auto simp: error_result_def quiet_def core_same_def)

lemma single_reply_quiet:
  assumes "(case error_result rd c r cap m code msg b srv st of (reply, srv1, st1) \<Rightarrow> ([reply], srv1, st1)) = (replies, srv', st')"
  shows "quiet srv st srv' st' \<and> ds_host srv' = ds_host srv"
  using assms by (cases "error_result rd c r cap m code msg b srv st") (auto dest: error_result_quiet)

lemma quiet_trans: "quiet srv st srv1 st1 \<Longrightarrow> quiet srv1 st1 srv2 st2 \<Longrightarrow> quiet srv st srv2 st2"
  by (simp add: quiet_def core_same_def)

lemma handle_hello_effect:
  assumes "handle_hello J H rd env srv st = (replies, srv', st')"
  shows "(quiet srv st srv' st' \<or> greeted H rd srv st srv' st') \<and> ds_host srv' = ds_host srv"
proof (cases "Option.bind (env_payload env) (\<lambda>v. case jc_hello J v of Ok p \<Rightarrow> Some p | Err _ \<Rightarrow> None)")
  case None
  thus ?thesis using assms by (simp add: handle_hello_def quiet_def core_same_def)
next
  case (Some hello)
  let ?a = "hello_authority srv st (env_participant env)"
  let ?act = "new_activation_id (rd_act_nanos rd) (ds_id_counter srv)"
  obtain granted un g b where n: "negotiate rd ?a (agent_id_of (env_participant env)) ?act
      (filter (catalog_supports H) (hp_supports hello))
      (map denied (filter (\<lambda>c. \<not> catalog_supports H c) (hp_supports hello))) (ds_broker srv) = (granted, un, g, b)"
    by (metis prod_cases4)
  show ?thesis
  proof (cases "ss_authority st \<noteq> None \<and> ss_authority st \<noteq> Some ?a")
    case True
    let ?srv0 = "srv\<lparr>ds_id_counter := ds_id_counter srv + 1\<rparr>"
    have "(case error_result rd (env_id env) (env_id env) None None EC_Unauthorized
        ''this connection already established a different participant authority; open a new connection'' False ?srv0 st of
        (reply, srv1, st1) \<Rightarrow> ([reply], srv1, st1)) = (replies, srv', st')"
      using assms Some True by (simp only: handle_hello_def option.case Let_def if_True simp_thms)
    from single_reply_quiet [OF this] show ?thesis by (simp add: quiet_def core_same_def)
  next
    case False
    hence srv': "ds_broker srv' = b" "core_same srv srv'" "ds_host srv' = ds_host srv" "ss_identity st' = ss_identity st"
        "ss_authority st' = Some ?a"
        "ss_activations st' = hm_insert ?act \<lparr>av_activation_id = ?act, av_authority = ?a,
           av_agent_id = agent_id_of (env_participant env), av_generation = g, av_granted = granted,
           av_hello_id = env_id env\<rparr> (ss_activations st)"
      using assms Some n by (auto simp: handle_hello_def Let_def core_same_def)
    moreover have "ss_authority st = None \<or> ss_authority st = Some ?a" using False by blast
    ultimately have "greeted H rd srv st srv' st'" using n unfolding greeted_def srv'(1) by blast
    thus ?thesis using srv'(3) by blast
  qed
qed

lemma invocation_error_quiet:
  "invocation_error rd env cap m code msg b srv st = (replies, srv', st') \<Longrightarrow> quiet srv st srv' st' \<and> ds_host srv' = ds_host srv"
  unfolding invocation_error_def by (rule single_reply_quiet)

lemma method_reply_quiet:
  "method_reply rd env i cap m r srv st = (replies, srv', st') \<Longrightarrow> quiet srv st srv' st' \<and> ds_host srv' = ds_host srv"
  by (auto simp: method_reply_def quiet_def core_same_def split: result.splits DaemonMethodError.splits
      dest!: invocation_error_quiet)

lemma handle_invocation_quiet:
  assumes "handle_invocation H rd env key srv st = (replies, srv', st')"
  shows "quiet srv st srv' st'"
proof (cases "invocation_gate rd env (the (env_capability env)) srv st")
  case (Ok i)
  obtain r host where d: "ho_dispatch H (ds_broker srv) rd key (the (env_capability env)) (the (env_method env))
      (case env_payload env of Some p \<Rightarrow> p | None \<Rightarrow> ho_null H) (ds_host srv) = (r, host)" by fastforce
  have "quiet (srv\<lparr>ds_host := host\<rparr>) st srv' st'"
    using assms Ok d method_reply_quiet by (simp add: handle_invocation_def Let_def) blast
  thus ?thesis by (simp add: quiet_def core_same_def)
next
  case (Err e)
  obtain code msg b where "e = (code, msg, b)" by (cases e) auto
  thus ?thesis using assms Err invocation_error_quiet by (simp add: handle_invocation_def Let_def) blast
qed

lemma handle_envelope_effect:
  assumes "handle_envelope J H rd env key srv st = (replies, srv', st')"
  shows "quiet srv st srv' st' \<or> greeted H rd srv st srv' st'"
proof -
  let ?st = "st\<lparr>ss_seen_ids := env_id env # ss_seen_ids st\<rparr>"
  have q: "quiet srv ?st srv1 st1 \<Longrightarrow> quiet srv st srv1 st1" for srv1 st1 by (simp add: quiet_def)
  have auth: "hello_authority srv ?st p = hello_authority srv st p" for p by (simp add: hello_authority_def)
  have g: "greeted H rd srv ?st srv1 st1 \<Longrightarrow> greeted H rd srv st srv1 st1" for srv1 st1
    unfolding greeted_def auth by simp
  consider (replay) "env_id env \<in> set (ss_seen_ids st)" |
    (invalid) e where "env_id env \<notin> set (ss_seen_ids st)" "validate_envelope J env = Err e" |
    (valid) "env_id env \<notin> set (ss_seen_ids st)" "validate_envelope J env = Ok ()"
    by (cases "validate_envelope J env") auto
  thus ?thesis
  proof cases
    case replay
    thus ?thesis using assms single_reply_quiet by (simp add: handle_envelope_def) blast
  next
    case invalid
    show ?thesis
    proof (cases "id_length_ok (env_id env)")
      case True
      hence "quiet srv ?st srv' st'"
        using assms invalid by (intro conjunct1 [OF single_reply_quiet]) (simp add: handle_envelope_def)
      thus ?thesis by (rule disjI1 [OF q])
    next
      case False
      thus ?thesis using assms invalid by (auto simp: handle_envelope_def quiet_def core_same_def)
    qed
  next
    case valid
    show ?thesis
    proof (cases "env_kind env")
      case Kind_Hello
      thus ?thesis
        using assms valid handle_hello_effect [of J H rd env srv ?st replies srv' st'] q g
        by (auto simp: handle_envelope_def Let_def)
    next
      case Kind_Invocation
      thus ?thesis
        using assms valid handle_invocation_quiet [of H rd env key srv ?st replies srv' st'] q
        by (auto simp: handle_envelope_def Let_def)
    qed (use assms valid in \<open>auto simp: handle_envelope_def Let_def quiet_def core_same_def\<close>)
  qed
qed

lemma handle_frame_effect:
  assumes "handle_frame J H rd bytes key srv st = (replies, srv', st')"
  shows "quiet srv st srv' st' \<or> greeted H rd srv st srv' st'"
proof (cases "jc_envelope J bytes")
  case (Ok env)
  hence "handle_envelope (payload_codec.truncate J) H rd env key srv st = (replies, srv', st')"
    using assms by (simp add: handle_frame_def)
  thus ?thesis by (rule handle_envelope_effect)
next
  case (Err e)
  hence m: "malformed_reply J rd bytes e srv st = (replies, srv', st')" using assms by (simp add: handle_frame_def)
  have "quiet srv st srv' st'"
  proof (cases "\<exists>i. jc_frame_id J bytes = Some i \<and> id_length_ok i")
    case True
    then obtain i where "jc_frame_id J bytes = Some i" "id_length_ok i" by blast
    thus ?thesis using m by (intro conjunct1 [OF single_reply_quiet]) (simp add: malformed_reply_def)
  next
    case False
    thus ?thesis using m by (auto simp: malformed_reply_def quiet_def core_same_def split: option.splits)
  qed
  thus ?thesis by blast
qed

text \<open>Negotiations and teardowns as operations on the broker.\<close>

lemma negotiate_effect:
  assumes "negotiate rd a agent i gs un b = (granted, un', g, b')" and "bridge_inv UNIV b" and "positive_generations b"
  shows "run (broker_step UNIV) b (if gs = [] then [] else [Op_Bridge (rd_broker_ms rd) (rd_grant_ms rd) (rd_lease_ms rd) agent
           \<lparr>anr_activation_id = i, anr_agreed = True, anr_granted = map coordinate_to_capability gs,
            anr_conformance = Agent_Known, anr_lease_constraints = Some \<lparr>max_seconds = LEASE_MAX_SECONDS, approval_required = None\<rparr>,
            anr_scope = default_scope\<rparr>]) b'"
    "positive_generations b'" "\<And>a x g. agent_generation a x b = Some g \<Longrightarrow> agent_generation a x b' = Some g"
    "set granted \<subseteq> set gs" "g = 0 \<Longrightarrow> granted = [] \<or> a = ShellControl"
    "g = 0 \<or> agent_generation agent i b' = Some g"
proof -
  let ?r = "\<lparr>anr_activation_id = i, anr_agreed = True, anr_granted = map coordinate_to_capability gs,
     anr_conformance = Agent_Known, anr_lease_constraints = Some \<lparr>max_seconds = LEASE_MAX_SECONDS, approval_required = None\<rparr>,
     anr_scope = default_scope\<rparr>"
  obtain res b1 where br: "broker_grant_from_negotiation (rd_broker_ms rd) (rd_grant_ms rd) (rd_lease_ms rd) agent ?r b = (res, b1)"
    by fastforce
  have b': "b' = (if gs = [] then b else b1)"
    using assms(1) br by (auto simp: negotiate_def Let_def split: result.splits if_splits)
  show "run (broker_step UNIV) b (if gs = [] then [] else [Op_Bridge (rd_broker_ms rd) (rd_grant_ms rd) (rd_lease_ms rd) agent ?r]) b'"
  proof (cases "gs = []")
    case False
    have "broker_step UNIV b (Op_Bridge (rd_broker_ms rd) (rd_grant_ms rd) (rd_lease_ms rd) agent ?r) b1"
      using broker_stepI [of UNIV "Op_Bridge (rd_broker_ms rd) (rd_grant_ms rd) (rd_lease_ms rd) agent ?r" b] br by simp
    from run_cons [where step = "broker_step UNIV", OF this run_nil] show ?thesis using False by (simp add: b')
  qed (simp add: b' run_nil)
  show "positive_generations b'" using bridge_positive [OF assms(2,3)] assms(3) br by (metis b' snd_conv)
  show "agent_generation a x b = Some g \<Longrightarrow> agent_generation a x b' = Some g" for a x g
    using bridge_keeps_generation [OF assms(2)] br by (metis b' snd_conv)
  show "set granted \<subseteq> set gs"
    using assms(1) br by (auto simp: negotiate_def Let_def split: result.splits if_splits)
  show "g = 0 \<or> agent_generation agent i b' = Some g"
  proof (cases "\<exists>ag. res = Ok ag \<and> gs \<noteq> []")
    case True
    then obtain ag where ag: "res = Ok ag" "gs \<noteq> []" by blast
    have "agent_generation agent (anr_activation_id ?r) b1 = Some (ag_generation ag)"
      using bridge_generation [OF assms(2)] br ag(1) by blast
    thus ?thesis using assms(1) br ag by (auto simp: negotiate_def)
  next
    case False
    thus ?thesis using assms(1) br by (cases res) (auto simp: negotiate_def Let_def split: if_splits)
  qed
  show "g = 0 \<Longrightarrow> granted = [] \<or> a = ShellControl"
  proof (cases "\<exists>ag. res = Ok ag \<and> gs \<noteq> []")
    case True
    then obtain ag where ag: "res = Ok ag" "gs \<noteq> []" by blast
    have "agent_generation agent (anr_activation_id ?r) b1 = Some (ag_generation ag)"
      using bridge_generation [OF assms(2)] br ag(1) by blast
    moreover have "positive_generations b1" using bridge_positive [OF assms(2,3)] br by (metis snd_conv)
    ultimately have "ag_generation ag \<noteq> 0" unfolding positive_generations_def by blast
    thus "g = 0 \<Longrightarrow> ?thesis" using assms(1) br ag by (auto simp: negotiate_def)
  next
    case False
    thus "g = 0 \<Longrightarrow> ?thesis" using assms(1) br by (cases res) (auto simp: negotiate_def Let_def split: if_splits)
  qed
qed

lemma revoke_one:
  assumes "bridge_inv UNIV b"
  shows "broker_step UNIV b (Op_Revoke_Agent at i r) (snd (revoke_agent_grants at i r b))"
    "bridge_inv UNIV (snd (revoke_agent_grants at i r b))"
  using broker_stepI [of UNIV "Op_Revoke_Agent at i r" b] bridge_inv_revoke_agent [OF assms] by simp_all

lemma revoke_many_run:
  assumes "bridge_inv UNIV b"
  shows "\<exists>ops. run (broker_step UNIV) b ops (fold (\<lambda>(i, _) b. snd (revoke_agent_grants at i Disconnect b)) acts b)"
  using assms
proof (induction acts arbitrary: b)
  case (Cons av acts)
  obtain i v where av: "av = (i, v)" by fastforce
  obtain ops where "run (broker_step UNIV) (snd (revoke_agent_grants at i Disconnect b)) ops
      (fold (\<lambda>(i, _) b. snd (revoke_agent_grants at i Disconnect b)) acts (snd (revoke_agent_grants at i Disconnect b)))"
    using Cons.IH [OF revoke_one(2) [OF Cons.prems]] by blast
  from run_cons [where step = "broker_step UNIV", OF revoke_one(1) [OF Cons.prems] this]
  show ?case by (simp only: av fold_Cons comp_apply prod.case) blast
qed (auto intro: run_nil)

lemma revoke_many_generation:
  assumes "bridge_inv UNIV b"
  shows "agent_generation a x (fold (\<lambda>(i, _) b. snd (revoke_agent_grants at i Disconnect b)) acts b) = agent_generation a x b"
  using assms
proof (induction acts arbitrary: b)
  case (Cons av acts)
  obtain i v where av: "av = (i, v)" by fastforce
  show ?case
    using Cons.IH [OF revoke_one(2) [OF Cons.prems]] revoke_keeps_generation [OF Cons.prems] by (simp add: av)
qed simp

lemma revoked_after_one:
  assumes "bridge_inv UNIV b" and "agent_generation a x b \<noteq> None" and "x = i \<or> agent_activation_revoked a x b"
  shows "agent_activation_revoked a x (snd (revoke_agent_grants at i r b))"
proof -
  obtain st where st: "activation a x b = Some st" using assms(2) by (auto simp: agent_generation_def)
  have "hm_wf (br_agent_activations b)" using assms(1) by (simp add: bridge_inv_def generations_inv_def)
  thus ?thesis
    using assms(3) st by (cases "x = i") (simp_all add: agent_activation_revoked_def revoke_agent_activation)
qed

lemma revoke_many_revoked:
  assumes "bridge_inv UNIV b" and "agent_generation a x b \<noteq> None" and "x \<in> fst ` set acts \<or> agent_activation_revoked a x b"
  shows "agent_activation_revoked a x (fold (\<lambda>(i, _) b. snd (revoke_agent_grants at i Disconnect b)) acts b)"
  using assms
proof (induction acts arbitrary: b)
  case (Cons av acts)
  obtain i v where av: "av = (i, v)" by fastforce
  have g: "agent_generation a x (snd (revoke_agent_grants at i Disconnect b)) \<noteq> None"
    using Cons.prems(2) revoke_keeps_generation [OF Cons.prems(1)] by simp
  have "x \<in> fst ` set acts \<or> agent_activation_revoked a x (snd (revoke_agent_grants at i Disconnect b))"
    using revoked_after_one [OF Cons.prems(1,2)] Cons.prems(3) by (auto simp: av)
  from Cons.IH [OF revoke_one(2) [OF Cons.prems(1)] g this] show ?case by (simp add: av)
qed simp

lemma activation_ok_mono:
  assumes "activation_ok H srv st i av" and "core_same srv srv'" and "ss_identity st' = ss_identity st"
    and "ss_authority st' = ss_authority st"
    and "agent_generation (av_agent_id av) i (ds_broker srv) = Some (av_generation av) \<Longrightarrow>
      agent_generation (av_agent_id av) i (ds_broker srv') = Some (av_generation av)"
  shows "activation_ok H srv' st' i av"
  unfolding activation_ok_def
proof (intro conjI)
  note a = assms(1) [unfolded activation_ok_def]
  show "ss_authority st' = Some (av_authority av)" using a assms(4) by simp
  show "av_authority av = ShellControl \<longrightarrow> policy_allows (ds_folds_case srv') (ds_policy srv') (ss_identity st')"
    using a assms(2,3) by (simp add: core_same_def)
  show "av_generation av = 0 \<longrightarrow> av_granted av = [] \<or> av_authority av = ShellControl" using a by blast
  show "set (av_granted av) \<subseteq> set (ho_catalog H)" using a by blast
  show "av_generation av = 0 \<or> agent_generation (av_agent_id av) i (ds_broker srv') = Some (av_generation av)"
    using a assms(5) by blast
qed

lemma core_same_session:
  assumes "core_same srv srv'" and "session_ok H srv st"
    and "\<And>a x g. agent_generation a x (ds_broker srv) = Some g \<Longrightarrow> agent_generation a x (ds_broker srv') = Some g"
  shows "session_ok H srv' st"
  using assms(2) activation_ok_mono [OF _ assms(1) refl refl assms(3)] unfolding session_ok_def by blast

lemma greeted_session:
  assumes "greeted H rd srv st srv' st'" and "session_ok H srv st" and "bridge_inv UNIV (ds_broker srv)"
    and "positive_generations (ds_broker srv)"
  shows "session_ok H srv' st'" "bridge_inv UNIV (ds_broker srv')" "positive_generations (ds_broker srv')"
    "\<exists>ops. run (broker_step UNIV) (ds_broker srv) ops (ds_broker srv')"
    "\<And>a x g. agent_generation a x (ds_broker srv) = Some g \<Longrightarrow> agent_generation a x (ds_broker srv') = Some g"
proof -
  obtain p hello i hid granted un g where
    auth: "ss_authority st = None \<or> ss_authority st = Some (hello_authority srv st p)"
    and n: "negotiate rd (hello_authority srv st p) (agent_id_of p) i (filter (catalog_supports H) hello)
        (map denied (filter (\<lambda>c. \<not> catalog_supports H c) hello)) (ds_broker srv) = (granted, un, g, ds_broker srv')"
    and core: "core_same srv srv'" and ident: "ss_identity st' = ss_identity st"
    and auth': "ss_authority st' = Some (hello_authority srv st p)"
    and acts: "ss_activations st' = hm_insert i \<lparr>av_activation_id = i, av_authority = hello_authority srv st p,
        av_agent_id = agent_id_of p, av_generation = g, av_granted = granted, av_hello_id = hid\<rparr> (ss_activations st)"
    using assms(1) unfolding greeted_def by blast
  note ne = negotiate_effect [OF n assms(3,4)]
  show "\<exists>ops. run (broker_step UNIV) (ds_broker srv) ops (ds_broker srv')" using ne(1) by blast
  show "bridge_inv UNIV (ds_broker srv')" using bridge.run_inv [OF ne(1) assms(3)] .
  show "positive_generations (ds_broker srv')" by (rule ne(2))
  show "agent_generation a x (ds_broker srv) = Some g \<Longrightarrow> agent_generation a x (ds_broker srv') = Some g" for a x g
    by (rule ne(3))
  have allows: "hello_authority srv st p = ShellControl \<Longrightarrow> policy_allows (ds_folds_case srv) (ds_policy srv) (ss_identity st)"
    by (simp add: hello_authority_def split: if_splits)
  have cat: "set granted \<subseteq> set (ho_catalog H)" using ne(4) by (auto simp: catalog_supports_def)
  show "session_ok H srv' st'"
    unfolding session_ok_def
  proof (intro allI impI)
    fix k av
    assume k: "hm_get (ss_activations st') k = Some av"
    show "activation_ok H srv' st' k av"
    proof (cases "k = i")
      case True
      hence "av = \<lparr>av_activation_id = i, av_authority = hello_authority srv st p,
        av_agent_id = agent_id_of p, av_generation = g, av_granted = granted, av_hello_id = hid\<rparr>"
        using k by (simp add: acts hm_get_insert)
      thus ?thesis
        using auth' allows core ident cat ne(5,6) True unfolding activation_ok_def core_same_def by simp
    next
      case False
      hence "activation_ok H srv st k av" using assms(2) k unfolding session_ok_def by (simp add: acts hm_get_insert)
      moreover have "ss_authority st' = ss_authority st"
        using calculation auth auth' by (auto simp: activation_ok_def)
      ultimately show ?thesis using activation_ok_mono [OF _ core ident] ne(3) by blast
    qed
  qed
qed

definition serves :: "('v, 'h) host_ops \<Rightarrow> ('v, 'h) DaemonServer \<Rightarrow> (nat, SessionState) hashmap \<Rightarrow> bool" where
  "serves H srv ss = (bridge_inv UNIV (ds_broker srv) \<and> positive_generations (ds_broker srv) \<and>
     (\<forall>key st. hm_get ss key = Some st \<longrightarrow> session_ok H srv st))"

text \<open>How one server state follows another: the policy is fixed, the broker moves by its own steps.\<close>

definition follows :: "('v, 'h) DaemonServer \<Rightarrow> ('v, 'h) DaemonServer \<Rightarrow> bool" where
  "follows srv srv' = ((\<exists>ops. run (broker_step UNIV) (ds_broker srv) ops (ds_broker srv')) \<and>
     ds_policy srv' = ds_policy srv \<and> ds_folds_case srv' = ds_folds_case srv)"

lemma follows_same:
  assumes "ds_broker srv' = ds_broker srv" "ds_policy srv' = ds_policy srv" "ds_folds_case srv' = ds_folds_case srv"
  shows "follows srv srv'"
  unfolding follows_def assms by (intro conjI exI [of _ "[]"] run_nil refl)

lemma session_ok_cong:
  assumes "ds_broker srv' = ds_broker srv" "ds_policy srv' = ds_policy srv" "ds_folds_case srv' = ds_folds_case srv"
    "ss_activations st' = ss_activations st" "ss_authority st' = ss_authority st" "ss_identity st' = ss_identity st"
  shows "session_ok H srv' st' = session_ok H srv st"
  unfolding session_ok_def activation_ok_def assms ..

lemma frame_serves:
  assumes "serves H srv ss" and "hm_get ss key = Some st" and "handle_frame J H rd bytes key srv st = (replies, srv', st')"
  shows "serves H srv' (hm_insert key st' ss) \<and> follows srv srv'"
proof -
  have inv0: "bridge_inv UNIV (ds_broker srv)" "positive_generations (ds_broker srv)"
      "\<And>key st. hm_get ss key = Some st \<Longrightarrow> session_ok H srv st"
    using assms(1) by (auto simp: serves_def)
  note st = inv0(3) [OF assms(2)]
  consider (quiet) "quiet srv st srv' st'" | (greeted) "greeted H rd srv st srv' st'"
    using handle_frame_effect [OF assms(3)] by blast
  thus ?thesis
  proof cases
    case quiet
    hence q: "ds_broker srv' = ds_broker srv" "ds_policy srv' = ds_policy srv" "ds_folds_case srv' = ds_folds_case srv"
        "ss_activations st' = ss_activations st" "ss_authority st' = ss_authority st" "ss_identity st' = ss_identity st"
      by (simp_all add: quiet_def core_same_def)
    have "session_ok H srv' s" if "hm_get (hm_insert key st' ss) k = Some s" for k s
    proof (cases "k = key")
      case True
      thus ?thesis using that st session_ok_cong [OF q] by (simp add: hm_get_insert)
    next
      case False
      thus ?thesis using that inv0(3) [of k s] session_ok_cong [OF q(1-3) refl refl refl] by (simp add: hm_get_insert)
    qed
    thus ?thesis using inv0 follows_same [OF q(1-3)] by (simp add: serves_def q(1))
  next
    case greeted
    note g = greeted_session [OF greeted st inv0(1,2)]
    have core: "core_same srv srv'" using greeted by (simp add: greeted_def)
    have "session_ok H srv' s" if "hm_get (hm_insert key st' ss) k = Some s" for k s
    proof (cases "k = key")
      case True
      thus ?thesis using that g(1) by (simp add: hm_get_insert)
    next
      case False
      hence "session_ok H srv s" using that inv0(3) [of k s] by (simp add: hm_get_insert)
      thus ?thesis using core_same_session [OF core _ g(5)] by blast
    qed
    moreover have "follows srv srv'" using g(4) core by (simp add: follows_def core_same_def)
    ultimately show ?thesis using g(2,3) unfolding serves_def by blast
  qed
qed

lemma close_serves:
  assumes "serves H srv ss"
  shows "serves H (teardown H key i at st srv) (hm_remove key ss) \<and> follows srv (teardown H key i at st srv)"
proof -
  let ?srv' = "teardown H key i at st srv"
  have inv0: "bridge_inv UNIV (ds_broker srv)" "positive_generations (ds_broker srv)"
      "\<And>key st. hm_get ss key = Some st \<Longrightarrow> session_ok H srv st"
    using assms(1) by (auto simp: serves_def)
  have b: "ds_broker ?srv' = revoke_session at st (ds_broker srv)" by (simp add: teardown_def)
  obtain ops where ops: "run (broker_step UNIV) (ds_broker srv) ops (ds_broker ?srv')"
    using revoke_many_run [OF inv0(1)] unfolding b revoke_session_def by blast
  have gen: "agent_generation a x (ds_broker ?srv') = agent_generation a x (ds_broker srv)" for a x
    using revoke_many_generation [OF inv0(1)] unfolding b revoke_session_def .
  have p: "ds_policy ?srv' = ds_policy srv" "ds_folds_case ?srv' = ds_folds_case srv" by (simp_all add: teardown_def)
  have "session_ok H ?srv' s" if "hm_get (hm_remove key ss) k = Some s" for k s
    using inv0(3) [of k s] that unfolding session_ok_def activation_ok_def gen p by (simp add: hm_get_remove split: if_splits)
  moreover have "bridge_inv UNIV (ds_broker ?srv')" using bridge.run_inv [OF ops inv0(1)] .
  moreover have "positive_generations (ds_broker ?srv')" using inv0(2) unfolding positive_generations_def gen .
  ultimately show ?thesis using ops p unfolding serves_def follows_def by blast
qed

lemma daemon_step_effect:
  assumes "daemon_inv H w" and "daemon_step J H w e w'"
  shows "daemon_inv H w' \<and> follows (fst w) (fst w')"
proof -
  have eq: "daemon_inv H v = serves H (fst v) (snd v)" for v by (simp add: daemon_inv_def serves_def)
  from assms(2) show ?thesis
  proof (cases rule: daemon_step.cases)
    case (connect srv ss key identity)
    moreover have "session_ok H srv (new_session identity)" by (simp add: session_ok_def new_session_def hm_empty)
    ultimately show ?thesis
      using assms(1) follows_same [of srv srv] unfolding eq serves_def by (simp add: hm_get_insert)
  next
    case (frame ss key st rd bytes srv replies srv' st')
    thus ?thesis using frame_serves [of H srv ss key st] assms(1) unfolding eq by simp
  next
    case (close ss key st srv i at)
    thus ?thesis using close_serves [of H srv ss] assms(1) unfolding eq by simp
  next
    case (abort srv ss key)
    thus ?thesis using assms(1) follows_same [of srv srv] unfolding eq serves_def by (simp add: hm_get_remove)
  next
    case (maintain srv ss now i)
    let ?srv' = "srv\<lparr>ds_bootstrap := maintain_bootstrap_credential now i (ds_bootstrap srv)\<rparr>"
    have "session_ok H ?srv' st = session_ok H srv st" for st by (rule session_ok_cong) simp_all
    thus ?thesis using maintain assms(1) follows_same [of ?srv' srv] unfolding eq serves_def by simp
  qed
qed

end
