(* ===== verification/Daemon_Authority.thy ===== *)
theory Daemon_Authority
  imports Daemon_Server
begin

text \<open>
  What the envelope server of \<open>Daemon_Server\<close> guarantees: who may reach a capability handler, what an authority class rests on,
  what the end of a connection takes away, and which replies are well formed.
\<close>

section \<open>Interpretations\<close>

interpretation daemon: preserved "daemon_step J H" "daemon_inv H" for J H
  by unfold_locales (use daemon_step_effect in blast)

definition policy_is :: "('v, 'h) host_ops \<Rightarrow> PeerIdentityPolicy \<Rightarrow> bool \<Rightarrow> ('v, 'h) daemon \<Rightarrow> bool" where
  "policy_is H policy folds_case w = (daemon_inv H w \<and> ds_policy (fst w) = policy \<and> ds_folds_case (fst w) = folds_case)"

interpretation policy: preserved "daemon_step J H" "policy_is H policy folds_case" for J H policy folds_case
  by unfold_locales (use daemon_step_effect in \<open>fastforce simp: policy_is_def follows_def\<close>)

text \<open>A revoked activation stays revoked in the broker of the daemon.\<close>

definition cut_off :: "('v, 'h) host_ops \<Rightarrow> string \<Rightarrow> string \<Rightarrow> AgentActivationState \<Rightarrow> ('v, 'h) daemon \<Rightarrow> bool" where
  "cut_off H agent act st w = (daemon_inv H w \<and> settled UNIV agent act st (ds_broker (fst w)))"

lemma cut_off_step:
  assumes "cut_off H agent act st w" "daemon_step J H w e w'"
  shows "cut_off H agent act st w'"
proof -
  have "daemon_inv H w" and settled: "settled UNIV agent act st (ds_broker (fst w))" using assms(1) by (auto simp: cut_off_def)
  hence "daemon_inv H w' \<and> follows (fst w) (fst w')" using daemon_step_effect [OF _ assms(2)] by blast
  moreover obtain ops where "run (broker_step UNIV) (ds_broker (fst w)) ops (ds_broker (fst w'))"
    using calculation unfolding follows_def by blast
  hence "settled UNIV agent act st (ds_broker (fst w'))" using settled.run_inv settled by blast
  ultimately show ?thesis by (simp add: cut_off_def)
qed

interpretation cut_off: preserved "daemon_step J H" "cut_off H agent act st" for J H agent act st
  by unfold_locales (rule cut_off_step)

lemma daemon_inv_start: "ds_broker srv = new_broker \<Longrightarrow> daemon_inv H (srv, [])"
  by (simp add: daemon_inv_def bridge_inv_new positive_generations_def agent_generation_def hm_empty)

lemma daemon_inv_activation:
  "daemon_inv H (srv, ss) \<Longrightarrow> hm_get ss key = Some st \<Longrightarrow> hm_get (ss_activations st) i = Some av \<Longrightarrow> activation_ok H srv st i av"
  by (simp add: daemon_inv_def session_ok_def)

section \<open>Authorization\<close>

text \<open>When an invocation is authorized, stated over the session and the broker.\<close>

definition invocation_authorized ::
  "'v payload_codec \<Rightarrow> Readings \<Rightarrow> 'v Envelope \<Rightarrow> ('v, 'h) DaemonServer \<Rightarrow> SessionState \<Rightarrow> bool" where
  "invocation_authorized J rd env srv st =
     (env_id env \<notin> set (ss_seen_ids st) \<and> frame_ok J env \<and> env_kind env = Kind_Invocation \<and>
      (\<exists>act av cap. pa_activation_id (env_participant env) = Some act \<and> hm_get (ss_activations st) act = Some av \<and>
         env_capability env = Some cap \<and> cap \<in> set (av_granted av) \<and>
         (if av_generation av = 0 then av_authority av = ShellControl
          else enforce_dispatch (rd_broker_ms rd) (coordinate_to_capability cap) (av_agent_id av) (av_generation av)
            default_scope (ds_broker srv) = Ok ())))"

lemma invocation_gate_Ok:
  "invocation_gate rd env cap srv st = Ok act \<longleftrightarrow>
     pa_activation_id (env_participant env) = Some act \<and>
     (\<exists>av. hm_get (ss_activations st) act = Some av \<and> cap \<in> set (av_granted av) \<and>
        (if av_generation av = 0 then av_authority av = ShellControl
         else enforce_dispatch (rd_broker_ms rd) (coordinate_to_capability cap) (av_agent_id av) (av_generation av)
           default_scope (ds_broker srv) = Ok ()))"
proof (cases "pa_activation_id (env_participant env)")
  case (Some a)
  show ?thesis
  proof (cases "hm_get (ss_activations st) a")
    case s: (Some av)
    show ?thesis
      using Some s
      by (cases "enforce_dispatch (rd_broker_ms rd) (coordinate_to_capability cap) (av_agent_id av) (av_generation av)
           default_scope (ds_broker srv)") (auto simp: invocation_gate_def)
  qed (use Some in \<open>auto simp: invocation_gate_def\<close>)
qed (simp add: invocation_gate_def)

lemma call_ok_Some:
  assumes "call_ok env"
  obtains cap m where "env_capability env = Some cap" "env_method env = Some m" "coordinate_ok cap" "m \<in> lang method_pattern"
  using assms by (auto simp: call_ok_def split: option.splits)

lemma handle_invocation_host:
  assumes "handle_invocation H rd env key srv st = (replies, srv', st')"
  shows "ds_host srv' =
    (case invocation_gate rd env (the (env_capability env)) srv st of
       Ok _ \<Rightarrow> snd (ho_dispatch H (ds_broker srv) rd key (the (env_capability env)) (the (env_method env))
         (case env_payload env of Some p \<Rightarrow> p | None \<Rightarrow> ho_null H) (ds_host srv))
     | Err _ \<Rightarrow> ds_host srv)"
proof (cases "invocation_gate rd env (the (env_capability env)) srv st")
  case (Ok i)
  obtain r host where d: "ho_dispatch H (ds_broker srv) rd key (the (env_capability env)) (the (env_method env))
      (case env_payload env of Some p \<Rightarrow> p | None \<Rightarrow> ho_null H) (ds_host srv) = (r, host)" by fastforce
  have "method_reply rd env i (the (env_capability env)) (the (env_method env)) r (srv\<lparr>ds_host := host\<rparr>) st = (replies, srv', st')"
    using assms Ok d by (simp add: handle_invocation_def Let_def)
  from method_reply_quiet [OF this] show ?thesis using Ok d by simp
next
  case (Err e)
  obtain code msg b where e: "e = (code, msg, b)" by (cases e) auto
  have "invocation_error rd env (the (env_capability env)) (the (env_method env)) code msg b srv st = (replies, srv', st')"
    using assms Err e by (simp add: handle_invocation_def Let_def)
  from invocation_error_quiet [OF this] show ?thesis using Err by simp
qed

lemma handle_envelope_host:
  assumes "codec_ok J" and "handle_envelope J H rd env key srv st = (replies, srv', st')"
  shows "ds_host srv' =
    (if invocation_authorized J rd env srv st
     then snd (ho_dispatch H (ds_broker srv) rd key (the (env_capability env)) (the (env_method env)) (the (env_payload env)) (ds_host srv))
     else ds_host srv)"
proof -
  let ?st = "st\<lparr>ss_seen_ids := env_id env # ss_seen_ids st\<rparr>"
  note valid = validate_envelope_iff [OF assms(1), of env]
  consider (replay) "env_id env \<in> set (ss_seen_ids st)" |
    (invalid) e where "env_id env \<notin> set (ss_seen_ids st)" "validate_envelope J env = Err e" |
    (hello) "env_id env \<notin> set (ss_seen_ids st)" "validate_envelope J env = Ok ()" "env_kind env = Kind_Hello" |
    (invoke) "env_id env \<notin> set (ss_seen_ids st)" "validate_envelope J env = Ok ()" "env_kind env = Kind_Invocation" |
    (other) "env_id env \<notin> set (ss_seen_ids st)" "validate_envelope J env = Ok ()"
      "env_kind env \<noteq> Kind_Hello" "env_kind env \<noteq> Kind_Invocation"
    by (cases "validate_envelope J env"; cases "env_kind env") auto
  thus ?thesis
  proof cases
    case replay
    hence "ds_host srv' = ds_host srv"
      using assms(2) by (intro conjunct2 [OF single_reply_quiet]) (simp add: handle_envelope_def)
    thus ?thesis using replay by (simp add: invocation_authorized_def)
  next
    case invalid
    have "ds_host srv' = ds_host srv"
    proof (cases "id_length_ok (env_id env)")
      case True
      thus ?thesis using assms(2) invalid by (intro conjunct2 [OF single_reply_quiet]) (simp add: handle_envelope_def)
    qed (use assms(2) invalid in \<open>simp add: handle_envelope_def\<close>)
    thus ?thesis using invalid valid by (simp add: invocation_authorized_def)
  next
    case hello
    hence "handle_hello J H rd env srv ?st = (replies, srv', st')" using assms(2) by (simp add: handle_envelope_def)
    from handle_hello_effect [OF this] show ?thesis using hello by (simp add: invocation_authorized_def)
  next
    case other
    thus ?thesis using assms(2) by (cases "env_kind env") (auto simp: handle_envelope_def invocation_authorized_def)
  next
    case invoke
    hence h: "handle_invocation H rd env key srv ?st = (replies, srv', st')" using assms(2) by (simp add: handle_envelope_def)
    have frame: "frame_ok J env" using invoke valid by simp
    hence call: "call_ok env" and obj: "object_ok J env" using invoke(3) by (simp_all add: frame_ok_def)
    obtain cap m where cm: "env_capability env = Some cap" "env_method env = Some m" using call_ok_Some [OF call] .
    obtain p where p: "env_payload env = Some p" using obj by (auto simp: object_ok_def split: option.splits)
    have "(\<exists>act. invocation_gate rd env cap srv ?st = Ok act) \<longleftrightarrow> invocation_authorized J rd env srv st"
      using invoke frame cm unfolding invocation_gate_Ok invocation_authorized_def by auto
    thus ?thesis
      using handle_invocation_host [OF h] cm p by (cases "invocation_gate rd env cap srv ?st") auto
  qed
qed

section \<open>Replies\<close>

definition readings_ok :: "Readings \<Rightarrow> ('v, 'h) DaemonServer \<Rightarrow> bool" where
  "readings_ok rd srv = (rd_act_nanos rd < 16 ^ 32 \<and> rd_msg_nanos rd < 16 ^ 32 \<and> rd_timestamp_ms rd < 253402300800000 \<and>
     ds_id_counter srv + 1 < 16 ^ 16)"

text \<open>What the capability handlers return: object payloads, and a not-found error for the coordinate and method of the call.\<close>

fun handler_result_ok :: "'v payload_codec \<Rightarrow> ProtocolCoordinate \<Rightarrow> string \<Rightarrow> ('v, DaemonMethodError) result \<Rightarrow> bool" where
  "handler_result_ok J cap m (Ok v) = jc_is_object J v"
| "handler_result_ok J cap m (Err (MethodNotFound c n)) = (c = cap \<and> n = m)"
| "handler_result_ok J cap m (Err _) = True"

definition handlers_ok :: "'v payload_codec \<Rightarrow> ('v, 'h) host_ops \<Rightarrow> bool" where
  "handlers_ok J H = (\<forall>b rd key cap m p h. handler_result_ok J cap m (fst (ho_dispatch H b rd key cap m p h)))"

definition mixed_authority :: "('v, 'h) DaemonServer \<Rightarrow> SessionState \<Rightarrow> 'v Envelope \<Rightarrow> bool" where
  "mixed_authority srv st env = (env_kind env = Kind_Hello \<and> ss_authority st \<noteq> None \<and>
     ss_authority st \<noteq> Some (hello_authority srv st (env_participant env)))"

lemma server_names: "SERVER_COMPONENT \<noteq> []" "SERVER_FACET \<noteq> []"
  by (simp_all add: SERVER_COMPONENT_def SERVER_FACET_def)

lemma message_id_length:
  assumes "n < 16 ^ 32" "c < 16 ^ 16"
  shows "length (new_message_id n c) \<in> {8..128}" "length (new_activation_id n c) \<in> {1..128}"
  using unique_token_length [OF assms, of "''msg''"] unique_token_length [OF assms, of "''act''"]
  by (simp_all add: new_message_id_def new_activation_id_def)

definition answers :: "'v payload_codec \<Rightarrow> bool \<Rightarrow> 'v Envelope \<Rightarrow> 'v Envelope list \<times> 'b \<Rightarrow> bool" where
  "answers J good env out = (\<exists>reply. fst out = [reply] \<and> env_reply_to reply = Some (env_id env) \<and> (frame_ok J reply \<longleftrightarrow> good))"

lemma error_result_answers:
  assumes "readings_ok rd srv" "root_ok env" "call_ok env"
  shows "answers J True env (invocation_error rd env (the (env_capability env)) (the (env_method env)) code msg b srv st)"
proof -
  obtain cap m where "env_capability env = Some cap" "env_method env = Some m" "coordinate_ok cap" "m \<in> lang method_pattern"
    using call_ok_Some [OF assms(3)] .
  moreover have "length (env_id env) \<in> {8..128}" using assms(2) by (simp add: root_ok_def)
  moreover have "is_rfc3339_timestamp (now_timestamp_like (rd_timestamp_ms rd))"
    using assms(1) by (intro now_timestamp_like_valid) (simp add: readings_ok_def)
  moreover have "length (new_message_id (rd_msg_nanos rd) (ds_id_counter srv)) \<in> {8..128}"
    using assms(1) by (intro message_id_length) (simp_all add: readings_ok_def)
  ultimately show ?thesis
    by (simp add: answers_def invocation_error_def error_result_def frame_ok_def root_ok_def reply_ok_def call_ok_def
        server_participant_def server_names chars_count_take)
qed

lemma method_reply_answers:
  assumes "readings_ok rd srv" "root_ok env" "call_ok env" "length i \<in> {1..128}"
    and "handler_result_ok J (the (env_capability env)) (the (env_method env)) r"
  shows "answers J True env (method_reply rd env i (the (env_capability env)) (the (env_method env)) r srv st)"
proof (cases r)
  case (Ok v)
  obtain cap m where "env_capability env = Some cap" "env_method env = Some m" "coordinate_ok cap" "m \<in> lang method_pattern"
    using call_ok_Some [OF assms(3)] .
  moreover have "length (env_id env) \<in> {8..128}" using assms(2) by (simp add: root_ok_def)
  moreover have "is_rfc3339_timestamp (now_timestamp_like (rd_timestamp_ms rd))"
    using assms(1) by (intro now_timestamp_like_valid) (simp add: readings_ok_def)
  moreover have "length (new_message_id (rd_msg_nanos rd) (ds_id_counter srv)) \<in> {8..128}"
    using assms(1) by (intro message_id_length) (simp_all add: readings_ok_def)
  ultimately show ?thesis using assms(4,5) Ok
    by (simp add: answers_def method_reply_def frame_ok_def root_ok_def reply_ok_def call_ok_def object_ok_def
        server_participant_def server_names)
next
  case (Err e)
  thus ?thesis using error_result_answers [OF assms(1-3)] assms(5) by (cases e) (simp_all add: method_reply_def)
qed

lemma handle_invocation_answers:
  assumes "readings_ok rd srv" "root_ok env" "call_ok env" "handlers_ok J H"
  shows "answers J True env (handle_invocation H rd env key srv st)"
proof (cases "invocation_gate rd env (the (env_capability env)) srv st")
  case (Ok i)
  let ?d = "ho_dispatch H (ds_broker srv) rd key (the (env_capability env)) (the (env_method env))
      (case env_payload env of Some p \<Rightarrow> p | None \<Rightarrow> ho_null H) (ds_host srv)"
  obtain r host where d: "?d = (r, host)" by fastforce
  have "handler_result_ok J (the (env_capability env)) (the (env_method env)) (fst ?d)"
    using assms(4) unfolding handlers_ok_def by blast
  hence r: "handler_result_ok J (the (env_capability env)) (the (env_method env)) r" by (simp add: d)
  have "pa_activation_id (env_participant env) = Some i" using Ok by (simp add: invocation_gate_Ok)
  hence i: "length i \<in> {1..128}" using assms(2) by (simp add: root_ok_def)
  have "readings_ok rd (srv\<lparr>ds_host := host\<rparr>)" using assms(1) by (simp add: readings_ok_def)
  from method_reply_answers [OF this assms(2,3) i r] show ?thesis using Ok d by (simp add: handle_invocation_def Let_def)
next
  case (Err e)
  obtain code msg b where "e = (code, msg, b)" by (cases e) auto
  thus ?thesis using error_result_answers [OF assms(1-3)] Err by (simp add: handle_invocation_def Let_def)
qed

lemma negotiate_lists:
  assumes "negotiate rd a agent i gs un b = (granted, un', g, b')"
  shows "granted = gs \<and> un' = un \<or> granted = [] \<and> un' = un @ map denied gs"
  using assms by (auto simp: negotiate_def Let_def split: if_splits prod.splits result.splits)

lemma hello_lists_ok:
  assumes "hello_ok hello" and "negotiate rd a agent i (filter P (hp_supports hello)) (map denied (filter (\<lambda>c. \<not> P c) (hp_supports hello))) b
    = (granted, un, g, b')"
  shows "list_all coordinate_ok granted \<and> distinct granted \<and> list_all (\<lambda>u. coordinate_ok (uc_coordinate u)) un \<and> distinct un"
proof -
  have s: "list_all coordinate_ok (hp_supports hello)" "distinct (hp_supports hello)" using assms(1) by (simp_all add: hello_ok_def)
  have "inj_on denied X" for X by (rule inj_onI) (simp add: denied_def)
  hence "distinct (map denied xs) = distinct xs" for xs by (simp add: distinct_map)
  moreover have "denied c = denied d \<longleftrightarrow> c = d" for c d by (simp add: denied_def)
  moreover have "uc_coordinate (denied c) = c" for c by (simp add: denied_def)
  ultimately show ?thesis
    using negotiate_lists [OF assms(2)] s by (auto simp: list_all_iff)
qed

lemma handle_hello_answers:
  assumes "codec_ok J" "readings_ok rd srv" "frame_ok J env" "env_kind env = Kind_Hello"
  shows "answers J (\<not> mixed_authority srv st env) env (handle_hello J H rd env srv st)"
proof -
  obtain v hello where hello: "env_payload env = Some v" "jc_hello J v = Ok hello" "hello_ok hello"
    using assms(3,4) by (auto simp: frame_ok_def split: option.splits result.splits)
  have t: "is_rfc3339_timestamp (now_timestamp_like (rd_timestamp_ms rd))"
    using assms(2) by (intro now_timestamp_like_valid) (simp add: readings_ok_def)
  have i: "length (env_id env) \<in> {8..128}" using assms(3) by (simp add: frame_ok_def root_ok_def)
  have m: "length (new_message_id (rd_msg_nanos rd) (ds_id_counter srv + 1)) \<in> {8..128}"
    using assms(2) by (intro message_id_length) (simp_all add: readings_ok_def)
  have x: "length (new_activation_id (rd_act_nanos rd) (ds_id_counter srv)) \<in> {1..128}"
    using assms(2) by (intro message_id_length) (simp_all add: readings_ok_def)
  show ?thesis
  proof (cases "mixed_authority srv st env")
    case True
    thus ?thesis using hello
      by (auto simp: answers_def handle_hello_def mixed_authority_def error_result_def frame_ok_def call_ok_def Let_def)
  next
    case False
    let ?n = "negotiate rd (hello_authority srv st (env_participant env)) (agent_id_of (env_participant env))
      (new_activation_id (rd_act_nanos rd) (ds_id_counter srv)) (filter (catalog_supports H) (hp_supports hello))
      (map denied (filter (\<lambda>c. \<not> catalog_supports H c) (hp_supports hello))) (ds_broker srv)"
    obtain granted un g b where n: "?n = (granted, un, g, b)" by (cases ?n) auto
    have not_mixed: "\<not> (ss_authority st \<noteq> None \<and> ss_authority st \<noteq> Some (hello_authority srv st (env_participant env)))"
      using False assms(4) by (simp add: mixed_authority_def)
    let ?lc = "if granted = [] then None else Some \<lparr>lc_max_seconds = Some LEASE_MAX_SECONDS, lc_approval_required = None\<rparr>"
    let ?a = "\<lparr>ap_activation_id = new_activation_id (rd_act_nanos rd) (ds_id_counter srv), ap_granted = granted,
      ap_unavailable = un, ap_lease_constraints = ?lc\<rparr>"
    have "jc_agreement J (jc_of_agreement J ?a) = Ok ?a" using assms(1) by (simp add: codec_ok_def)
    moreover have "agreement_ok ?a"
      using hello_lists_ok [OF hello(3) n] x by (simp add: agreement_ok_def LEASE_MAX_SECONDS_def)
    ultimately show ?thesis using False not_mixed hello n t i m x
      by (cases "ss_authority st")
        (simp_all add: answers_def handle_hello_def Let_def frame_ok_def root_ok_def reply_ok_def server_participant_def server_names)
  qed
qed

section \<open>A session for the examples\<close>

definition sample_coordinate :: ProtocolCoordinate where
  "sample_coordinate = \<lparr>pc_api_version = ''t.local/v1alpha1'', pc_kind = ''Terminal''\<rparr>"

definition sample_frames :: "(HelloPayload + AgreementPayload) frame_codec" where
  "sample_frames = payload_codec.extend sample_codec \<lparr>jc_envelope = (\<lambda>_. Ok sample_hello), jc_frame_id = (\<lambda>_. None)\<rparr>"

text \<open>A handler that counts its calls and answers with the payload.\<close>

definition sample_host :: "(HelloPayload + AgreementPayload, nat) host_ops" where
  "sample_host = \<lparr>ho_catalog = [sample_coordinate], ho_dispatch = (\<lambda>b rd key cap m p n. (Ok p, Suc n)), ho_release = (\<lambda>key n. n),
     ho_null = Inl \<lparr>hp_instance_id = [], hp_supports = [], hp_requires = []\<rparr>\<rparr>"

definition sample_server :: "(HelloPayload + AgreementPayload, nat) DaemonServer" where
  "sample_server = \<lparr>ds_broker = new_broker, ds_policy = Policy_Off, ds_folds_case = False, ds_id_counter = 0,
     ds_bootstrap = sample_bootstrap, ds_host = 0\<rparr>"

definition sample_readings :: Readings where
  "sample_readings = \<lparr>rd_act_nanos = 1, rd_msg_nanos = 2, rd_timestamp_ms = 3, rd_broker_ms = 4, rd_grant_ms = (\<lambda>_. 4),
     rd_lease_ms = (\<lambda>_. 4)\<rparr>"

definition sample_greeting ::
  "(HelloPayload + AgreementPayload) Envelope list \<times> (HelloPayload + AgreementPayload, nat) DaemonServer \<times> SessionState" where
  "sample_greeting = handle_frame sample_frames sample_host sample_readings [] 7 sample_server (new_session None)"

definition sample_session :: SessionState where
  "sample_session = snd (snd sample_greeting)"

definition sample_served :: "(HelloPayload + AgreementPayload, nat) DaemonServer" where
  "sample_served = fst (snd sample_greeting)"

definition sample_call :: "(HelloPayload + AgreementPayload) Envelope" where
  "sample_call = sample_hello\<lparr>env_id := ''msg-0002'', env_kind := Kind_Invocation, env_capability := Some sample_coordinate,
     env_method := Some ''terminal.list'',
     env_participant := \<lparr>pa_component = ''agent'', pa_facet = ''tool'', pa_activation_id = Some (new_activation_id 1 0)\<rparr>\<rparr>"

lemma sample_valid: "validate_envelope sample_codec sample_hello = Ok ()" "validate_envelope sample_codec sample_call = Ok ()"
  by code_simp+

lemmas negotiate_eval = negotiate_def broker_grant_from_negotiation_def lease_policy_def activate_def grant_def lease_def new_broker_def
  activation_states_def counter_of_def hm_get_def hm_insert_def saturating_add_def saturating_mul_def u64_max_def
  agent_grant_record_def agent_lease_record_def agent_lease_id_def revoke_all_for_capability_def hm_map_values_def
  sample_readings_def LEASE_MAX_SECONDS_def Let_def

definition sample_granted_broker :: "'v Broker" where
  "sample_granted_broker = snd (snd (snd (negotiate sample_readings ParticipantAuthority ''agent-tool'' (new_activation_id 1 0) [sample_coordinate] []
     new_broker)))"

lemma sample_negotiation:
  "negotiate sample_readings ParticipantAuthority ''agent-tool'' (new_activation_id 1 0) [sample_coordinate] [] new_broker =
     ([sample_coordinate], [], 1, sample_granted_broker)"
  unfolding sample_granted_broker_def
  by (simp add: negotiate_eval)

lemma sample_greeting_eq:
  "ss_activations sample_session = [(new_activation_id 1 0, \<lparr>av_activation_id = new_activation_id 1 0,
     av_authority = ParticipantAuthority, av_agent_id = ''agent-tool'', av_generation = 1, av_granted = [sample_coordinate],
     av_hello_id = ''msg-0001''\<rparr>)]"
  "ss_seen_ids sample_session = [''msg-0001'']" "ss_authority sample_session = Some ParticipantAuthority"
  "ds_broker sample_served = sample_granted_broker" "ds_host sample_served = 0" "ds_id_counter sample_served = 2"
proof -
  have a: "hello_authority sample_server st \<lparr>pa_component = ''agent'', pa_facet = ''tool'', pa_activation_id = None\<rparr> = ParticipantAuthority" for st
    by (simp add: hello_authority_def SHELL_COMPONENT_def)
  have f: "catalog_supports sample_host sample_coordinate" by (simp add: catalog_supports_def sample_host_def)
  have h: "env_payload sample_hello = Some (Inl \<lparr>hp_instance_id = ''instance'', hp_supports = [sample_coordinate], hp_requires = []\<rparr>)"
      "env_id sample_hello = ''msg-0001''" "env_kind sample_hello = Kind_Hello"
      "env_participant sample_hello = \<lparr>pa_component = ''agent'', pa_facet = ''tool'', pa_activation_id = None\<rparr>"
    by (simp_all add: sample_hello_def sample_coordinate_def)
  have e: "jc_envelope sample_frames [] = Ok sample_hello" "payload_codec.truncate sample_frames = sample_codec"
    by (simp_all add: sample_frames_def payload_codec.defs frame_codec.defs)
  have j: "jc_hello sample_codec (Inl x) = Ok x" for x by (simp add: sample_codec_def)
  have s: "ds_broker sample_server = new_broker" "ds_id_counter sample_server = 0" "ds_host sample_server = 0"
    by (simp_all add: sample_server_def)
  have r: "rd_act_nanos sample_readings = 1" by (simp add: sample_readings_def)
  note eqs = sample_session_def sample_served_def sample_greeting_def handle_frame_def handle_envelope_def new_session_def
    sample_valid(1) handle_hello_def a f h e j s r sample_negotiation [unfolded One_nat_def] Let_def hm_insert_def agent_id_of_def
  show "ss_activations sample_session = [(new_activation_id 1 0, \<lparr>av_activation_id = new_activation_id 1 0,
     av_authority = ParticipantAuthority, av_agent_id = ''agent-tool'', av_generation = 1, av_granted = [sample_coordinate],
     av_hello_id = ''msg-0001''\<rparr>)]"
    "ss_seen_ids sample_session = [''msg-0001'']" "ss_authority sample_session = Some ParticipantAuthority"
    "ds_broker sample_served = sample_granted_broker" "ds_host sample_served = 0" "ds_id_counter sample_served = 2"
    by (simp_all add: eqs)
qed

lemma sample_run:
  "run (daemon_step sample_frames sample_host) (sample_server, []) [D_Connect 7 None, D_Frame 7 [] sample_readings]
     (sample_served, [(7, sample_session)])"
proof -
  have c: "daemon_step sample_frames sample_host (sample_server, []) (D_Connect 7 None) (sample_server, [(7, new_session None)])"
    using daemon_step.connect [of sample_frames sample_host sample_server "[]" 7 None] by (simp add: hm_insert_def)
  have f: "daemon_step sample_frames sample_host (sample_server, [(7, new_session None)]) (D_Frame 7 [] sample_readings)
      (sample_served, [(7, sample_session)])"
    using daemon_step.frame [of "[(7, new_session None)]" 7 "new_session None" sample_frames sample_host sample_readings "[]" sample_server
        "fst sample_greeting" sample_served sample_session]
    by (simp add: hm_get_def hm_insert_def sample_greeting_def [symmetric] sample_served_def sample_session_def)
  show ?thesis
    by (rule run_cons [where step = "daemon_step sample_frames sample_host", OF c
          run_cons [where step = "daemon_step sample_frames sample_host", OF f run_nil]])
qed

text \<open>Another participant is refused once, because it gets the generation of the incumbent, and takes over at its second try.\<close>

definition sample_refused_broker :: "'v Broker" where
  "sample_refused_broker = snd (snd (snd (negotiate sample_readings ParticipantAuthority ''other-tool'' ''act-1'' [sample_coordinate] []
     sample_granted_broker)))"

definition sample_taken_broker :: "'v Broker" where
  "sample_taken_broker = snd (snd (snd (negotiate sample_readings ParticipantAuthority ''other-tool'' ''act-2'' [sample_coordinate] []
     sample_refused_broker)))"

lemma sample_refusal:
  "negotiate sample_readings ParticipantAuthority ''other-tool'' ''act-1'' [sample_coordinate] [] sample_granted_broker =
     ([], [denied sample_coordinate], 0, sample_refused_broker)"
  unfolding sample_refused_broker_def sample_granted_broker_def by (simp add: negotiate_eval)

lemma sample_takeover:
  "negotiate sample_readings ParticipantAuthority ''other-tool'' ''act-2'' [sample_coordinate] [] sample_refused_broker =
     ([sample_coordinate], [], 2, sample_taken_broker)"
  unfolding sample_taken_broker_def sample_refused_broker_def sample_granted_broker_def by (simp add: negotiate_eval)

lemma sample_history: "\<exists>es. run (broker_step UNIV) new_broker es sample_refused_broker"
proof -
  note n1 = negotiate_effect [OF sample_negotiation bridge_inv_new]
  have p: "positive_generations (new_broker :: 'v Broker)" by (simp add: positive_generations_def agent_generation_def)
  note r1 = n1(1) [OF p]
  have "bridge_inv UNIV sample_granted_broker" using bridge.run_inv [OF r1 bridge_inv_new] .
  note r2 = negotiate_effect(1) [OF sample_refusal this n1(2) [OF p]]
  show ?thesis using run_append [OF r1 r2] by blast
qed

lemma sample_dispatch:
  "enforce_dispatch 4 (coordinate_to_capability sample_coordinate) ''agent-tool'' 1 default_scope sample_granted_broker = Ok ()"
  unfolding sample_granted_broker_def
  by (simp add: negotiate_eval enforce_dispatch_def enforce_valid_lease_def hm_values_def covers_def is_revoked_def is_expired_def default_scope_def)

section \<open>Properties\<close>

text \<open>
  C8. What authority rests on. In every run of the daemon from a fresh broker, every activation of every open session has
  the one authority class of its session, is granted only capabilities of the catalog, is Shell control only if the peer
  identity policy admits the identity of its connection, and without a broker generation holds grants only as Shell control.
\<close>

theorem session_authority:
  assumes "run (daemon_step J H) (srv0, []) es (srv, ss)" and "ds_broker srv0 = new_broker"
    and "hm_get ss key = Some st" and "hm_get (ss_activations st) i = Some av"
  shows "ss_authority st = Some (av_authority av) \<and> set (av_granted av) \<subseteq> set (ho_catalog H) \<and>
    (av_authority av = ShellControl \<longrightarrow> policy_allows (ds_folds_case srv0) (ds_policy srv0) (ss_identity st)) \<and>
    (av_generation av = 0 \<and> av_granted av \<noteq> [] \<longrightarrow> av_authority av = ShellControl)"
proof -
  have "policy_is H (ds_policy srv0) (ds_folds_case srv0) (srv0, [])"
    using daemon_inv_start [OF assms(2)] by (simp add: policy_is_def)
  from policy.run_inv [OF assms(1) this] have "daemon_inv H (srv, ss)" "ds_policy srv = ds_policy srv0"
    "ds_folds_case srv = ds_folds_case srv0" by (simp_all add: policy_is_def)
  thus ?thesis using daemon_inv_activation assms(3,4) by (fastforce simp: activation_ok_def)
qed

theorem session_authority_witness:
  "\<exists>st av. hm_get [(7 :: nat, sample_session)] 7 = Some st \<and> hm_get (ss_activations st) (new_activation_id 1 0) = Some av \<and>
     av_granted av = [sample_coordinate] \<and> ss_authority st = Some (av_authority av) \<and>
     set (av_granted av) \<subseteq> set (ho_catalog sample_host)"
proof -
  have st: "hm_get [(7 :: nat, sample_session)] 7 = Some sample_session" by (simp add: hm_get_def)
  obtain av where av: "hm_get (ss_activations sample_session) (new_activation_id 1 0) = Some av" "av_granted av = [sample_coordinate]"
    by (simp add: sample_greeting_eq hm_get_def)
  have b: "ds_broker sample_server = new_broker" by (simp add: sample_server_def)
  show ?thesis using session_authority [OF sample_run b st av(1)] st av by blast
qed

text \<open>
  C3. A capability handler runs exactly when the request is authorized: the state of the handlers after an envelope is the
  handler's result if the envelope is a new, valid Invocation of a capability granted to an activation of this session that
  either passes the broker gate or is Shell control without broker state; otherwise it is untouched.
\<close>

theorem handler_runs_iff_authorized:
  assumes "codec_ok J" and "handle_envelope J H rd env key srv st = (replies, srv', st')"
  shows "ds_host srv' =
    (if invocation_authorized J rd env srv st
     then snd (ho_dispatch H (ds_broker srv) rd key (the (env_capability env)) (the (env_method env)) (the (env_payload env)) (ds_host srv))
     else ds_host srv)"
  using assms by (rule handle_envelope_host)

theorem handler_runs_iff_authorized_witness:
  "invocation_authorized sample_codec sample_readings sample_call sample_served sample_session \<and>
   ds_host (fst (snd (handle_envelope sample_codec sample_host sample_readings sample_call 7 sample_served sample_session))) = 1"
proof -
  obtain replies srv' st' where h:
    "handle_envelope sample_codec sample_host sample_readings sample_call 7 sample_served sample_session = (replies, srv', st')"
    by (rule prod_cases3)
  have e: "enforce_dispatch 4 (coordinate_to_capability sample_coordinate) ''agent-tool'' 1 default_scope sample_granted_broker = Ok ()"
    using sample_dispatch .
  have i: "env_id sample_call = ''msg-0002''" "env_kind sample_call = Kind_Invocation" "env_capability sample_call = Some sample_coordinate"
      "pa_activation_id (env_participant sample_call) = Some (new_activation_id 1 0)" by (simp_all add: sample_call_def)
  have "frame_ok sample_codec sample_call" using validate_envelope_iff [OF sample_codec_ok] sample_valid(2) by simp
  hence "invocation_authorized sample_codec sample_readings sample_call sample_served sample_session"
    using e by (simp add: invocation_authorized_def i sample_greeting_eq hm_get_def sample_readings_def)
  moreover have "snd (ho_dispatch sample_host b rd k c m p n) = Suc n" for b rd k c m p n by (simp add: sample_host_def)
  ultimately show ?thesis
    using handler_runs_iff_authorized [OF sample_codec_ok h] h by (simp add: sample_greeting_eq)
qed

text \<open>
  C11. Disconnection is final: once a session has been torn down, no activation it held in the broker ever passes the
  dispatch gate again at its generation, whatever all connections do afterwards.
\<close>

theorem disconnect_revokes:
  assumes "run (daemon_step J H) (srv0, []) es (srv, ss)" and "ds_broker srv0 = new_broker"
    and "hm_get ss key = Some st" and "hm_get (ss_activations st) i = Some av" and "av_generation av \<noteq> 0"
    and "run (daemon_step J H) (teardown H key inputs at st srv, hm_remove key ss) es' (srv', ss')"
  shows "enforce_dispatch t cap (av_agent_id av) (av_generation av) sc (ds_broker srv') \<noteq> Ok ()"
proof -
  let ?b = "ds_broker (teardown H key inputs at st srv)"
  have w: "daemon_inv H (srv, ss)" using daemon.run_inv [OF assms(1) daemon_inv_start [OF assms(2)]] .
  hence b: "bridge_inv UNIV (ds_broker srv)" by (simp add: daemon_inv_def)
  have gen: "agent_generation (av_agent_id av) i (ds_broker srv) = Some (av_generation av)"
    using daemon_inv_activation [OF w assms(3,4)] assms(5) by (simp add: activation_ok_def)
  have "i \<in> fst ` set (ss_activations st)" using assms(4) by (force simp: hm_get_def dest: map_of_SomeD)
  hence r: "agent_activation_revoked (av_agent_id av) i ?b"
    using revoke_many_revoked [OF b, where a = "av_agent_id av" and x = i and acts = "ss_activations st" and at = at] gen
    by (simp add: teardown_def revoke_session_def)
  have g: "agent_generation (av_agent_id av) i ?b = Some (av_generation av)"
    using gen by (simp add: teardown_def revoke_session_def revoke_many_generation [OF b])
  have w': "daemon_inv H (teardown H key inputs at st srv, hm_remove key ss)"
    using daemon_step_effect [OF w daemon_step.close [OF assms(3)]] by blast
  obtain a where a: "activation (av_agent_id av) i ?b = Some a" "act_revoked a" "act_generation a = av_generation av"
    using r g by (auto simp: agent_activation_revoked_def agent_generation_def split: option.splits)
  hence "cut_off H (av_agent_id av) i a (teardown H key inputs at st srv, hm_remove key ss)"
    using w' by (simp add: cut_off_def settled_def daemon_inv_def)
  from cut_off.run_inv [OF assms(6) this] have "settled UNIV (av_agent_id av) i a (ds_broker srv')"
    by (simp add: cut_off_def)
  thus ?thesis using settled_never_dispatches [of UNIV "av_agent_id av" i a] a(3) by simp
qed

theorem disconnect_revokes_witness:
  "enforce_dispatch 4 (coordinate_to_capability sample_coordinate) ''agent-tool'' 1 default_scope (ds_broker sample_served) = Ok () \<and>
   enforce_dispatch 4 (coordinate_to_capability sample_coordinate) ''agent-tool'' 1 default_scope
     (ds_broker (teardown sample_host 7 sample_inputs 9 sample_session sample_served)) \<noteq> Ok ()"
proof -
  have st: "hm_get [(7 :: nat, sample_session)] 7 = Some sample_session" by (simp add: hm_get_def)
  obtain av where av: "hm_get (ss_activations sample_session) (new_activation_id 1 0) = Some av" "av_generation av = 1"
      "av_agent_id av = ''agent-tool''"
    by (simp add: sample_greeting_eq hm_get_def)
  have b: "ds_broker sample_server = new_broker" by (simp add: sample_server_def)
  have "av_generation av \<noteq> 0" using av(2) by simp
  from disconnect_revokes [where inputs = sample_inputs and at = 9 and t = 4 and cap = "coordinate_to_capability sample_coordinate"
      and sc = default_scope, OF sample_run b st av(1) this run_nil]
  show ?thesis using sample_dispatch av(2,3) by (simp add: sample_greeting_eq)
qed

text \<open>
  C23. A request is answered once: a new, valid Hello or Invocation gets exactly one reply, which names the request. The
  reply is itself a valid envelope, with one exception: the refusal of a Hello that would give the connection a second
  authority class carries no capability and method, and no peer that validates frames accepts it.
\<close>

theorem request_answered:
  assumes "codec_ok J" and "handlers_ok J H" and "readings_ok rd srv" and "env_id env \<notin> set (ss_seen_ids st)"
    and "frame_ok J env" and "env_kind env = Kind_Hello \<or> env_kind env = Kind_Invocation"
  shows "answers J (\<not> mixed_authority srv st env) env (handle_envelope J H rd env key srv st)"
proof -
  let ?st = "st\<lparr>ss_seen_ids := env_id env # ss_seen_ids st\<rparr>"
  have v: "validate_envelope J env = Ok ()" using validate_envelope_iff [OF assms(1)] assms(5) by simp
  from assms(6) show ?thesis
  proof
    assume k: "env_kind env = Kind_Hello"
    have "mixed_authority srv ?st env = mixed_authority srv st env" by (simp add: mixed_authority_def hello_authority_def)
    thus ?thesis using handle_hello_answers [OF assms(1,3,5) k, of ?st H] v k assms(4) by (simp add: handle_envelope_def)
  next
    assume k: "env_kind env = Kind_Invocation"
    have "root_ok env" "call_ok env" using assms(5) k by (simp_all add: frame_ok_def)
    from handle_invocation_answers [OF assms(3) this assms(2), of key ?st] show ?thesis
      using v k assms(4) by (simp add: handle_envelope_def mixed_authority_def)
  qed
qed

theorem request_answered_witness:
  "answers sample_codec True sample_hello
     (handle_envelope sample_codec sample_host sample_readings sample_hello 7 sample_server (new_session None)) \<and>
   answers sample_codec True sample_call
     (handle_envelope sample_codec sample_host sample_readings sample_call 7 sample_served sample_session)"
proof -
  have h: "handlers_ok sample_codec sample_host"
    unfolding handlers_ok_def by (simp add: sample_host_def sample_codec_def)
  have r: "readings_ok sample_readings sample_server" "readings_ok sample_readings sample_served"
    by (simp_all add: readings_ok_def sample_readings_def sample_greeting_eq) (simp add: sample_server_def)
  have i: "env_id sample_hello \<notin> set (ss_seen_ids (new_session None))" "env_id sample_call \<notin> set (ss_seen_ids sample_session)"
    by (simp_all add: new_session_def sample_greeting_eq sample_call_def)
  have f: "frame_ok sample_codec sample_hello" "frame_ok sample_codec sample_call"
    using validate_envelope_iff [OF sample_codec_ok] sample_valid by simp_all
  have k: "env_kind sample_hello = Kind_Hello \<or> env_kind sample_hello = Kind_Invocation"
      "env_kind sample_call = Kind_Hello \<or> env_kind sample_call = Kind_Invocation"
    by (simp_all add: sample_hello_def sample_call_def)
  have m: "\<not> mixed_authority sample_server (new_session None) sample_hello" "\<not> mixed_authority sample_served sample_session sample_call"
    by (simp_all add: mixed_authority_def new_session_def sample_call_def)
  show ?thesis
    using request_answered [OF sample_codec_ok h r(1) i(1) f(1) k(1), of 7] request_answered [OF sample_codec_ok h r(2) i(2) f(2) k(2), of 7] m
    by simp
qed

text \<open>
  C24. A capability has one owner, the last to negotiate it: when a negotiation obtains a broker generation, each capability
  it was granted passes the gate for it until the lease ends, and is refused as not granted to every other participant,
  the incumbent owner included.
\<close>

theorem negotiation_takes_over:
  assumes "run (broker_step A) new_broker es b" and "negotiate rd a agent i gs un b = (granted, un', g, b')" and "g \<noteq> 0"
    and "c \<in> set granted" and "rd_broker_ms rd + 3600000 \<le> u64_max" and "other \<noteq> agent"
  shows "(t < rd_broker_ms rd + 3600000 \<longrightarrow> enforce_dispatch t (coordinate_to_capability c) agent g default_scope b' = Ok ()) \<and>
    enforce_dispatch t (coordinate_to_capability c) other gen sc b' = Err NotGranted"
proof -
  have inv: "bridge_inv A b" by (rule bridge.run_inv [OF assms(1) bridge_inv_new])
  let ?r = "\<lparr>anr_activation_id = i, anr_agreed = True, anr_granted = map coordinate_to_capability gs,
    anr_conformance = Agent_Known, anr_lease_constraints = Some \<lparr>max_seconds = LEASE_MAX_SECONDS, approval_required = None\<rparr>,
    anr_scope = default_scope\<rparr>"
  obtain ag where ok: "broker_grant_from_negotiation (rd_broker_ms rd) (rd_grant_ms rd) (rd_lease_ms rd) agent ?r b = (Ok ag, b')"
    and g: "g = ag_generation ag" and gs: "granted = gs"
    using assms(2,3) by (auto simp: negotiate_def Let_def split: if_splits prod.splits result.splits)
  have c: "coordinate_to_capability c \<in> set (anr_granted ?r)" using assms(4) gs by simp
  have e: "ag_expires_at ag = rd_broker_ms rd + 3600000"
    using ok assms(5)
    by (auto simp: lease_policy_def LEASE_MAX_SECONDS_def saturating_add_def saturating_mul_def u64_max_def split: if_splits elim!: bridge_Ok)
  show ?thesis
    using bridge_dispatch_ok [OF inv ok c, of t] bridge_Ok_tables(1) [OF inv ok c] assms(6) e g by (auto simp: enforce_dispatch_def)
qed

theorem negotiation_takes_over_witness:
  "enforce_dispatch 4 (coordinate_to_capability sample_coordinate) ''agent-tool'' 1 default_scope (sample_granted_broker :: nat Broker) = Ok () \<and>
   enforce_dispatch 5 (coordinate_to_capability sample_coordinate) ''agent-tool'' 1 default_scope (sample_taken_broker :: nat Broker) = Err NotGranted \<and>
   enforce_dispatch 5 (coordinate_to_capability sample_coordinate) ''other-tool'' 2 default_scope (sample_taken_broker :: nat Broker) = Ok ()"
proof -
  obtain es where history: "run (broker_step UNIV) (new_broker :: nat Broker) es sample_refused_broker" using sample_history by blast
  have u: "rd_broker_ms sample_readings + 3600000 \<le> u64_max" by (simp add: sample_readings_def u64_max_def)
  have "sample_coordinate \<in> set [sample_coordinate]" "(2::nat) \<noteq> 0" "''agent-tool'' \<noteq> ''other-tool''" "(5::nat) < rd_broker_ms sample_readings + 3600000"
    by (simp_all add: sample_readings_def)
  with negotiation_takes_over [OF history sample_takeover _ _ u, of sample_coordinate "''agent-tool''" 5 1 default_scope]
  show ?thesis using sample_dispatch by blast
qed

end
