(* ===== verification/Scheduler.thy ===== *)
theory Scheduler
  imports Envelope
begin

text \<open>
  The timer host of the daemon (\<open>crates/daemon/src/scheduler.rs\<close>): registration, cancellation and the worker that fires due
  wakes. Instants and times are milliseconds; the readings of both clocks are arguments. The decoding of the JSON parameters
  is the argument \<open>params\<close>, the result of \<open>serde_json::from_value\<close>.
\<close>

section \<open>Data\<close>

definition WAKE_ID_MIN_LEN :: nat where
  "WAKE_ID_MIN_LEN = 8"

definition WAKE_ID_MAX_LEN :: nat where
  "WAKE_ID_MAX_LEN = 128"

definition MIN_INTERVAL_MS :: nat where
  "MIN_INTERVAL_MS = 50"

definition MAX_INTERVAL_MS :: nat where
  "MAX_INTERVAL_MS = 86400000"

definition IDLE_POLL :: nat where
  "IDLE_POLL = 50"

datatype WakeReason = ScheduledDue | RecoveryRetry | UserRequested

record WakeRepeat =
  wr_interval_ms :: nat
  wr_count :: "nat option"

record WakeRequestPayload =
  wp_wake_id :: string
  wp_requested_at :: string
  wp_deadline :: "string option"
  wp_reason :: WakeReason
  wp_repeat :: "WakeRepeat option"

record CancelRequestPayload =
  cp_wake_id :: string

record Entry =
  en_seq :: nat
  en_wake_id :: string
  en_fire_at :: nat
  en_reason :: WakeReason
  en_requested_at :: string
  en_deadline :: "string option"
  en_repeat :: "WakeRepeat option"
  en_fires_left :: "nat option"

record FiredWake =
  fw_wake_id :: string
  fw_reason :: WakeReason
  fw_requested_at :: string
  fw_deadline :: "string option"
  fw_fired_at :: string

record Inner =
  in_entries :: "Entry list"
  in_next_seq :: nat
  in_shutdown :: bool
  in_registered :: nat
  in_cancelled :: nat
  in_fired :: nat
  in_last_fired :: "FiredWake option"

definition default_inner :: Inner where
  "default_inner = \<lparr>in_entries = [], in_next_seq = 0, in_shutdown = False, in_registered = 0, in_cancelled = 0, in_fired = 0,
     in_last_fired = None\<rparr>"

record SchedulerStats =
  sc_registered :: nat
  sc_cancelled :: nat
  sc_fired :: nat
  sc_pending :: nat
  sc_last_fired :: "FiredWake option"

datatype SchedulerError = Wake_InvalidPayload string | Wake_Conflict string

record WakeAccepted =
  wa_wake_id :: string
  wa_scheduled_for :: string
  wa_repeat :: "WakeRepeat option"
  wa_pending :: nat

record WakeCancelled =
  wc_wake_id :: string
  wc_cancelled :: bool
  wc_pending :: nat

section \<open>Registration and cancellation\<close>

definition wake_id_error :: "string \<Rightarrow> SchedulerError" where
  "wake_id_error i = Wake_InvalidPayload (''wakeId length '' @ show_nat (length i) @ '' outside '' @ show_nat WAKE_ID_MIN_LEN @
     ''..='' @ show_nat WAKE_ID_MAX_LEN)"

definition validate_wake_request :: "WakeRequestPayload \<Rightarrow> (unit, SchedulerError) result" where
  "validate_wake_request request =
     (if \<not> (WAKE_ID_MIN_LEN \<le> length (wp_wake_id request) \<and> length (wp_wake_id request) \<le> WAKE_ID_MAX_LEN) then
        Err (wake_id_error (wp_wake_id request))
      else case wp_repeat request of
        None \<Rightarrow> Ok ()
      | Some r \<Rightarrow>
          if \<not> (MIN_INTERVAL_MS \<le> wr_interval_ms r \<and> wr_interval_ms r \<le> MAX_INTERVAL_MS) then
            Err (Wake_InvalidPayload (''repeat.intervalMs '' @ show_nat (wr_interval_ms r) @ '' outside '' @
              show_nat MIN_INTERVAL_MS @ ''..='' @ show_nat MAX_INTERVAL_MS))
          else if wr_count r = Some 0 then Err (Wake_InvalidPayload ''repeat.count must be >= 1'')
          else Ok ())"

definition fire_time :: "WakeRequestPayload \<Rightarrow> (nat, SchedulerError) result" where
  "fire_time request =
     (case parse_rfc3339 (wp_requested_at request) of
        None \<Rightarrow> Err (Wake_InvalidPayload (''requestedAt \"'' @ wp_requested_at request @ ''\" is not a valid RFC 3339 timestamp''))
      | Some requested \<Rightarrow>
          (case wp_deadline request of
             None \<Rightarrow> Ok requested
           | Some deadline \<Rightarrow>
               ok_or (Wake_InvalidPayload (''deadline \"'' @ deadline @ ''\" is not a valid RFC 3339 timestamp''))
                 (parse_rfc3339 deadline)))"

text \<open>\<open>now\<close> and \<open>today\<close> are the readings of the monotonic and of the wall clock; a fire time in the past is due at once.\<close>

definition register ::
  "nat \<Rightarrow> nat \<Rightarrow> (WakeRequestPayload, string) result \<Rightarrow> Inner \<Rightarrow> (WakeAccepted, SchedulerError) result \<times> Inner" where
  "register now today params inner =
     (case params of
        Err e \<Rightarrow> (Err (Wake_InvalidPayload (''wake params do not match the schedule-wake contract: '' @ e)), inner)
      | Ok request \<Rightarrow>
          (case validate_wake_request request of
             Err e \<Rightarrow> (Err e, inner)
           | Ok _ \<Rightarrow>
               (case fire_time request of
                  Err e \<Rightarrow> (Err e, inner)
                | Ok t \<Rightarrow>
                    let fire_at = now + (t - today) in
                    if list_ex (\<lambda>e. en_wake_id e = wp_wake_id request) (in_entries inner) then
                      (Err (Wake_Conflict (''wakeId \"'' @ wp_wake_id request @ ''\" is already scheduled'')), inner)
                    else
                      let entry = \<lparr>en_seq = in_next_seq inner, en_wake_id = wp_wake_id request, en_fire_at = fire_at,
                            en_reason = wp_reason request, en_requested_at = wp_requested_at request,
                            en_deadline = wp_deadline request, en_repeat = wp_repeat request,
                            en_fires_left = Option.bind (wp_repeat request) wr_count\<rparr>;
                          inner1 = inner\<lparr>in_next_seq := in_next_seq inner + 1, in_entries := in_entries inner @ [entry],
                            in_registered := in_registered inner + 1\<rparr>
                      in (Ok \<lparr>wa_wake_id = wp_wake_id request, wa_scheduled_for = now_timestamp_like t,
                            wa_repeat = wp_repeat request, wa_pending = length (in_entries inner1)\<rparr>, inner1))))"

definition cancel ::
  "(CancelRequestPayload, string) result \<Rightarrow> Inner \<Rightarrow> (WakeCancelled, SchedulerError) result \<times> Inner" where
  "cancel params inner =
     (case params of
        Err e \<Rightarrow> (Err (Wake_InvalidPayload (''cancel params invalid: '' @ e)), inner)
      | Ok request \<Rightarrow>
          if \<not> (WAKE_ID_MIN_LEN \<le> length (cp_wake_id request) \<and> length (cp_wake_id request) \<le> WAKE_ID_MAX_LEN) then
            (Err (wake_id_error (cp_wake_id request)), inner)
          else
            let kept = filter (\<lambda>e. en_wake_id e \<noteq> cp_wake_id request) (in_entries inner);
                removed = length (in_entries inner) - length kept;
                inner1 = inner\<lparr>in_entries := kept,
                  in_cancelled := (if 0 < removed then in_cancelled inner + 1 else in_cancelled inner)\<rparr>
            in (Ok \<lparr>wc_wake_id = cp_wake_id request, wc_cancelled = (0 < removed), wc_pending = length kept\<rparr>, inner1))"

definition scheduler_stats :: "Inner \<Rightarrow> SchedulerStats" where
  "scheduler_stats inner = \<lparr>sc_registered = in_registered inner, sc_cancelled = in_cancelled inner, sc_fired = in_fired inner,
     sc_pending = length (in_entries inner), sc_last_fired = in_last_fired inner\<rparr>"

definition shutdown_scheduler :: "Inner \<Rightarrow> Inner" where
  "shutdown_scheduler inner = inner\<lparr>in_shutdown := True\<rparr>"

section \<open>The worker\<close>

text \<open>\<open>left - 1\<close> on a 64-bit counter.\<close>

definition one_less :: "nat \<Rightarrow> nat" where
  "one_less left = (if left = 0 then u64_max else left - 1)"

definition fire :: "nat \<Rightarrow> nat \<Rightarrow> Entry \<Rightarrow> Inner \<Rightarrow> Inner" where
  "fire now today entry inner =
     (let inner1 = inner\<lparr>in_fired := in_fired inner + 1,
            in_last_fired := Some \<lparr>fw_wake_id = en_wake_id entry, fw_reason = en_reason entry,
              fw_requested_at = en_requested_at entry, fw_deadline = en_deadline entry, fw_fired_at = now_timestamp_like today\<rparr>\<rparr>
      in case en_repeat entry of
           None \<Rightarrow> inner1
         | Some r \<Rightarrow>
             let fires_left = map_option one_less (en_fires_left entry) in
             if fires_left = Some 0 then inner1
             else inner1\<lparr>in_entries := in_entries inner1 @
               [entry\<lparr>en_fire_at := now + wr_interval_ms r, en_fires_left := fires_left\<rparr>]\<rparr>)"

text \<open>
  The inner loop of the worker: while some entry is due, remove the first such entry and fire it. \<open>insts\<close> and \<open>days\<close> are the
  successive clock readings of the fires. The records left in \<open>last_fired\<close> are collected in the first component.
\<close>

partial_function (option) fire_due ::
  "nat \<Rightarrow> (nat \<Rightarrow> nat) \<Rightarrow> (nat \<Rightarrow> nat) \<Rightarrow> Inner \<Rightarrow> (FiredWake option list \<times> Inner) option" where
  "fire_due now insts days inner =
     (case List.extract (\<lambda>e. en_fire_at e \<le> now) (in_entries inner) of
        None \<Rightarrow> Some ([], inner)
      | Some (before, entry, behind) \<Rightarrow>
          let inner1 = fire (insts 0) (days 0) entry (inner\<lparr>in_entries := before @ behind\<rparr>) in
          Option.bind (fire_due now (\<lambda>n. insts (Suc n)) (\<lambda>n. days (Suc n)) inner1)
            (\<lambda>(fired, inner2). Some (in_last_fired inner1 # fired, inner2)))"

text \<open>One pass of the worker: fire what is due, then stop or say how long to wait.\<close>

definition next_timeout :: "nat \<Rightarrow> Inner \<Rightarrow> nat" where
  "next_timeout now inner =
     (case in_entries inner of
        [] \<Rightarrow> IDLE_POLL
      | e # es \<Rightarrow> fold min (map en_fire_at es) (en_fire_at e) - now)"

definition worker_pass ::
  "nat \<Rightarrow> (nat \<Rightarrow> nat) \<Rightarrow> (nat \<Rightarrow> nat) \<Rightarrow> nat \<Rightarrow> Inner \<Rightarrow> (FiredWake option list \<times> nat option \<times> Inner) option" where
  "worker_pass now insts days now' inner =
     map_option (\<lambda>(fired, inner1). (fired, if in_shutdown inner1 then None else Some (next_timeout now' inner1), inner1))
       (fire_due now insts days inner)"

section \<open>Specification\<close>

text \<open>The due entries fired one after the other, over what is not due.\<close>

fun fire_all :: "(nat \<Rightarrow> nat) \<Rightarrow> (nat \<Rightarrow> nat) \<Rightarrow> Entry list \<Rightarrow> Inner \<Rightarrow> FiredWake option list \<times> Inner" where
  "fire_all insts days [] inner = ([], inner)"
| "fire_all insts days (e # es) inner =
     (case fire_all (\<lambda>n. insts (Suc n)) (\<lambda>n. days (Suc n)) es (fire (insts 0) (days 0) e inner) of
        (fired, inner1) \<Rightarrow> (in_last_fired (fire (insts 0) (days 0) e inner) # fired, inner1))"

definition pass_result :: "nat \<Rightarrow> (nat \<Rightarrow> nat) \<Rightarrow> (nat \<Rightarrow> nat) \<Rightarrow> Inner \<Rightarrow> FiredWake option list \<times> Inner" where
  "pass_result now insts days inner =
     fire_all insts days (filter (\<lambda>e. en_fire_at e \<le> now) (in_entries inner))
       (inner\<lparr>in_entries := filter (\<lambda>e. \<not> en_fire_at e \<le> now) (in_entries inner)\<rparr>)"

text \<open>What validation guarantees of an entry, and the invariant of the scheduler.\<close>

definition entry_ok :: "Entry \<Rightarrow> bool" where
  "entry_ok e = ((case en_repeat e of None \<Rightarrow> True | Some r \<Rightarrow> MIN_INTERVAL_MS \<le> wr_interval_ms r) \<and> en_fires_left e \<noteq> Some 0)"

definition scheduler_inv :: "Inner \<Rightarrow> bool" where
  "scheduler_inv inner = (list_all entry_ok (in_entries inner) \<and> distinct (map en_wake_id (in_entries inner)))"

datatype scheduler_event =
    S_Register nat nat "(WakeRequestPayload, string) result"
  | S_Cancel "(CancelRequestPayload, string) result"
  | S_Pass nat "nat \<Rightarrow> nat" "nat \<Rightarrow> nat"
  | S_Shutdown

text \<open>The scheduler with the record of all fires. The monotonic clock does not run backwards within a pass.\<close>

type_synonym scheduler = "Inner \<times> FiredWake option list"

inductive scheduler_step :: "scheduler \<Rightarrow> scheduler_event \<Rightarrow> scheduler \<Rightarrow> bool" where
  register: "register now today params inner = (r, inner') \<Longrightarrow> scheduler_step (inner, fs) (S_Register now today params) (inner', fs)"
| cancel: "cancel params inner = (r, inner') \<Longrightarrow> scheduler_step (inner, fs) (S_Cancel params) (inner', fs)"
| pass: "\<forall>n. now \<le> insts n \<Longrightarrow> worker_pass now insts days now' inner = Some (fired, w, inner') \<Longrightarrow>
    scheduler_step (inner, fs) (S_Pass now insts days) (inner', fs @ fired)"
| shutdown: "scheduler_step (inner, fs) S_Shutdown (shutdown_scheduler inner, fs)"

text \<open>How often a wake is still to fire, if that is bounded; how often it has fired; the events that name it.\<close>

definition fires_expected :: "WakeRepeat option \<Rightarrow> nat option" where
  "fires_expected r = (case r of None \<Rightarrow> Some 1 | Some r \<Rightarrow> wr_count r)"

definition remaining :: "string \<Rightarrow> Entry list \<Rightarrow> nat option" where
  "remaining i es =
     (case find (\<lambda>e. en_wake_id e = i) es of
        None \<Rightarrow> Some 0
      | Some e \<Rightarrow> if en_repeat e = None then Some 1 else en_fires_left e)"

definition fires_of :: "string \<Rightarrow> FiredWake option list \<Rightarrow> nat" where
  "fires_of i fs = length (filter (\<lambda>f. map_option fw_wake_id f = Some i) fs)"

fun names_wake :: "string \<Rightarrow> scheduler_event \<Rightarrow> bool" where
  "names_wake i (S_Register _ _ (Ok p)) = (wp_wake_id p = i)"
| "names_wake i (S_Cancel (Ok p)) = (cp_wake_id p = i)"
| "names_wake i _ = False"

section \<open>Lemmas\<close>

lemma fire_fields:
  "in_last_fired (fire now today e inner) = Some \<lparr>fw_wake_id = en_wake_id e, fw_reason = en_reason e,
     fw_requested_at = en_requested_at e, fw_deadline = en_deadline e, fw_fired_at = now_timestamp_like today\<rparr>"
  "in_fired (fire now today e inner) = in_fired inner + 1"
  "in_registered (fire now today e inner) = in_registered inner" "in_cancelled (fire now today e inner) = in_cancelled inner"
  "in_shutdown (fire now today e inner) = in_shutdown inner"
  by (auto simp: fire_def Let_def split: option.splits)

definition again :: "nat \<Rightarrow> Entry \<Rightarrow> Entry list" where
  "again now e = (case en_repeat e of
      None \<Rightarrow> []
    | Some r \<Rightarrow> if map_option one_less (en_fires_left e) = Some 0 then []
                else [e\<lparr>en_fire_at := now + wr_interval_ms r, en_fires_left := map_option one_less (en_fires_left e)\<rparr>])"

lemma fire_entries: "in_entries (fire now today e inner) = in_entries inner @ again now e"
  by (auto simp: fire_def again_def Let_def split: option.splits)

lemma fire_replace: "(fire now today e inner)\<lparr>in_entries := es @ again now e\<rparr> = fire now today e (inner\<lparr>in_entries := es\<rparr>)"
  by (auto simp: fire_def again_def Let_def split: option.splits)

lemma again_later: "entry_ok e \<Longrightarrow> now \<le> now' \<Longrightarrow> x \<in> set (again now' e) \<Longrightarrow> now < en_fire_at x"
  by (auto simp: again_def entry_ok_def MIN_INTERVAL_MS_def split: option.splits if_splits)

lemma again_ok: "entry_ok e \<Longrightarrow> x \<in> set (again now e) \<Longrightarrow> entry_ok x \<and> en_wake_id x = en_wake_id e"
  by (auto simp: again_def entry_ok_def split: option.splits if_splits)

lemma fire_due_eq:
  assumes "list_all entry_ok (in_entries inner)" and "\<forall>n. now \<le> insts n"
  shows "fire_due now insts days inner =
    Some (fire_all insts days (filter (\<lambda>e. en_fire_at e \<le> now) (in_entries inner))
      (inner\<lparr>in_entries := filter (\<lambda>e. \<not> en_fire_at e \<le> now) (in_entries inner)\<rparr>))"
  using assms
proof (induction "filter (\<lambda>e. en_fire_at e \<le> now) (in_entries inner)" arbitrary: inner insts days)
  case Nil
  hence n: "\<forall>e \<in> set (in_entries inner). \<not> en_fire_at e \<le> now"
    using Nil.hyps [symmetric] by (simp only: filter_empty_conv)
  hence "List.extract (\<lambda>e. en_fire_at e \<le> now) (in_entries inner) = None" by (auto simp: extract_None_iff)
  moreover have "filter (\<lambda>e. \<not> en_fire_at e \<le> now) (in_entries inner) = in_entries inner" using n by (simp add: filter_id_conv)
  ultimately show ?case using Nil.hyps by (subst fire_due.simps) (simp flip: Nil.hyps)
next
  case (Cons d ds)
  let ?due = "\<lambda>e. en_fire_at e \<le> now"
  have "d \<in> set (filter ?due (in_entries inner))" by (simp flip: Cons.hyps(2))
  hence "List.extract ?due (in_entries inner) \<noteq> None" by (auto simp: extract_None_iff)
  then obtain before e behind where x: "List.extract ?due (in_entries inner) = Some (before, e, behind)" by auto
  hence split: "in_entries inner = before @ e # behind" "?due e" "\<forall>b \<in> set before. \<not> ?due b"
    by (auto simp: extract_Some_iff)
  hence none: "filter ?due before = []" "filter (\<lambda>e. \<not> ?due e) before = before"
    by (auto simp: filter_empty_conv filter_id_conv)
  have de: "d = e" "ds = filter ?due behind" using Cons.hyps(2) split none by simp_all
  let ?inner1 = "fire (insts 0) (days 0) e (inner\<lparr>in_entries := before @ behind\<rparr>)"
  have ents: "in_entries ?inner1 = before @ behind @ again (insts 0) e" by (simp add: fire_entries)
  have ok: "entry_ok e" using Cons.prems(1) split by simp
  have later: "\<forall>x \<in> set (again (insts 0) e). \<not> ?due x" using again_later [OF ok] Cons.prems(2) by (meson not_le)
  hence f: "filter ?due (again (insts 0) e) = []" "filter (\<lambda>e. \<not> ?due e) (again (insts 0) e) = again (insts 0) e"
    by (auto simp: filter_empty_conv filter_id_conv)
  have "list_all entry_ok (in_entries ?inner1)"
    using Cons.prems(1) split again_ok [OF ok] unfolding ents by (auto simp: list_all_iff)
  moreover have "ds = filter ?due (in_entries ?inner1)" unfolding ents using de none f by simp
  ultimately have "fire_due now (\<lambda>n. insts (Suc n)) (\<lambda>n. days (Suc n)) ?inner1 =
      Some (fire_all (\<lambda>n. insts (Suc n)) (\<lambda>n. days (Suc n)) ds
        (?inner1\<lparr>in_entries := filter (\<lambda>e. \<not> ?due e) (in_entries ?inner1)\<rparr>))"
    using Cons.hyps(1) [of ?inner1 "\<lambda>n. insts (Suc n)" "\<lambda>n. days (Suc n)"] Cons.prems(2) by simp
  moreover have "?inner1\<lparr>in_entries := filter (\<lambda>e. \<not> ?due e) (in_entries ?inner1)\<rparr> =
      fire (insts 0) (days 0) e (inner\<lparr>in_entries := filter (\<lambda>e. \<not> ?due e) (in_entries inner)\<rparr>)"
    unfolding ents
    using split none f fire_replace [where now = "insts 0" and today = "days 0" and e = e and
        inner = "inner\<lparr>in_entries := before @ behind\<rparr>" and es = "before @ filter (\<lambda>e. \<not> ?due e) behind"]
    by simp
  ultimately show ?case
    unfolding Cons.hyps(2) [symmetric] de(1)
    by (subst fire_due.simps) (simp add: x fire_fields split: prod.splits)
qed

lemma fire_all_fields:
  "map (map_option fw_wake_id) (fst (fire_all insts days es inner)) = map (\<lambda>e. Some (en_wake_id e)) es"
  "in_fired (snd (fire_all insts days es inner)) = in_fired inner + length es"
  "in_registered (snd (fire_all insts days es inner)) = in_registered inner"
  "in_cancelled (snd (fire_all insts days es inner)) = in_cancelled inner"
  by (induction insts days es inner rule: fire_all.induct) (simp_all add: fire_fields case_prod_unfold)

lemma again_cases: "again now e = [] \<or> (\<exists>x. again now e = [x] \<and> en_wake_id x = en_wake_id e)"
  by (auto simp: again_def split: option.splits if_splits)

lemma fire_distinct:
  assumes "distinct (map en_wake_id (in_entries inner @ e # es))"
  shows "distinct (map en_wake_id (in_entries (fire now today e inner) @ es))"
  using again_cases [of now e] assms by (elim disjE exE conjE) (simp_all add: fire_entries)

lemma fire_all_inv:
  assumes "list_all entry_ok (in_entries inner @ es)" and "distinct (map en_wake_id (in_entries inner @ es))"
  shows "scheduler_inv (snd (fire_all insts days es inner))"
  using assms
proof (induction insts days es inner rule: fire_all.induct)
  case (2 insts days e es inner)
  have "list_all entry_ok (in_entries (fire (insts 0) (days 0) e inner) @ es)"
    using 2(2) again_ok [of e] by (auto simp: fire_entries list_all_iff)
  from 2(1) [OF this fire_distinct [OF 2(3)]] show ?case by (simp add: case_prod_unfold)
qed (simp add: scheduler_inv_def)

lemma remaining_append:
  "remaining i (xs @ ys) = (if i \<in> en_wake_id ` set xs then remaining i xs else remaining i ys)"
proof -
  have "find (\<lambda>e. en_wake_id e = i) (xs @ ys) =
      (if i \<in> en_wake_id ` set xs then find (\<lambda>e. en_wake_id e = i) xs else find (\<lambda>e. en_wake_id e = i) ys)"
    by (induction xs) auto
  thus ?thesis by (simp add: remaining_def)
qed

lemma remaining_simps [simp]:
  "remaining i [] = Some 0"
  "remaining i (e # es) = (if en_wake_id e = i then (if en_repeat e = None then Some 1 else en_fires_left e) else remaining i es)"
  by (simp_all add: remaining_def)

lemma remaining_notin: "i \<notin> en_wake_id ` set es \<Longrightarrow> remaining i es = Some 0"
  by (induction es) auto

lemma remaining_cong:
  assumes "distinct (map en_wake_id xs)" "distinct (map en_wake_id ys)" "set xs = set ys"
  shows "remaining i xs = remaining i ys"
proof (cases "i \<in> en_wake_id ` set xs")
  case True
  then obtain e where e: "e \<in> set xs" "en_wake_id e = i" by auto
  have "find (\<lambda>e. en_wake_id e = i) zs = Some e" if "distinct (map en_wake_id zs)" "e \<in> set zs" for zs
    using that e(2) by (induction zs) (auto simp: rev_image_eqI)
  thus ?thesis using assms e(1) by (simp add: remaining_def)
next
  case False
  thus ?thesis using assms(3) by (simp add: remaining_notin)
qed

lemma remaining_again:
  assumes "entry_ok e"
  shows "remaining (en_wake_id e) [e] = map_option Suc (remaining (en_wake_id e) (again now e))"
  using assms
  by (cases "en_repeat e"; cases "en_fires_left e") (auto simp: again_def entry_ok_def one_less_def)

lemma fires_of_simps [simp]:
  "fires_of i [] = 0" "fires_of i (f # fs) = (if map_option fw_wake_id f = Some i then Suc (fires_of i fs) else fires_of i fs)"
  "fires_of i (fs @ gs) = fires_of i fs + fires_of i gs"
  by (simp_all add: fires_of_def)

lemma fire_all_remaining:
  assumes "list_all entry_ok es" and "distinct (map en_wake_id (in_entries inner @ es))"
  shows "remaining i (in_entries inner @ es) =
    map_option (\<lambda>m. fires_of i (fst (fire_all insts days es inner)) + m)
      (remaining i (in_entries (snd (fire_all insts days es inner))))"
  using assms
proof (induction insts days es inner rule: fire_all.induct)
  case (1 insts days inner)
  show ?case by (cases "remaining i (in_entries inner)") simp_all
next
  case (2 insts days e es inner)
  let ?inner1 = "fire (insts 0) (days 0) e inner"
  obtain fired inner2 where f: "fire_all (\<lambda>n. insts (Suc n)) (\<lambda>n. days (Suc n)) es ?inner1 = (fired, inner2)" by fastforce
  note d = fire_distinct [OF 2(3), of "insts 0" "days 0"]
  have ih: "remaining i (in_entries inner @ again (insts 0) e @ es) =
      map_option (\<lambda>m. fires_of i fired + m) (remaining i (in_entries inner2))"
    using 2(1) [OF _ d] 2(2) f by (simp add: fire_entries)
  show ?case
  proof (cases "en_wake_id e = i")
    case True
    have nin: "i \<notin> en_wake_id ` set (in_entries inner)" "i \<notin> en_wake_id ` set es" using 2(3) True by auto
    have "remaining i (again (insts 0) e @ es) = remaining i (again (insts 0) e)"
      using nin(2) by (simp add: remaining_append remaining_notin)
    hence "remaining i (again (insts 0) e) = map_option (\<lambda>m. fires_of i fired + m) (remaining i (in_entries inner2))"
      using ih nin(1) by (simp add: remaining_append)
    moreover have "remaining i (in_entries inner @ e # es) = map_option Suc (remaining i (again (insts 0) e))"
      using remaining_again [of e "insts 0"] 2(2) True nin(1) by (simp add: remaining_append)
    ultimately show ?thesis using f True by (cases "remaining i (in_entries inner2)") (simp_all add: fire_fields)
  next
    case False
    hence "i \<notin> en_wake_id ` set (again (insts 0) e)" using again_cases [of "insts 0" e] by auto
    hence "remaining i (in_entries inner @ e # es) = remaining i (in_entries inner @ again (insts 0) e @ es)"
      using False by (simp add: remaining_append)
    thus ?thesis using ih f False by (simp add: fire_fields)
  qed
qed

lemma fire_all_later:
  assumes "list_all entry_ok es" and "\<forall>n. now \<le> insts n" and "\<forall>e \<in> set (in_entries inner). now < en_fire_at e"
  shows "\<forall>e \<in> set (in_entries (snd (fire_all insts days es inner))). now < en_fire_at e"
  using assms
proof (induction insts days es inner rule: fire_all.induct)
  case (2 insts days e es inner)
  have "\<forall>x \<in> set (in_entries (fire (insts 0) (days 0) e inner)). now < en_fire_at x"
    using 2(2-4) again_later [of e now "insts 0"] by (auto simp: fire_entries)
  thus ?case using 2(1-3) by (simp add: case_prod_unfold)
qed simp

lemma worker_pass_eq:
  assumes "scheduler_inv inner" and "\<forall>n. now \<le> insts n"
  shows "\<exists>w. worker_pass now insts days now' inner = Some (fst (pass_result now insts days inner), w, snd (pass_result now insts days inner))"
  using fire_due_eq [OF _ assms(2)] assms(1)
  by (simp add: worker_pass_def pass_result_def scheduler_inv_def case_prod_unfold)

lemma due_split:
  assumes "distinct (map en_wake_id es)"
  shows "distinct (map en_wake_id (filter (\<lambda>e. \<not> P e) es @ filter P es))"
proof -
  have "inj_on en_wake_id (set es)" "distinct es" using assms by (simp_all add: distinct_map)
  thus ?thesis unfolding distinct_map by (auto intro: inj_on_subset)
qed

lemma pass_inv:
  assumes "scheduler_inv inner"
  shows "scheduler_inv (snd (pass_result now insts days inner))"
  unfolding pass_result_def
proof (rule fire_all_inv)
  let ?due = "\<lambda>e. en_fire_at e \<le> now"
  show "list_all entry_ok (in_entries (inner\<lparr>in_entries := filter (\<lambda>e. \<not> ?due e) (in_entries inner)\<rparr>) @ filter ?due (in_entries inner))"
    using assms by (auto simp: scheduler_inv_def list_all_iff)
  show "distinct (map en_wake_id (in_entries (inner\<lparr>in_entries := filter (\<lambda>e. \<not> ?due e) (in_entries inner)\<rparr>) @
      filter ?due (in_entries inner)))"
    using due_split [of "in_entries inner" ?due] assms by (simp add: scheduler_inv_def)
qed

lemma pass_balance:
  assumes "scheduler_inv inner"
  shows "map_option (\<lambda>m. fires_of i (fst (pass_result now insts days inner)) + m)
      (remaining i (in_entries (snd (pass_result now insts days inner)))) = remaining i (in_entries inner)"
proof -
  let ?due = "\<lambda>e. en_fire_at e \<le> now"
  let ?rest = "filter (\<lambda>e. \<not> ?due e) (in_entries inner)"
  have d: "distinct (map en_wake_id (in_entries inner))" "list_all entry_ok (filter ?due (in_entries inner))"
    using assms by (auto simp: scheduler_inv_def list_all_iff)
  note split = due_split [OF d(1), of ?due]
  have "set (?rest @ filter ?due (in_entries inner)) = set (in_entries inner)" by auto
  hence "remaining i (?rest @ filter ?due (in_entries inner)) = remaining i (in_entries inner)"
    using remaining_cong [OF split d(1)] by blast
  moreover have "distinct (map en_wake_id (in_entries (inner\<lparr>in_entries := ?rest\<rparr>) @ filter ?due (in_entries inner)))"
    using split by simp
  note fire_all_remaining [OF d(2) this, of i insts days]
  ultimately show ?thesis by (simp add: pass_result_def)
qed

lemma validated_entry:
  assumes "validate_wake_request p = Ok ()"
  shows "entry_ok \<lparr>en_seq = s, en_wake_id = i, en_fire_at = t, en_reason = r, en_requested_at = q, en_deadline = d,
    en_repeat = wp_repeat p, en_fires_left = Option.bind (wp_repeat p) wr_count\<rparr>"
  using assms by (auto simp: validate_wake_request_def entry_ok_def split: if_splits option.splits)

lemma register_cases:
  assumes "register now today params inner = (r, inner')"
  obtains (refused) e where "r = Err e" "inner' = inner"
  | (accepted) p t where "params = Ok p" "validate_wake_request p = Ok ()" "fire_time p = Ok t" "is_ok r"
      "wp_wake_id p \<notin> en_wake_id ` set (in_entries inner)"
      "inner' = inner\<lparr>in_next_seq := in_next_seq inner + 1, in_entries := in_entries inner @
        [\<lparr>en_seq = in_next_seq inner, en_wake_id = wp_wake_id p, en_fire_at = now + (t - today), en_reason = wp_reason p,
          en_requested_at = wp_requested_at p, en_deadline = wp_deadline p, en_repeat = wp_repeat p,
          en_fires_left = Option.bind (wp_repeat p) wr_count\<rparr>], in_registered := in_registered inner + 1\<rparr>"
proof (cases params)
  case (Ok p)
  show ?thesis
  proof (cases "validate_wake_request p")
    case v: (Ok u)
    show ?thesis
    proof (cases "fire_time p")
      case t: (Ok t)
      show ?thesis
      proof (cases "list_ex (\<lambda>e. en_wake_id e = wp_wake_id p) (in_entries inner)")
        case False
        hence "wp_wake_id p \<notin> en_wake_id ` set (in_entries inner)" by (auto simp: list_ex_iff)
        thus ?thesis using assms Ok v t False by (intro accepted [OF Ok _ t]) (auto simp: register_def Let_def)
      qed (use assms Ok v t refused in \<open>auto simp: register_def Let_def\<close>)
    qed (use assms Ok v refused in \<open>auto simp: register_def\<close>)
  qed (use assms Ok refused in \<open>auto simp: register_def\<close>)
qed (use assms refused in \<open>auto simp: register_def\<close>)

lemma scheduler_step_inv:
  assumes "scheduler_step s e s'" and "scheduler_inv (fst s)"
  shows "scheduler_inv (fst s')"
  using assms(1)
proof (cases rule: scheduler_step.cases)
  case (register now today params inner r inner' fs)
  from register(4) show ?thesis
  proof (cases rule: register_cases)
    case (accepted p t)
    thus ?thesis using assms(2) register(1,3) validated_entry [OF accepted(2)] by (simp add: scheduler_inv_def)
  qed (use assms(2) register in simp)
next
  case (cancel params inner r inner' fs)
  thus ?thesis using assms(2)
    by (cases params) (auto simp: cancel_def scheduler_inv_def Let_def list_all_iff distinct_map_filter split: if_splits)
next
  case (pass now insts days now' inner fired w inner' fs)
  have inv: "scheduler_inv inner" using assms(2) pass(1) by simp
  thus ?thesis using worker_pass_eq [OF inv pass(4), of days now'] pass(3,5) pass_inv [OF inv, of now insts days] by auto
next
  case (shutdown inner fs)
  thus ?thesis using assms(2) by (simp add: shutdown_scheduler_def scheduler_inv_def)
qed

lemma remaining_filter: "remaining i (filter (\<lambda>e. en_wake_id e \<noteq> j) es) = (if i = j then Some 0 else remaining i es)"
  by (induction es) auto

lemma cancel_entries:
  assumes "cancel params inner = (r, inner')"
  shows "in_entries inner' = in_entries inner \<or>
    (\<exists>q. params = Ok q \<and> in_entries inner' = filter (\<lambda>e. en_wake_id e \<noteq> cp_wake_id q) (in_entries inner))"
  using assms by (cases params) (auto simp: cancel_def Let_def split: if_splits)

text \<open>What the wake \<open>i\<close> has fired and is still to fire.\<close>

definition wake_total :: "string \<Rightarrow> scheduler \<Rightarrow> nat option" where
  "wake_total i s = map_option (\<lambda>m. fires_of i (snd s) + m) (remaining i (in_entries (fst s)))"

lemma scheduler_step_total:
  assumes "scheduler_step s e s'" and "scheduler_inv (fst s)" and "\<not> names_wake i e"
  shows "wake_total i s' = wake_total i s"
  using assms(1)
proof (cases rule: scheduler_step.cases)
  case (register now today params inner r inner' fs)
  from register(4) show ?thesis
  proof (cases rule: register_cases)
    case (accepted p t)
    have "wp_wake_id p \<noteq> i" using assms(3) register(2) accepted(1) by simp
    hence "remaining i (in_entries inner') = remaining i (in_entries inner)"
      by (simp add: accepted(6) remaining_append remaining_notin)
    thus ?thesis using register by (simp add: wake_total_def)
  qed (use register in \<open>simp add: wake_total_def\<close>)
next
  case (cancel params inner r inner' fs)
  have "remaining i (in_entries inner') = remaining i (in_entries inner)"
    using cancel_entries [OF cancel(4)] assms(3) cancel(2) by (auto simp: remaining_filter)
  thus ?thesis using cancel by (simp add: wake_total_def)
next
  case (pass now insts days now' inner fired w inner' fs)
  have inv: "scheduler_inv inner" using assms(2) pass(1) by simp
  have r: "fired = fst (pass_result now insts days inner)" "inner' = snd (pass_result now insts days inner)"
    using worker_pass_eq [OF inv pass(4), of days now'] pass(5) by auto
  show ?thesis
    unfolding wake_total_def pass(1,3) fst_conv snd_conv pass_balance [OF inv, of i now insts days, symmetric] r
    by (cases "remaining i (in_entries (snd (pass_result now insts days inner)))") simp_all
next
  case (shutdown inner fs)
  thus ?thesis by (simp add: shutdown_scheduler_def wake_total_def)
qed

interpretation scheduler: preserved scheduler_step "\<lambda>s. scheduler_inv (fst s)"
  by unfold_locales (rule scheduler_step_inv)

text \<open>The steps that neither register nor cancel the wake \<open>i\<close>.\<close>

definition undisturbed_step :: "string \<Rightarrow> scheduler \<Rightarrow> scheduler_event \<Rightarrow> scheduler \<Rightarrow> bool" where
  "undisturbed_step i s e s' = (scheduler_step s e s' \<and> \<not> names_wake i e)"

interpretation wake: preserved "undisturbed_step i" "\<lambda>s. scheduler_inv (fst s) \<and> wake_total i s = c" for i c
  by unfold_locales (auto simp: undisturbed_step_def scheduler_step_total intro: scheduler_step_inv)

lemma default_inner_inv: "scheduler_inv default_inner"
  by (simp add: scheduler_inv_def default_inner_def)

definition sample_wake :: WakeRequestPayload where
  "sample_wake = \<lparr>wp_wake_id = ''wake-001'', wp_requested_at = ''1970-01-01T00:00:00Z'', wp_deadline = None, wp_reason = ScheduledDue,
     wp_repeat = Some \<lparr>wr_interval_ms = 50, wr_count = Some 2\<rparr>\<rparr>"

definition sample_inner :: Inner where
  "sample_inner = default_inner\<lparr>in_next_seq := 1, in_entries := [\<lparr>en_seq = 0, en_wake_id = ''wake-001'', en_fire_at = 0,
     en_reason = ScheduledDue, en_requested_at = ''1970-01-01T00:00:00Z'', en_deadline = None,
     en_repeat = Some \<lparr>wr_interval_ms = 50, wr_count = Some 2\<rparr>, en_fires_left = Some 2\<rparr>], in_registered := 1\<rparr>"

lemma sample_register: "\<exists>reply. register 0 0 (Ok sample_wake) default_inner = (Ok reply, sample_inner)"
proof -
  have "parse_rfc3339 ''1970-01-01T00:00:00Z'' = Some 0" by code_simp
  hence "fire_time sample_wake = Ok 0" by (simp add: fire_time_def sample_wake_def)
  moreover have "validate_wake_request sample_wake = Ok ()"
    by (simp add: validate_wake_request_def sample_wake_def WAKE_ID_MIN_LEN_def WAKE_ID_MAX_LEN_def MIN_INTERVAL_MS_def MAX_INTERVAL_MS_def)
  ultimately show ?thesis by (simp add: register_def sample_inner_def default_inner_def Let_def) (simp add: sample_wake_def)
qed

section \<open>Properties\<close>

text \<open>
  C25. The worker always gets through its pass: whatever was registered and cancelled before, the loop over the due entries
  ends, because a repeated wake is put back at least 50 ms ahead. It fires each due wake exactly once, in the order of the
  list, and leaves no due entry behind.
\<close>

theorem worker_pass_total:
  assumes "run scheduler_step (default_inner, []) es (inner, fs)" and "\<forall>n. now \<le> insts n"
  shows "\<exists>fired w inner'. worker_pass now insts days now' inner = Some (fired, w, inner') \<and>
    map (map_option fw_wake_id) fired = map (\<lambda>e. Some (en_wake_id e)) (filter (\<lambda>e. en_fire_at e \<le> now) (in_entries inner)) \<and>
    in_fired inner' = in_fired inner + length fired \<and> (\<forall>e \<in> set (in_entries inner'). now < en_fire_at e)"
proof -
  have inv: "scheduler_inv inner" using scheduler.run_inv [OF assms(1)] default_inner_inv by simp
  hence "list_all entry_ok (filter (\<lambda>e. en_fire_at e \<le> now) (in_entries inner))" by (auto simp: scheduler_inv_def list_all_iff)
  from fire_all_later [OF this assms(2), of "inner\<lparr>in_entries := filter (\<lambda>e. \<not> en_fire_at e \<le> now) (in_entries inner)\<rparr>" days]
  have "\<forall>e \<in> set (in_entries (snd (pass_result now insts days inner))). now < en_fire_at e"
    by (simp add: pass_result_def)
  moreover have "length (fst (pass_result now insts days inner)) = length (filter (\<lambda>e. en_fire_at e \<le> now) (in_entries inner))"
    using arg_cong [OF fire_all_fields(1), of length] by (simp add: pass_result_def)
  ultimately show ?thesis
    using worker_pass_eq [OF inv assms(2), of days now'] fire_all_fields(1,2) by (fastforce simp: pass_result_def)
qed

theorem worker_pass_total_witness:
  "\<exists>fired w inner'. worker_pass 7 (\<lambda>n. 7) (\<lambda>n. 0) 7 sample_inner = Some (fired, w, inner') \<and>
     map (map_option fw_wake_id) fired = [Some ''wake-001''] \<and> (\<forall>e \<in> set (in_entries inner'). 7 < en_fire_at e)"
proof -
  obtain reply where "register 0 0 (Ok sample_wake) default_inner = (Ok reply, sample_inner)" using sample_register by blast
  hence s: "scheduler_step (default_inner, []) (S_Register 0 0 (Ok sample_wake)) (sample_inner, [])" by (rule scheduler_step.register)
  have r: "run scheduler_step (default_inner, []) [S_Register 0 0 (Ok sample_wake)] (sample_inner, [])"
    by (rule run_cons [where step = scheduler_step, OF s run_nil])
  have "map en_wake_id (filter (\<lambda>e. en_fire_at e \<le> 7) (in_entries sample_inner)) = [''wake-001'']" by code_simp
  hence "map (\<lambda>e. Some (en_wake_id e)) (filter (\<lambda>e. en_fire_at e \<le> 7) (in_entries sample_inner)) = [Some ''wake-001'']"
    by (auto simp: map_eq_Cons_conv)
  thus ?thesis using worker_pass_total [OF r, of 7 "\<lambda>n. 7" "\<lambda>n. 0" 7] by auto
qed

text \<open>
  C26. A wake fires as often as it was registered for: from its registration on, as long as it is neither cancelled nor
  registered anew, the number of its fires plus the number still to come is the requested count: one without repetition,
  the bound of a bounded repetition, and unbounded otherwise. A wake that is no longer scheduled has none to come.
\<close>

theorem wake_fires_exactly:
  assumes "run scheduler_step (default_inner, []) es (inner, fs)"
    and "register now today (Ok p) inner = (Ok reply, inner1)"
    and "run (undisturbed_step (wp_wake_id p)) (inner1, fs) es' (inner2, fs @ gs)"
  shows "map_option (\<lambda>m. fires_of (wp_wake_id p) gs + m) (remaining (wp_wake_id p) (in_entries inner2)) = fires_expected (wp_repeat p)"
proof -
  let ?i = "wp_wake_id p"
  have inv: "scheduler_inv inner" using scheduler.run_inv [OF assms(1)] default_inner_inv by simp
  have inv1: "scheduler_inv inner1"
    using scheduler_step_inv [OF scheduler_step.register [OF assms(2), of fs]] inv by simp
  have "remaining ?i (in_entries inner1) = fires_expected (wp_repeat p)"
    using assms(2)
  proof (cases rule: register_cases)
    case (accepted q t)
    have "q = p" using accepted(1) by simp
    thus ?thesis using accepted(5,6) by (cases "wp_repeat p") (simp_all add: remaining_append fires_expected_def)
  qed simp
  hence t: "wake_total ?i (inner1, fs) = map_option (\<lambda>m. fires_of ?i fs + m) (fires_expected (wp_repeat p))"
    by (simp add: wake_total_def)
  have "wake_total ?i (inner2, fs @ gs) = map_option (\<lambda>m. fires_of ?i fs + m) (fires_expected (wp_repeat p))"
    using wake.run_inv [OF assms(3)] inv1 t by simp
  thus ?thesis
    by (cases "remaining ?i (in_entries inner2)"; cases "fires_expected (wp_repeat p)") (simp_all add: wake_total_def)
qed

theorem wake_fires_exactly_witness:
  "\<exists>gs inner2. worker_pass 7 (\<lambda>n. 7) (\<lambda>n. 0) 7 sample_inner = Some (gs, Some 50, inner2) \<and> fires_of ''wake-001'' gs = 1 \<and>
     remaining ''wake-001'' (in_entries inner2) = Some 1"
proof -
  let ?p = "worker_pass 7 (\<lambda>n. 7) (\<lambda>n. 0) 7 sample_inner"
  have "list_all entry_ok (in_entries sample_inner)" "\<forall>n. (7::nat) \<le> 7"
    by (simp_all add: sample_inner_def entry_ok_def MIN_INTERVAL_MS_def)
  from fire_due_eq [OF this]
  have "map_option (\<lambda>(gs, w, inner2). (fires_of ''wake-001'' gs, w)) ?p = Some (1, Some 50)"
    by (simp add: worker_pass_def sample_inner_def default_inner_def fire_def one_less_def next_timeout_def)
  then obtain gs inner2 where p: "?p = Some (gs, Some 50, inner2)" "fires_of ''wake-001'' gs = 1" by auto
  obtain reply where reg: "register 0 0 (Ok sample_wake) default_inner = (Ok reply, sample_inner)" using sample_register by blast
  have i: "wp_wake_id sample_wake = ''wake-001''" "fires_expected (wp_repeat sample_wake) = Some 2"
    by (simp_all add: sample_wake_def fires_expected_def)
  have "scheduler_step (sample_inner, []) (S_Pass 7 (\<lambda>n. 7) (\<lambda>n. 0)) (inner2, [] @ gs)"
    using p(1) by (intro scheduler_step.pass [where now' = 7 and w = "Some 50"]) simp_all
  hence s: "undisturbed_step (wp_wake_id sample_wake) (sample_inner, []) (S_Pass 7 (\<lambda>n. 7) (\<lambda>n. 0)) (inner2, [] @ gs)"
    by (simp add: undisturbed_step_def)
  have "run (undisturbed_step (wp_wake_id sample_wake)) (sample_inner, []) [S_Pass 7 (\<lambda>n. 7) (\<lambda>n. 0)] (inner2, [] @ gs)"
    by (rule run_cons [where step = "undisturbed_step (wp_wake_id sample_wake)", OF s run_nil])
  from wake_fires_exactly [OF run_nil reg this]
  have "map_option (\<lambda>m. 1 + m) (remaining ''wake-001'' (in_entries inner2)) = Some 2" unfolding i p(2) .
  thus ?thesis using p by auto
qed

end
