(* ===== verification/Event_Router.thy ===== *)
theory Event_Router
  imports Shell_Prelude
begin

text \<open>
  The event router of the daemon (\<open>crates/daemon/src/events.rs\<close>): one bounded queue per connection, one subscriber per
  session. Publishing looks the sender up under the lock and sends after releasing it, so the two are separate steps here.
\<close>

section \<open>Data\<close>

definition EVENT_QUEUE_CAPACITY :: nat where
  "EVENT_QUEUE_CAPACITY = 256"

record OutputEvent =
  oe_session_id :: string
  oe_seq :: nat
  oe_data :: string

datatype BrowserLifecycleKind = Life_Created | Life_Closed

record BrowserLifecycleEvent =
  bl_session_id :: string
  bl_kind :: BrowserLifecycleKind
  bl_occurred_at :: nat
  bl_url :: "string option"

datatype RouterEvent = Router_Terminal OutputEvent | Router_Browser BrowserLifecycleEvent

fun event_session_id :: "RouterEvent \<Rightarrow> string" where
  "event_session_id (Router_Terminal e) = oe_session_id e"
| "event_session_id (Router_Browser e) = bl_session_id e"

text \<open>
  The routing state, and the channels: \<open>rt_queues\<close> holds what each channel buffers, and a key is in it as long as its receiver
  lives.
\<close>

record EventRouter =
  rt_next_connection :: nat
  rt_sessions :: "(string, nat) hashmap"
  rt_connections :: "(nat, unit) hashmap"
  rt_queues :: "(nat, RouterEvent list) hashmap"

definition spawn_router :: EventRouter where
  "spawn_router = \<lparr>rt_next_connection = 0, rt_sessions = [], rt_connections = [], rt_queues = []\<rparr>"

section \<open>Operations\<close>

definition register_connection :: "EventRouter \<Rightarrow> nat \<times> EventRouter" where
  "register_connection r =
     (let key = rt_next_connection r + 1
      in (key, r\<lparr>rt_next_connection := key, rt_connections := hm_insert key () (rt_connections r),
            rt_queues := hm_insert key [] (rt_queues r)\<rparr>))"

definition subscribe :: "nat \<Rightarrow> string \<Rightarrow> EventRouter \<Rightarrow> EventRouter" where
  "subscribe key session r = r\<lparr>rt_sessions := hm_insert session key (rt_sessions r)\<rparr>"

definition unsubscribe :: "nat \<Rightarrow> string \<Rightarrow> EventRouter \<Rightarrow> EventRouter" where
  "unsubscribe key session r =
     (if hm_get (rt_sessions r) session = Some key then r\<lparr>rt_sessions := hm_remove session (rt_sessions r)\<rparr> else r)"

text \<open>The lookup of \<open>publish\<close> under the lock, and its send: a full or closed queue drops the event.\<close>

definition route :: "RouterEvent \<Rightarrow> EventRouter \<Rightarrow> nat option" where
  "route e r =
     (case hm_get (rt_sessions r) (event_session_id e) of
        None \<Rightarrow> None
      | Some key \<Rightarrow> if hm_contains_key (rt_connections r) key then Some key else None)"

definition try_send :: "nat \<Rightarrow> RouterEvent \<Rightarrow> EventRouter \<Rightarrow> EventRouter" where
  "try_send key e r =
     (case hm_get (rt_queues r) key of
        None \<Rightarrow> r
      | Some q \<Rightarrow>
          if length q < EVENT_QUEUE_CAPACITY then r\<lparr>rt_queues := hm_insert key (q @ [e]) (rt_queues r)\<rparr> else r)"

definition publish :: "RouterEvent \<Rightarrow> EventRouter \<Rightarrow> EventRouter" where
  "publish e r = (case route e r of None \<Rightarrow> r | Some key \<Rightarrow> try_send key e r)"

definition recv_event :: "nat \<Rightarrow> EventRouter \<Rightarrow> RouterEvent option \<times> EventRouter" where
  "recv_event key r =
     (case hm_get (rt_queues r) key of
        Some (e # q) \<Rightarrow> (Some e, r\<lparr>rt_queues := hm_insert key q (rt_queues r)\<rparr>)
      | _ \<Rightarrow> (None, r))"

definition unsubscribe_all :: "nat \<Rightarrow> EventRouter \<Rightarrow> EventRouter" where
  "unsubscribe_all key r =
     r\<lparr>rt_connections := hm_remove key (rt_connections r), rt_sessions := hm_retain (\<lambda>_ owner. owner \<noteq> key) (rt_sessions r)\<rparr>"

text \<open>The writer thread drops its subscriber after \<open>unsubscribe_all\<close>; the channel goes with it.\<close>

definition drop_subscriber :: "nat \<Rightarrow> EventRouter \<Rightarrow> EventRouter" where
  "drop_subscriber key r = r\<lparr>rt_queues := hm_remove key (rt_queues r)\<rparr>"

section \<open>All threads together\<close>

datatype router_event =
    Rt_Register
  | Rt_Subscribe nat string
  | Rt_Unsubscribe nat string
  | Rt_Route RouterEvent
  | Rt_Send nat RouterEvent
  | Rt_Recv nat
  | Rt_Leave nat
  | Rt_Drop nat

text \<open>
  The router, the sends that have been routed but not done, and what each connection has received. Only a connection that
  has been registered is ever subscribed: sessions are created on a served connection.
\<close>

type_synonym routing = "EventRouter \<times> (nat \<times> RouterEvent) list \<times> (nat \<times> RouterEvent) list"

inductive router_step :: "routing \<Rightarrow> router_event \<Rightarrow> routing \<Rightarrow> bool" where
  join: "register_connection r = (key, r') \<Longrightarrow> router_step (r, ps, ds) Rt_Register (r', ps, ds)"
| sub: "0 < key \<Longrightarrow> key \<le> rt_next_connection r \<Longrightarrow> router_step (r, ps, ds) (Rt_Subscribe key s) (subscribe key s r, ps, ds)"
| unsub: "router_step (r, ps, ds) (Rt_Unsubscribe key s) (unsubscribe key s r, ps, ds)"
| routed: "route e r = Some key \<Longrightarrow> router_step (r, ps, ds) (Rt_Route e) (r, ps @ [(key, e)], ds)"
| unrouted: "route e r = None \<Longrightarrow> router_step (r, ps, ds) (Rt_Route e) (r, ps, ds)"
| sent: "(key, e) \<in> set ps \<Longrightarrow> router_step (r, ps, ds) (Rt_Send key e) (try_send key e r, remove1 (key, e) ps, ds)"
| received: "recv_event key r = (Some e, r') \<Longrightarrow> router_step (r, ps, ds) (Rt_Recv key) (r', ps, ds @ [(key, e)])"
| idle: "recv_event key r = (None, r') \<Longrightarrow> router_step (r, ps, ds) (Rt_Recv key) (r', ps, ds)"
| leave: "router_step (r, ps, ds) (Rt_Leave key) (unsubscribe_all key r, ps, ds)"
| gone: "router_step (r, ps, ds) (Rt_Drop key) (drop_subscriber key r, ps, ds)"

section \<open>Specification\<close>

text \<open>
  With \<open>subs\<close> the subscriptions made so far: every subscription in the table, every routed, queued and received event goes to
  a connection that was subscribed to its session, and no queue is over its capacity.
\<close>

definition router_inv :: "(nat \<times> string) set \<Rightarrow> routing \<Rightarrow> bool" where
  "router_inv subs w = (case w of (r, ps, ds) \<Rightarrow>
     hm_wf (rt_sessions r) \<and>
     (\<forall>s key. hm_get (rt_sessions r) s = Some key \<longrightarrow> (key, s) \<in> subs) \<and>
     (\<forall>key e. (key, e) \<in> set ps \<union> set ds \<longrightarrow> (key, event_session_id e) \<in> subs) \<and>
     (\<forall>key q. hm_get (rt_queues r) key = Some q \<longrightarrow>
        length q \<le> EVENT_QUEUE_CAPACITY \<and> (\<forall>e \<in> set q. (key, event_session_id e) \<in> subs)))"

fun subscription :: "router_event \<Rightarrow> (nat \<times> string) set" where
  "subscription (Rt_Subscribe key s) = {(key, s)}"
| "subscription _ = {}"

section \<open>Lemmas\<close>

lemma router_invI:
  assumes "hm_wf (rt_sessions r)" and "\<And>s key. hm_get (rt_sessions r) s = Some key \<Longrightarrow> (key, s) \<in> subs"
    and "\<And>key e. (key, e) \<in> set ps \<union> set ds \<Longrightarrow> (key, event_session_id e) \<in> subs"
    and "\<And>key q. hm_get (rt_queues r) key = Some q \<Longrightarrow> length q \<le> EVENT_QUEUE_CAPACITY"
    and "\<And>key q e. hm_get (rt_queues r) key = Some q \<Longrightarrow> e \<in> set q \<Longrightarrow> (key, event_session_id e) \<in> subs"
  shows "router_inv subs (r, ps, ds)"
  using assms unfolding router_inv_def prod.case by blast

lemma router_invD:
  assumes "router_inv subs (r, ps, ds)"
  shows "hm_wf (rt_sessions r)" and "hm_get (rt_sessions r) s = Some key \<Longrightarrow> (key, s) \<in> subs"
    and "(key, e) \<in> set ps \<union> set ds \<Longrightarrow> (key, event_session_id e) \<in> subs"
    and "hm_get (rt_queues r) key = Some q \<Longrightarrow> length q \<le> EVENT_QUEUE_CAPACITY"
    and "hm_get (rt_queues r) key = Some q \<Longrightarrow> e \<in> set q \<Longrightarrow> (key, event_session_id e) \<in> subs"
  using assms unfolding router_inv_def prod.case by blast+

lemma router_inv_mono:
  assumes "router_inv subs w" "subs \<subseteq> subs'"
  shows "router_inv subs' w"
proof -
  obtain r ps ds where w: "w = (r, ps, ds)" by (cases w) auto
  note d = router_invD [OF assms(1) [unfolded w]]
  show ?thesis unfolding w by (rule router_invI) (use d assms(2) in blast)+
qed

lemma try_send_queues:
  "hm_get (rt_queues (try_send key e r)) k =
     (case hm_get (rt_queues r) k of
        None \<Rightarrow> None
      | Some q \<Rightarrow> if k = key \<and> length q < EVENT_QUEUE_CAPACITY then Some (q @ [e]) else Some q)"
  by (auto simp: try_send_def hm_get_insert split: option.splits)

lemma try_send_frame: "rt_sessions (try_send key e r) = rt_sessions r" "rt_connections (try_send key e r) = rt_connections r"
  by (simp_all add: try_send_def split: option.split)

lemma route_subscribed: "route e r = Some key \<Longrightarrow> hm_get (rt_sessions r) (event_session_id e) = Some key"
  by (auto simp: route_def split: option.splits if_splits)

lemma recv_cases:
  assumes "recv_event key r = (x, r')"
  obtains (none) "x = None" "r' = r"
  | (some) e q where "x = Some e" "hm_get (rt_queues r) key = Some (e # q)" "r' = r\<lparr>rt_queues := hm_insert key q (rt_queues r)\<rparr>"
  using assms by (auto simp: recv_event_def split: option.splits list.splits)

lemma router_step_inv:
  assumes "router_step w e w'" and "router_inv subs w"
  shows "router_inv (subs \<union> subscription e) w'"
  using assms(1)
proof (cases rule: router_step.cases)
  case (join r key r' ps ds)
  note d = router_invD [OF assms(2) [unfolded join(1)]]
  have r': "rt_sessions r' = rt_sessions r" "hm_get (rt_queues r') k = (if k = rt_next_connection r + 1 then Some [] else hm_get (rt_queues r) k)" for k
    using join(4) by (auto simp: register_connection_def Let_def hm_get_insert)
  show ?thesis
    unfolding join(2,3) subscription.simps Un_empty_right
    by (rule router_invI) (use d in \<open>auto simp: r' split: if_splits\<close>)
next
  case (sub key r ps ds s)
  note d = router_invD [OF assms(2) [unfolded sub(1)]]
  show ?thesis
    unfolding sub(2,3) subscription.simps
    by (rule router_invI) (use d in \<open>auto simp: subscribe_def hm_get_insert hm_wf_insert split: if_splits\<close>)
next
  case (unsub r ps ds key s)
  note d = router_invD [OF assms(2) [unfolded unsub(1)]]
  show ?thesis
    unfolding unsub(2,3) subscription.simps Un_empty_right
    by (rule router_invI) (use d in \<open>auto simp: unsubscribe_def hm_get_remove hm_wf_remove split: if_splits\<close>)
next
  case (routed x r key ps ds)
  note d = router_invD [OF assms(2) [unfolded routed(1)]]
  show ?thesis
    unfolding routed(2,3) subscription.simps Un_empty_right
    by (rule router_invI) (use d route_subscribed [OF routed(4)] in auto)
next
  case (unrouted x r ps ds)
  thus ?thesis using assms(2) by simp
next
  case (sent key x ps r ds)
  note d = router_invD [OF assms(2) [unfolded sent(1)]]
  have "(key, event_session_id x) \<in> subs" using d(3) sent(4) by blast
  thus ?thesis
    unfolding sent(2,3) subscription.simps Un_empty_right
    by (intro router_invI)
      (use d in \<open>auto simp: try_send_frame try_send_queues EVENT_QUEUE_CAPACITY_def dest: notin_set_remove1 set_remove1_subset [THEN subsetD]
         split: option.splits if_splits\<close>)
next
  case (received key r x r' ps ds)
  note d = router_invD [OF assms(2) [unfolded received(1)]]
  from received(4) obtain q where q: "hm_get (rt_queues r) key = Some (x # q)" "r' = r\<lparr>rt_queues := hm_insert key q (rt_queues r)\<rparr>"
    by (cases rule: recv_cases) auto
  have "(key, event_session_id x) \<in> subs" using d(5) [OF q(1)] by simp
  thus ?thesis
    unfolding received(2,3) subscription.simps Un_empty_right
    by (intro router_invI) (use d d(4,5) [OF q(1)] q(2) in \<open>auto simp: hm_get_insert split: if_splits\<close>)
next
  case (idle key r r' ps ds)
  from idle(4) have "r' = r" by (cases rule: recv_cases) auto
  thus ?thesis using assms(2) idle by simp
next
  case (leave r ps ds key)
  note d = router_invD [OF assms(2) [unfolded leave(1)]]
  show ?thesis
    unfolding leave(2,3) subscription.simps Un_empty_right
    by (rule router_invI) (use d in \<open>auto simp: unsubscribe_all_def hm_get_retain hm_wf_retain split: option.splits if_splits\<close>)
next
  case (gone r ps ds key)
  note d = router_invD [OF assms(2) [unfolded gone(1)]]
  show ?thesis
    unfolding gone(2,3) subscription.simps Un_empty_right
    by (rule router_invI) (use d in \<open>auto simp: drop_subscriber_def hm_get_remove split: if_splits\<close>)
qed

text \<open>The machine with the subscriptions made so far.\<close>

definition logged_step :: "routing \<times> (nat \<times> string) set \<Rightarrow> router_event \<Rightarrow> routing \<times> (nat \<times> string) set \<Rightarrow> bool" where
  "logged_step x e y = (router_step (fst x) e (fst y) \<and> snd y = snd x \<union> subscription e)"

interpretation router: preserved logged_step "\<lambda>x. router_inv (snd x) (fst x)"
  by unfold_locales (auto simp: logged_step_def intro: router_step_inv)

lemma logged_run:
  assumes "run router_step w es w'"
  shows "run logged_step (w, subs) es (w', subs \<union> (\<Union>e \<in> set es. subscription e))"
  using assms
proof (induction arbitrary: subs rule: run.induct)
  case (run_cons s e t es u)
  have "logged_step (s, subs) e (t, subs \<union> subscription e)" using run_cons.hyps(1) by (simp add: logged_step_def)
  from run.run_cons [where step = logged_step, OF this run_cons.IH] show ?case by (simp add: Un_assoc)
qed (simp add: run_nil)

lemma spawn_router_inv: "router_inv {} (spawn_router, [], [])"
  by (rule router_invI) (simp_all add: spawn_router_def hm_empty)

section \<open>Properties\<close>

text \<open>
  C28. Events never cross connections: in every interleaving of registrations, subscriptions, publications (whose lookup and
  send may be separated by other steps), receptions and disconnections, an event reaches a connection only if that connection
  had subscribed to the session of the event, and no queue ever holds more than 256 events.
\<close>

theorem events_never_cross:
  assumes "run router_step (spawn_router, [], []) es (r, ps, ds)"
  shows "((key, e) \<in> set ds \<longrightarrow> Rt_Subscribe key (event_session_id e) \<in> set es) \<and>
    (hm_get (rt_queues r) k = Some q \<longrightarrow> length q \<le> 256)"
proof -
  let ?subs = "\<Union>e \<in> set es. subscription e"
  have inv: "router_inv ?subs (r, ps, ds)"
    using router.run_inv [OF logged_run [OF assms, of "{}"]] spawn_router_inv by simp
  have "Rt_Subscribe key s \<in> set es" if "(key, s) \<in> ?subs" for s
  proof -
    obtain x where x: "x \<in> set es" "(key, s) \<in> subscription x" using \<open>(key, s) \<in> ?subs\<close> by blast
    from x(2) have "x = Rt_Subscribe key s" by (cases x rule: subscription.cases) simp_all
    thus ?thesis using x(1) by simp
  qed
  thus ?thesis using router_invD(3,4) [OF inv] by (auto simp: EVENT_QUEUE_CAPACITY_def)
qed

theorem events_never_cross_witness:
  "\<exists>r. run router_step (spawn_router, [], [])
       [Rt_Register, Rt_Subscribe 1 ''pty-a'', Rt_Route (Router_Terminal \<lparr>oe_session_id = ''pty-a'', oe_seq = 1, oe_data = ''x''\<rparr>),
        Rt_Send 1 (Router_Terminal \<lparr>oe_session_id = ''pty-a'', oe_seq = 1, oe_data = ''x''\<rparr>), Rt_Recv 1]
       (r, [], [(1, Router_Terminal \<lparr>oe_session_id = ''pty-a'', oe_seq = 1, oe_data = ''x''\<rparr>)]) \<and>
     (\<forall>k q. hm_get (rt_queues r) k = Some q \<longrightarrow> length q \<le> 256)"
proof -
  let ?e = "Router_Terminal \<lparr>oe_session_id = ''pty-a'', oe_seq = 1, oe_data = ''x''\<rparr>"
  let ?r1 = "\<lparr>rt_next_connection = 1, rt_sessions = [], rt_connections = [(1, ())], rt_queues = [(1, [])]\<rparr>"
  let ?r2 = "?r1\<lparr>rt_sessions := [(''pty-a'', 1)]\<rparr>"
  let ?r3 = "?r2\<lparr>rt_queues := [(1, [?e])]\<rparr>"
  have s1: "router_step (spawn_router, [], []) Rt_Register (?r1, [], [])"
    by (rule router_step.join [where key = 1]) (simp add: register_connection_def spawn_router_def hm_insert_def)
  have "?r2 = subscribe 1 ''pty-a'' ?r1" by (simp add: subscribe_def hm_insert_def)
  hence s2: "router_step (?r1, [], []) (Rt_Subscribe 1 ''pty-a'') (?r2, [], [])"
    using router_step.sub [of 1 ?r1 "[]" "[]" "''pty-a''"] by simp
  have s3: "router_step (?r2, [], []) (Rt_Route ?e) (?r2, [(1, ?e)], [])"
    using router_step.routed [of ?e ?r2 1 "[]" "[]"] by (simp add: route_def hm_get_def hm_contains_key_def)
  have "?r3 = try_send 1 ?e ?r2" by (simp add: try_send_def hm_get_def hm_insert_def EVENT_QUEUE_CAPACITY_def)
  hence s4: "router_step (?r2, [(1, ?e)], []) (Rt_Send 1 ?e) (?r3, [], [])"
    using router_step.sent [of 1 ?e "[(1, ?e)]" ?r2 "[]"] by simp
  have s5: "router_step (?r3, [], []) (Rt_Recv 1) (?r2, [], [(1, ?e)])"
    using router_step.received [of 1 ?r3 ?e ?r2 "[]" "[]"] by (simp add: recv_event_def hm_get_def hm_insert_def)
  note cons = run_cons [where step = router_step]
  have run: "run router_step (spawn_router, [], [])
      [Rt_Register, Rt_Subscribe 1 ''pty-a'', Rt_Route ?e, Rt_Send 1 ?e, Rt_Recv 1] (?r2, [], [(1, ?e)])"
    by (rule cons [OF s1 cons [OF s2 cons [OF s3 cons [OF s4 cons [OF s5 run_nil]]]]])
  show ?thesis using events_never_cross [OF run] run by blast
qed

end
