(* ===== verification/Browser_Session.thy ===== *)
theory Browser_Session
  imports Credentials Envelope "HOL-Library.List_Lexorder"
begin

text \<open>
  The browser provider (\<open>crates/browser-provider\<close>): the navigation policy for URLs and the session registry with its state
  machine. Each reading of the clock is an argument. A poisoned lock is outside the model: no operation panics under a lock.
\<close>

section \<open>Navigation policy\<close>

definition MAX_URL_LEN :: nat where
  "MAX_URL_LEN = 2048"

datatype UrlError = Url_Empty | UnsupportedScheme | UserinfoNotAllowed | Url_TooLong

text \<open>The first occurrence of a substring (\<open>str::find\<close>): what is before and what is behind it.\<close>

fun split_sub :: "string \<Rightarrow> string \<Rightarrow> (string \<times> string) option" where
  "split_sub p [] = (if p = [] then Some ([], []) else None)"
| "split_sub p (c # s) =
     (case strip_prefix p (c # s) of
        Some r \<Rightarrow> Some ([], r)
      | None \<Rightarrow> map_option (\<lambda>(a, b). (c # a, b)) (split_sub p s))"

definition strip_http_scheme :: "string \<Rightarrow> string option" where
  "strip_http_scheme url =
     (case split_sub ''://'' url of
        None \<Rightarrow> None
      | Some (scheme, rest) \<Rightarrow>
          if eq_ignore_ascii_case scheme ''http'' \<or> eq_ignore_ascii_case scheme ''https'' then Some rest else None)"

definition authority_end :: "char \<Rightarrow> bool" where
  "authority_end c = (c = CHR ''/'' \<or> c = CHR ''?'' \<or> c = CHR ''#'')"

definition authority_has_userinfo :: "string \<Rightarrow> bool" where
  "authority_has_userinfo rest = (CHR ''@'' \<in> set (takeWhile (\<lambda>c. \<not> authority_end c) rest))"

definition validate_url :: "string \<Rightarrow> (string, UrlError) result" where
  "validate_url url =
     (if url = [] then Err Url_Empty
      else if MAX_URL_LEN < chars_count url then Err Url_TooLong
      else case strip_http_scheme url of
        None \<Rightarrow> Err UnsupportedScheme
      | Some rest \<Rightarrow> if authority_has_userinfo rest then Err UserinfoNotAllowed else Ok url)"

section \<open>Sessions\<close>

datatype BrowserState = Brw_Created | Brw_Loading | Brw_Ready | Brw_Closed | Brw_Error

fun browser_state_str :: "BrowserState \<Rightarrow> string" where
  "browser_state_str Brw_Created = ''created''"
| "browser_state_str Brw_Loading = ''loading''"
| "browser_state_str Brw_Ready = ''ready''"
| "browser_state_str Brw_Closed = ''closed''"
| "browser_state_str Brw_Error = ''error''"

record BrowserSession =
  rp_session_id :: string
  rp_state :: BrowserState
  rp_current_url :: "string option"
  rp_created_at :: nat
  rp_last_activity :: "nat option"
  rp_error :: "string option"

datatype BrowserError = Brw_NotFound | Brw_InvalidUrl UrlError | Brw_SessionClosed | Brw_Other

datatype BrowserEventKind = NavigationChanged | LoadFailed | SessionClosed | TitleChanged

record BrowserEvent =
  be_session_id :: string
  be_kind :: BrowserEventKind
  be_occurred_at :: nat
  be_url :: "string option"
  be_title :: "string option"

text \<open>The registry entry: the public report plus the page text and the title.\<close>

record BrowserEntry = BrowserSession +
  rp_snapshot :: "string option"
  rp_title :: "string option"

record SessionRegistry =
  sr_next_seq :: nat
  sr_sessions :: "(string, BrowserEntry) hashmap"
  sr_events :: "BrowserEvent list"

definition new_registry :: SessionRegistry where
  "new_registry = \<lparr>sr_next_seq = 1, sr_sessions = [], sr_events = []\<rparr>"

definition MAX_ERROR_LEN :: nat where
  "MAX_ERROR_LEN = 256"

definition report :: "BrowserEntry \<Rightarrow> BrowserSession" where
  "report s = BrowserSession.truncate s"

definition touch :: "nat \<Rightarrow> BrowserEntry \<Rightarrow> BrowserEntry" where
  "touch now s = s\<lparr>rp_last_activity := Some now\<rparr>"

definition browser_id :: "nat \<Rightarrow> nat \<Rightarrow> string" where
  "browser_id now n = ''brw-'' @ show_nat now @ ''-'' @ show_nat n"

section \<open>Operations\<close>

definition browser_create :: "nat \<Rightarrow> SessionRegistry \<Rightarrow> (BrowserSession, BrowserError) result \<times> SessionRegistry" where
  "browser_create now r =
     (let i = browser_id now (sr_next_seq r);
          s = \<lparr>rp_session_id = i, rp_state = Brw_Created, rp_current_url = None, rp_created_at = now, rp_last_activity = None,
               rp_error = None, rp_snapshot = None, rp_title = None\<rparr>
      in (Ok (report s), r\<lparr>sr_next_seq := sr_next_seq r + 1, sr_sessions := hm_insert i s (sr_sessions r)\<rparr>))"

definition browser_attach ::
  "string \<Rightarrow> BrowserState \<Rightarrow> string option \<Rightarrow> nat \<Rightarrow> nat option \<Rightarrow> string option \<Rightarrow> SessionRegistry \<Rightarrow>
   (BrowserSession, BrowserError) result \<times> SessionRegistry" where
  "browser_attach i state url created activity error r =
     (if \<not> starts_with ''brw-'' i \<or> 64 < length i \<or> \<not> list_all (\<lambda>c. is_ascii_lowercase c \<or> is_ascii_digit c \<or> c = CHR ''-'') i then
        (Err Brw_Other, r)
      else if hm_contains_key (sr_sessions r) i then (Err Brw_Other, r)
      else
        let s = \<lparr>rp_session_id = i, rp_state = state, rp_current_url = url, rp_created_at = created, rp_last_activity = activity,
              rp_error = error, rp_snapshot = None, rp_title = None\<rparr>
        in (Ok (report s), r\<lparr>sr_sessions := hm_insert i s (sr_sessions r)\<rparr>))"

definition live_session :: "string \<Rightarrow> SessionRegistry \<Rightarrow> (BrowserEntry, BrowserError) result" where
  "live_session i r =
     (case hm_get (sr_sessions r) i of
        None \<Rightarrow> Err Brw_NotFound
      | Some s \<Rightarrow> if rp_state s = Brw_Closed then Err Brw_SessionClosed else Ok s)"

definition push_event :: "BrowserEvent \<Rightarrow> SessionRegistry \<Rightarrow> SessionRegistry" where
  "push_event e r = r\<lparr>sr_events := sr_events r @ [e]\<rparr>"

text \<open>Update a live session in place and return it.\<close>

definition on_live ::
  "string \<Rightarrow> (BrowserEntry \<Rightarrow> BrowserEntry) \<Rightarrow> SessionRegistry \<Rightarrow> (BrowserEntry, BrowserError) result \<times> SessionRegistry" where
  "on_live i f r =
     (case live_session i r of
        Err e \<Rightarrow> (Err e, r)
      | Ok s \<Rightarrow> (Ok (f s), r\<lparr>sr_sessions := hm_insert i (f s) (sr_sessions r)\<rparr>))"

definition go_to :: "BrowserState \<Rightarrow> nat \<Rightarrow> nat \<Rightarrow> string \<Rightarrow> string \<Rightarrow> SessionRegistry \<Rightarrow>
    (BrowserSession, BrowserError) result \<times> SessionRegistry" where
  "go_to state now later i url r =
     (case validate_url url of
        Err e \<Rightarrow> (Err (Brw_InvalidUrl e), r)
      | Ok u \<Rightarrow>
          (case on_live i (\<lambda>s. touch now (s\<lparr>rp_state := state, rp_current_url := Some u, rp_error := None, rp_snapshot := None\<rparr>)) r of
             (Err e, r1) \<Rightarrow> (Err e, r1)
           | (Ok s, r1) \<Rightarrow>
               (Ok (report s), push_event \<lparr>be_session_id = i, be_kind = NavigationChanged, be_occurred_at = later,
                 be_url = Some u, be_title = None\<rparr> r1)))"

definition browser_navigate :: "nat \<Rightarrow> nat \<Rightarrow> string \<Rightarrow> string \<Rightarrow> SessionRegistry \<Rightarrow>
    (BrowserSession, BrowserError) result \<times> SessionRegistry" where
  "browser_navigate = go_to Brw_Loading"

definition record_navigation :: "nat \<Rightarrow> nat \<Rightarrow> string \<Rightarrow> string \<Rightarrow> SessionRegistry \<Rightarrow>
    (BrowserSession, BrowserError) result \<times> SessionRegistry" where
  "record_navigation = go_to Brw_Ready"

definition mark_ready :: "nat \<Rightarrow> string \<Rightarrow> SessionRegistry \<Rightarrow> (BrowserSession, BrowserError) result \<times> SessionRegistry" where
  "mark_ready now i r =
     (case on_live i (\<lambda>s. if rp_state s = Brw_Loading \<or> rp_state s = Brw_Error
                          then touch now (s\<lparr>rp_state := Brw_Ready, rp_error := None\<rparr>) else s) r of
        (Err e, r1) \<Rightarrow> (Err e, r1)
      | (Ok s, r1) \<Rightarrow> (Ok (report s), r1))"

definition set_title :: "nat \<Rightarrow> nat \<Rightarrow> string \<Rightarrow> string \<Rightarrow> SessionRegistry \<Rightarrow>
    (BrowserSession, BrowserError) result \<times> SessionRegistry" where
  "set_title now later i title r =
     (case on_live i (\<lambda>s. if rp_title s \<noteq> Some title then touch now (s\<lparr>rp_title := Some title\<rparr>) else s) r of
        (Err e, r1) \<Rightarrow> (Err e, r1)
      | (Ok s, r1) \<Rightarrow>
          (Ok (report s), push_event \<lparr>be_session_id = i, be_kind = TitleChanged, be_occurred_at = later, be_url = None,
            be_title = Some title\<rparr> r1))"

definition browser_get :: "string \<Rightarrow> SessionRegistry \<Rightarrow> (BrowserSession, BrowserError) result" where
  "browser_get i r = (case hm_get (sr_sessions r) i of None \<Rightarrow> Err Brw_NotFound | Some s \<Rightarrow> Ok (report s))"

definition mark_load_failed :: "nat \<Rightarrow> nat \<Rightarrow> string \<Rightarrow> string \<Rightarrow> SessionRegistry \<Rightarrow>
    (BrowserSession, BrowserError) result \<times> SessionRegistry" where
  "mark_load_failed now later i message r =
     (case on_live i (\<lambda>s. touch now (s\<lparr>rp_state := Brw_Error, rp_error := Some (chars_take MAX_ERROR_LEN message)\<rparr>)) r of
        (Err e, r1) \<Rightarrow> (Err e, r1)
      | (Ok s, r1) \<Rightarrow>
          let r2 = push_event \<lparr>be_session_id = i, be_kind = LoadFailed, be_occurred_at = later, be_url = rp_current_url s,
                be_title = None\<rparr> r1
          in (browser_get i r2, r2))"

definition set_snapshot :: "nat \<Rightarrow> string \<Rightarrow> string \<Rightarrow> SessionRegistry \<Rightarrow>
    (BrowserSession, BrowserError) result \<times> SessionRegistry" where
  "set_snapshot now i text r =
     (case on_live i (\<lambda>s. touch now (s\<lparr>rp_snapshot := Some text\<rparr>)) r of
        (Err e, r1) \<Rightarrow> (Err e, r1)
      | (Ok s, r1) \<Rightarrow> (Ok (report s), r1))"

definition snapshot_text :: "string \<Rightarrow> SessionRegistry \<Rightarrow> (string, BrowserError) result" where
  "snapshot_text i r =
     (case live_session i r of Err e \<Rightarrow> Err e | Ok s \<Rightarrow> Ok (case rp_snapshot s of None \<Rightarrow> [] | Some t \<Rightarrow> t))"

definition browser_close :: "nat \<Rightarrow> nat \<Rightarrow> string \<Rightarrow> SessionRegistry \<Rightarrow>
    (BrowserSession, BrowserError) result \<times> SessionRegistry" where
  "browser_close now later i r =
     (case on_live i (\<lambda>s. touch now (s\<lparr>rp_state := Brw_Closed\<rparr>)) r of
        (Err e, r1) \<Rightarrow> (Err e, r1)
      | (Ok s, r1) \<Rightarrow>
          (Ok (report s), push_event \<lparr>be_session_id = i, be_kind = SessionClosed, be_occurred_at = later, be_url = None,
            be_title = None\<rparr> r1))"

text \<open>Reports are listed in the order of their ids.\<close>

definition browser_list :: "SessionRegistry \<Rightarrow> BrowserSession list" where
  "browser_list r = sort_key (\<lambda>s. map byte_of (rp_session_id s)) (map report (hm_values (sr_sessions r)))"

definition drain_events :: "SessionRegistry \<Rightarrow> BrowserEvent list \<times> SessionRegistry" where
  "drain_events r = (sr_events r, r\<lparr>sr_events := []\<rparr>)"

section \<open>Specification\<close>

text \<open>The URLs the policy admits: http or https, and an authority without userinfo.\<close>

definition http_scheme :: "string \<Rightarrow> bool" where
  "http_scheme s = (map to_ascii_lower s \<in> {''http'', ''https''})"

definition http_url :: "string \<Rightarrow> bool" where
  "http_url url = (\<exists>scheme authority tail. url = scheme @ ''://'' @ authority @ tail \<and>
     http_scheme scheme \<and> (\<forall>c \<in> set authority. \<not> authority_end c \<and> c \<noteq> CHR ''@'') \<and>
     (tail = [] \<or> authority_end (hd tail)))"

text \<open>The operations on a registry that creates its own sessions.\<close>

datatype registry_op =
    R_Create nat
  | R_Navigate nat nat string string
  | R_Record nat nat string string
  | R_Ready nat string
  | R_Title nat nat string string
  | R_Failed nat nat string string
  | R_Snapshot nat string string
  | R_Close nat nat string
  | R_Drain

fun registry_exec :: "registry_op \<Rightarrow> SessionRegistry \<Rightarrow> SessionRegistry" where
  "registry_exec (R_Create now) r = snd (browser_create now r)"
| "registry_exec (R_Navigate now later i url) r = snd (browser_navigate now later i url r)"
| "registry_exec (R_Record now later i url) r = snd (record_navigation now later i url r)"
| "registry_exec (R_Ready now i) r = snd (mark_ready now i r)"
| "registry_exec (R_Title now later i title) r = snd (set_title now later i title r)"
| "registry_exec (R_Failed now later i message) r = snd (mark_load_failed now later i message r)"
| "registry_exec (R_Snapshot now i text) r = snd (set_snapshot now i text r)"
| "registry_exec (R_Close now later i) r = snd (browser_close now later i r)"
| "registry_exec R_Drain r = snd (drain_events r)"

definition registry_step :: "SessionRegistry \<Rightarrow> registry_op \<Rightarrow> SessionRegistry \<Rightarrow> bool" where
  "registry_step r e r' = (r' = registry_exec e r)"

text \<open>What holds of a session, and how it may change.\<close>

definition session_sound :: "string \<Rightarrow> BrowserEntry \<Rightarrow> bool" where
  "session_sound i s = (rp_session_id s = i \<and>
     (\<forall>u. rp_current_url s = Some u \<longrightarrow> http_url u \<and> chars_count u \<le> 2048) \<and>
     (\<forall>e. rp_error s = Some e \<longrightarrow> chars_count e \<le> 256 \<and> rp_state s \<in> {Brw_Error, Brw_Closed}) \<and>
     (rp_state s = Brw_Error \<longrightarrow> rp_error s \<noteq> None) \<and> (rp_state s = Brw_Loading \<longrightarrow> rp_current_url s \<noteq> None) \<and>
     (rp_state s = Brw_Created \<longrightarrow> rp_current_url s = None))"

definition session_follows :: "BrowserEntry \<Rightarrow> BrowserEntry \<Rightarrow> bool" where
  "session_follows s s' = (rp_created_at s' = rp_created_at s \<and> (rp_state s = Brw_Closed \<longrightarrow> s' = s) \<and>
     (rp_state s' = Brw_Created \<longrightarrow> rp_state s = Brw_Created))"

definition registry_inv :: "SessionRegistry \<Rightarrow> bool" where
  "registry_inv r = (hm_wf (sr_sessions r) \<and>
     (\<forall>i s. hm_get (sr_sessions r) i = Some s \<longrightarrow> session_sound i s \<and> (\<exists>t n. i = browser_id t n \<and> n < sr_next_seq r)))"

section \<open>Lemmas\<close>

subsection \<open>The policy\<close>

lemma split_sub_append:
  assumes "c \<notin> set a"
  shows "split_sub (c # q) (a @ (c # q) @ b) = Some (a, b)"
proof (use assms in \<open>induction a\<close>)
  case Nil
  show ?case by (simp add: strip_prefix_def)
next
  case (Cons x a)
  have "strip_prefix (c # q) (x # a @ (c # q) @ b) = None" using Cons.prems by (auto simp: strip_prefix_def)
  thus ?case using Cons by simp
qed

lemma split_sub_Some: "split_sub p s = Some (a, b) \<Longrightarrow> s = a @ p @ b"
proof (induction s arbitrary: a)
  case (Cons c s)
  show ?case
  proof (cases "strip_prefix p (c # s)")
    case None
    then obtain a' where "split_sub p s = Some (a', b)" "a = c # a'" using Cons.prems by auto
    thus ?thesis using Cons.IH by simp
  next
    case (Some r)
    hence "a = []" "b = r" using Cons.prems by simp_all
    thus ?thesis using Some by (simp add: strip_prefix_Some)
  qed
qed (auto split: if_splits)

lemma lower_colon: "map to_ascii_lower s = w \<Longrightarrow> CHR '':'' \<notin> set w \<Longrightarrow> CHR '':'' \<notin> set s"
proof
  assume "map to_ascii_lower s = w" "CHR '':'' \<notin> set w" "CHR '':'' \<in> set s"
  moreover have "to_ascii_lower CHR '':'' = CHR '':''" by (simp add: to_ascii_lower_def is_ascii_uppercase_def byte_of_def)
  ultimately show False by (metis image_eqI set_map)
qed

lemma eq_http: "eq_ignore_ascii_case s ''http'' \<or> eq_ignore_ascii_case s ''https'' \<longleftrightarrow> http_scheme s"
proof -
  have "map to_ascii_lower ''http'' = ''http''" "map to_ascii_lower ''https'' = ''https''"
    by (simp_all add: to_ascii_lower_def is_ascii_uppercase_def byte_of_def)
  thus ?thesis by (simp only: eq_ignore_ascii_case_def http_scheme_def insert_iff empty_iff simp_thms)
qed

lemma http_scheme_colon:
  assumes "http_scheme s"
  shows "CHR '':'' \<notin> set s"
proof -
  have "CHR '':'' \<notin> set ''http''" "CHR '':'' \<notin> set ''https''" by simp_all
  moreover have "map to_ascii_lower s = ''http'' \<or> map to_ascii_lower s = ''https''"
    using assms by (simp only: http_scheme_def insert_iff empty_iff simp_thms)
  ultimately show ?thesis using lower_colon by metis
qed

lemma strip_http_scheme_Some:
  "strip_http_scheme url = Some rest \<longleftrightarrow> (\<exists>scheme. url = scheme @ ''://'' @ rest \<and> http_scheme scheme)"
proof
  assume a: "strip_http_scheme url = Some rest"
  then obtain scheme rest' where s: "split_sub ''://'' url = Some (scheme, rest')"
    by (cases "split_sub ''://'' url") (auto simp: strip_http_scheme_def)
  hence "rest' = rest" "http_scheme scheme"
    using a unfolding strip_http_scheme_def eq_http by (simp_all split: if_splits)
  hence "split_sub ''://'' url = Some (scheme, rest)" "http_scheme scheme" using s by simp_all
  thus "\<exists>scheme. url = scheme @ ''://'' @ rest \<and> http_scheme scheme"
    using split_sub_Some by blast
next
  assume "\<exists>scheme. url = scheme @ ''://'' @ rest \<and> http_scheme scheme"
  then obtain scheme where s: "url = scheme @ ''://'' @ rest" "http_scheme scheme" by blast
  have "CHR '':'' \<notin> set scheme" using http_scheme_colon [OF s(2)] .
  hence "split_sub ''://'' url = Some (scheme, rest)" unfolding s(1) by (rule split_sub_append)
  thus "strip_http_scheme url = Some rest" using s(2) unfolding strip_http_scheme_def eq_http by simp
qed

lemma userinfo_iff:
  "\<not> authority_has_userinfo rest \<longleftrightarrow> (\<exists>authority tail. rest = authority @ tail \<and>
     (\<forall>c \<in> set authority. \<not> authority_end c \<and> c \<noteq> CHR ''@'') \<and> (tail = [] \<or> authority_end (hd tail)))"
proof
  let ?P = "\<lambda>c. \<not> authority_end c"
  assume no: "\<not> authority_has_userinfo rest"
  have "rest = takeWhile ?P rest @ dropWhile ?P rest" by simp
  moreover have "\<forall>c \<in> set (takeWhile ?P rest). \<not> authority_end c \<and> c \<noteq> CHR ''@''"
    using no by (auto simp: authority_has_userinfo_def dest: set_takeWhileD)
  moreover have "dropWhile ?P rest = [] \<or> authority_end (hd (dropWhile ?P rest))" using hd_dropWhile [of ?P rest] by auto
  ultimately show "\<exists>authority tail. rest = authority @ tail \<and>
     (\<forall>c \<in> set authority. \<not> authority_end c \<and> c \<noteq> CHR ''@'') \<and> (tail = [] \<or> authority_end (hd tail))" by blast
next
  assume "\<exists>authority tail. rest = authority @ tail \<and>
     (\<forall>c \<in> set authority. \<not> authority_end c \<and> c \<noteq> CHR ''@'') \<and> (tail = [] \<or> authority_end (hd tail))"
  then obtain authority tail where a: "rest = authority @ tail" "\<forall>c \<in> set authority. \<not> authority_end c \<and> c \<noteq> CHR ''@''"
    "tail = [] \<or> authority_end (hd tail)" by blast
  hence "takeWhile (\<lambda>c. \<not> authority_end c) tail = []" by (cases tail) auto
  hence "takeWhile (\<lambda>c. \<not> authority_end c) rest = authority" using a(1,2) by (simp add: takeWhile_append)
  thus "\<not> authority_has_userinfo rest" using a(2) by (auto simp: authority_has_userinfo_def)
qed

lemma validate_url_Ok: "validate_url url = Ok u \<longleftrightarrow> u = url \<and> http_url url \<and> chars_count url \<le> 2048"
proof -
  have "http_url url \<longleftrightarrow> (\<exists>rest. strip_http_scheme url = Some rest \<and> \<not> authority_has_userinfo rest)"
    unfolding strip_http_scheme_Some userinfo_iff http_url_def by (intro iffI; clarify; blast)
  moreover have "http_url url \<Longrightarrow> url \<noteq> []" by (auto simp: http_url_def)
  ultimately show ?thesis by (auto simp: validate_url_def MAX_URL_LEN_def split: option.splits if_splits)
qed

subsection \<open>Identifiers\<close>

definition dec_number :: "string \<Rightarrow> nat" where
  "dec_number s = foldl (\<lambda>v c. v * 10 + hex_val c) 0 s"

lemma show_nat_read: "dec_number (show_nat n) = n \<and> CHR ''-'' \<notin> set (show_nat n)"
  unfolding show_nat_def
proof (induction n rule: less_induct)
  case (less n)
  show ?case
  proof (cases "n < 10")
    case True
    thus ?thesis using digit_char_no_dash [of n] by (simp add: show_base.simps [of 10 n] dec_number_def hex_val_digit)
  next
    case False
    hence "dec_number (show_base 10 (n div 10)) = n div 10" "CHR ''-'' \<notin> set (show_base 10 (n div 10))"
      using less.IH [of "n div 10"] by simp_all
    moreover have m: "n mod 10 < 16" by (rule order.strict_trans [of _ 10]) simp_all
    ultimately show ?thesis
      using False digit_char_no_dash [OF m, THEN not_sym] by (simp add: show_base.simps [of 10 n] dec_number_def hex_val_digit [OF m])
  qed
qed

lemma browser_id_seq:
  assumes "browser_id t n = browser_id t' n'"
  shows "n = n'"
proof -
  have "rsplit_once CHR ''-'' (browser_id t n) = Some (''brw-'' @ show_nat t, show_nat n)" for t n
    using show_nat_read [of n] by (simp add: rsplit_once_Some browser_id_def)
  hence "show_nat n = show_nat n'" using assms by (metis option.inject prod.inject)
  thus ?thesis using show_nat_read by metis
qed

subsection \<open>The registry\<close>

lemma on_live_cases:
  obtains (refused) e where "on_live i f r = (Err e, r)"
  | (live) s where "hm_get (sr_sessions r) i = Some s" "rp_state s \<noteq> Brw_Closed"
      "on_live i f r = (Ok (f s), r\<lparr>sr_sessions := hm_insert i (f s) (sr_sessions r)\<rparr>)"
proof (cases "hm_get (sr_sessions r) i")
  case (Some s)
  show ?thesis
  proof (cases "rp_state s = Brw_Closed")
    case True
    thus ?thesis using Some refused by (simp add: on_live_def live_session_def)
  next
    case False
    thus ?thesis using Some live by (simp add: on_live_def live_session_def)
  qed
qed (use refused in \<open>simp add: on_live_def live_session_def\<close>)

text \<open>How one operation changes the table: not at all, by a new session, or by an update of a live one.\<close>

definition updates :: "SessionRegistry \<Rightarrow> SessionRegistry \<Rightarrow> bool" where
  "updates r r' = (sr_next_seq r' = sr_next_seq r \<and> (sr_sessions r' = sr_sessions r \<or>
     (\<exists>i s s'. hm_get (sr_sessions r) i = Some s \<and> rp_state s \<noteq> Brw_Closed \<and> sr_sessions r' = hm_insert i s' (sr_sessions r) \<and>
        (session_sound i s \<longrightarrow> session_sound i s') \<and> session_follows s s')))"

lemma updates_same: "sr_next_seq r' = sr_next_seq r \<Longrightarrow> sr_sessions r' = sr_sessions r \<Longrightarrow> updates r r'"
  by (simp add: updates_def)

lemma updates_live:
  assumes "\<And>s. rp_state s \<noteq> Brw_Closed \<Longrightarrow> session_sound i s \<Longrightarrow> session_sound i (f s)"
    and "\<And>s. rp_state s \<noteq> Brw_Closed \<Longrightarrow> session_follows s (f s)"
    and "on_live i f r = (q, r1)" and "sr_next_seq r' = sr_next_seq r1" and "sr_sessions r' = sr_sessions r1"
  shows "updates r r'"
  using on_live_cases [of i f r]
proof cases
  case (refused e)
  thus ?thesis using assms(3-5) by (simp add: updates_same)
next
  case (live s)
  hence r1: "r1 = r\<lparr>sr_sessions := hm_insert i (f s) (sr_sessions r)\<rparr>" using assms(3) by simp
  show ?thesis
    unfolding updates_def
    using assms(4,5) live(1,2) assms(1,2) [OF live(2)] r1
    by (intro conjI disjI2 exI [of _ i] exI [of _ s] exI [of _ "f s"]) simp_all
qed

lemma go_to_updates:
  assumes "state \<in> {Brw_Loading, Brw_Ready}"
  shows "updates r (snd (go_to state now later i url r))"
proof (cases "validate_url url")
  case (Ok u)
  let ?f = "\<lambda>s. touch now (s\<lparr>rp_state := state, rp_current_url := Some u, rp_error := None, rp_snapshot := None\<rparr>)"
  obtain q r1 where o: "on_live i ?f r = (q, r1)" by fastforce
  have u: "http_url u" "chars_count u \<le> 2048" using Ok by (auto simp: validate_url_Ok)
  show ?thesis
    by (rule updates_live [OF _ _ o])
      (use assms u Ok o in \<open>auto simp: session_sound_def session_follows_def touch_def go_to_def push_event_def split: result.splits\<close>)
qed (simp add: go_to_def updates_same)

lemma plain_updates:
  assumes "\<And>s. rp_state s \<noteq> Brw_Closed \<Longrightarrow> session_sound i s \<Longrightarrow> session_sound i (f s)"
    and "\<And>s. rp_state s \<noteq> Brw_Closed \<Longrightarrow> session_follows s (f s)"
    and "\<And>s r1. sr_next_seq (k s r1) = sr_next_seq r1" and "\<And>s r1. sr_sessions (k s r1) = sr_sessions r1"
  shows "updates r (case on_live i f r of (Err e, r1) \<Rightarrow> r1 | (Ok s, r1) \<Rightarrow> k s r1)"
proof -
  obtain q r1 where o: "on_live i f r = (q, r1)" by fastforce
  show ?thesis
    by (rule updates_live [where f = f, OF assms(1,2) o]) (simp_all add: o assms(3,4) split: result.split)
qed

lemma snd_case_live:
  "snd (case x of (Err e, r1) \<Rightarrow> (Err e, r1) | (Ok s, r1) \<Rightarrow> (g s r1, k s r1)) = (case x of (Err e, r1) \<Rightarrow> r1 | (Ok s, r1) \<Rightarrow> k s r1)"
  by (cases x; cases "fst x") auto

lemma registry_exec_updates:
  assumes "\<forall>now. e \<noteq> R_Create now"
  shows "updates r (registry_exec e r)"
proof (cases e)
  case (R_Navigate now later i url)
  thus ?thesis by (simp add: browser_navigate_def go_to_updates)
next
  case (R_Record now later i url)
  thus ?thesis by (simp add: record_navigation_def go_to_updates)
next
  case (R_Ready now i)
  show ?thesis unfolding R_Ready registry_exec.simps mark_ready_def snd_case_live
    by (rule plain_updates) (auto simp: session_sound_def session_follows_def touch_def)
next
  case (R_Title now later i title)
  show ?thesis unfolding R_Title registry_exec.simps set_title_def snd_case_live
    by (rule plain_updates) (auto simp: session_sound_def session_follows_def touch_def push_event_def)
next
  case (R_Failed now later i message)
  show ?thesis unfolding R_Failed registry_exec.simps mark_load_failed_def snd_case_live Let_def
    by (rule plain_updates)
      (auto simp: session_sound_def session_follows_def touch_def push_event_def MAX_ERROR_LEN_def intro: chars_count_take)
next
  case (R_Snapshot now i page)
  show ?thesis unfolding R_Snapshot registry_exec.simps set_snapshot_def snd_case_live
    by (rule plain_updates) (auto simp: session_sound_def session_follows_def touch_def)
next
  case (R_Close now later i)
  show ?thesis unfolding R_Close registry_exec.simps browser_close_def snd_case_live
    by (rule plain_updates) (auto simp: session_sound_def session_follows_def touch_def push_event_def)
next
  case R_Drain
  thus ?thesis by (simp add: drain_events_def updates_same)
qed (use assms in simp)

lemma registry_invD:
  assumes "registry_inv r" "hm_get (sr_sessions r) i = Some s"
  shows "session_sound i s" "\<exists>t n. i = browser_id t n \<and> n < sr_next_seq r"
  using assms unfolding registry_inv_def by blast+

lemma registry_inv_insert:
  assumes "registry_inv r" and "session_sound i s" and "\<exists>t m. i = browser_id t m \<and> m < n" and "sr_next_seq r \<le> n"
    and "sr_sessions r' = hm_insert i s (sr_sessions r)" and "sr_next_seq r' = n"
  shows "registry_inv r'"
proof -
  have "session_sound j v \<and> (\<exists>t m. j = browser_id t m \<and> m < n)" if g: "hm_get (hm_insert i s (sr_sessions r)) j = Some v" for j v
  proof (cases "j = i")
    case False
    hence h: "hm_get (sr_sessions r) j = Some v" using g by (simp add: hm_get_insert)
    obtain t m where "j = browser_id t m" "m < sr_next_seq r" using registry_invD(2) [OF assms(1) h] by blast
    hence "j = browser_id t m" "m < n" using assms(4) by simp_all
    thus ?thesis using registry_invD(1) [OF assms(1) h] by blast
  qed (use g assms(2,3) in \<open>simp add: hm_get_insert\<close>)
  moreover have "hm_wf (hm_insert i s (sr_sessions r))" using assms(1) by (simp add: registry_inv_def hm_wf_insert)
  ultimately show ?thesis unfolding registry_inv_def assms(5,6) by blast
qed

lemma updates_inv:
  assumes "updates r r'" and "registry_inv r"
  shows "registry_inv r'"
proof (cases "sr_sessions r' = sr_sessions r")
  case True
  thus ?thesis using assms by (simp add: updates_def registry_inv_def)
next
  case False
  then obtain i s s' where u: "hm_get (sr_sessions r) i = Some s" "sr_sessions r' = hm_insert i s' (sr_sessions r)"
      "session_sound i s \<longrightarrow> session_sound i s'" "sr_next_seq r' = sr_next_seq r"
    using assms(1) unfolding updates_def by blast
  note d = registry_invD [OF assms(2) u(1)]
  show ?thesis using registry_inv_insert [OF assms(2) _ d(2) order_refl u(2,4)] u(3) d(1) by blast
qed

lemma create_inv:
  assumes "registry_inv r"
  shows "registry_inv (snd (browser_create now r))"
  by (rule registry_inv_insert [OF assms, where n = "sr_next_seq r + 1"])
    (auto simp: browser_create_def Let_def session_sound_def)

lemma registry_exec_inv:
  assumes "registry_inv r"
  shows "registry_inv (registry_exec e r)"
proof (cases "\<exists>now. e = R_Create now")
  case True
  thus ?thesis using create_inv [OF assms] by auto
next
  case False
  thus ?thesis using updates_inv [OF registry_exec_updates assms] by blast
qed

lemma create_fresh:
  assumes "registry_inv r"
  shows "hm_get (sr_sessions r) (browser_id now (sr_next_seq r)) = None"
proof (cases "hm_get (sr_sessions r) (browser_id now (sr_next_seq r))")
  case (Some s)
  obtain t n where b: "browser_id now (sr_next_seq r) = browser_id t n" "n < sr_next_seq r"
    using registry_invD(2) [OF assms Some] by (elim exE conjE)
  show ?thesis using browser_id_seq [OF b(1)] b(2) by simp
qed

lemma session_follows_refl: "session_follows s s"
  by (simp add: session_follows_def)

lemma session_follows_trans:
  assumes "session_follows s t" "session_follows t u"
  shows "session_follows s u"
proof -
  note s = assms(1) [unfolded session_follows_def] and t = assms(2) [unfolded session_follows_def]
  have "u = s" if c: "rp_state s = Brw_Closed"
  proof -
    have "t = s" using s c by blast
    thus ?thesis using t c by blast
  qed
  thus ?thesis unfolding session_follows_def using s t by (metis (no_types))
qed

definition tracked :: "string \<Rightarrow> BrowserEntry \<Rightarrow> SessionRegistry \<Rightarrow> bool" where
  "tracked i s r = (registry_inv r \<and> (\<exists>s'. hm_get (sr_sessions r) i = Some s' \<and> session_follows s s'))"

lemma tracked_exec:
  assumes "tracked i s r"
  shows "tracked i s (registry_exec e r)"
proof -
  obtain s' where s': "hm_get (sr_sessions r) i = Some s'" "session_follows s s'" and inv: "registry_inv r"
    using assms unfolding tracked_def by (elim conjE exE)
  have "\<exists>s''. hm_get (sr_sessions (registry_exec e r)) i = Some s'' \<and> session_follows s' s''"
  proof (cases "\<exists>now. e = R_Create now")
    case True
    then obtain now where e: "e = R_Create now" by blast
    have "i \<noteq> browser_id now (sr_next_seq r)" using s'(1) create_fresh [OF inv] by force
    thus ?thesis using s'(1) session_follows_refl by (simp add: e browser_create_def Let_def hm_get_insert)
  next
    case False
    hence u: "updates r (registry_exec e r)" by (intro registry_exec_updates) blast
    show ?thesis
    proof (cases "sr_sessions (registry_exec e r) = sr_sessions r")
      case same: False
      then obtain j v v' where v: "hm_get (sr_sessions r) j = Some v" "session_follows v v'"
          "sr_sessions (registry_exec e r) = hm_insert j v' (sr_sessions r)"
        using u unfolding updates_def by blast
      show ?thesis using s'(1) v by (cases "i = j") (simp_all add: hm_get_insert session_follows_refl)
    qed (use s'(1) session_follows_refl in simp)
  qed
  then obtain s'' where s'': "hm_get (sr_sessions (registry_exec e r)) i = Some s''" "session_follows s' s''" by (elim exE conjE)
  show ?thesis
    unfolding tracked_def using registry_exec_inv [OF inv] s''(1) session_follows_trans [OF s'(2) s''(2)] by (intro conjI exI)
qed

interpretation registry: preserved registry_step registry_inv
  by unfold_locales (simp add: registry_step_def registry_exec_inv)

interpretation tracked: preserved registry_step "tracked i s" for i s
  by unfold_locales (simp add: registry_step_def tracked_exec)

lemma new_registry_inv: "registry_inv new_registry"
  by (simp add: registry_inv_def new_registry_def hm_empty)

section \<open>Properties\<close>

text \<open>
  The navigation policy is exact: a URL is accepted, unchanged, if and only if it has at most 2048 characters, its
  scheme is http or https in any case, and its authority, up to the first slash, question mark or hash, has no userinfo.
\<close>

lemma navigation_policy_exact:
  "validate_url url = Ok u \<longleftrightarrow> u = url \<and> http_url url \<and> chars_count url \<le> 2048"
  by (rule validate_url_Ok)



end
