(* ===== verification/Terminal_Host.thy ===== *)
theory Terminal_Host
  imports Daemon_Server Event_Router Browser_Session
begin

text \<open>
  Terminals: the PTY registry (\<open>crates/terminal-provider/src/lib.rs\<close>) and the terminal capability of the daemon
  (\<open>crates/daemon/src/terminal.rs\<close>). What the operating system answers to a spawn, a write or a resize, the clock readings
  and the JSON codec are arguments; \<open>pt_input\<close> records what the operating system accepted for the child.
\<close>

section \<open>The PTY registry\<close>

definition MIN_COLS :: nat where
  "MIN_COLS = 20"

definition MAX_COLS :: nat where
  "MAX_COLS = 500"

definition MIN_ROWS :: nat where
  "MIN_ROWS = 5"

definition MAX_ROWS :: nat where
  "MAX_ROWS = 300"

definition MAX_WRITE_BYTES :: nat where
  "MAX_WRITE_BYTES = 8192"

datatype PtyError = InvalidShell | SpawnUnavailable | UnknownSession | InvalidGeometry | WriteTooLarge | Pty_Io | StateUnavailable

record PtyReport =
  pr_session_id :: string
  pr_state :: string
  pr_cols :: nat
  pr_rows :: nat
  pr_created_at :: nat
  pr_last_activity :: "nat option"
  pr_error :: "string option"

record PtySession =
  pt_id :: string
  pt_cols :: nat
  pt_rows :: nat
  pt_created_at :: nat
  pt_last_activity :: "nat option"
  pt_closed :: bool
  pt_error :: "string option"
  pt_input :: "string list"

record PtyRegistry =
  py_next_id :: nat
  py_sessions :: "(string, PtySession) hashmap"

definition new_pty_registry :: PtyRegistry where
  "new_pty_registry = \<lparr>py_next_id = 1, py_sessions = []\<rparr>"

text \<open>Readings and answers of the operating system during one request.\<close>

record pty_inputs =
  pi_ms :: "nat \<Rightarrow> nat"
  pi_spawn_ok :: bool
  pi_write_ok :: bool
  pi_resize_ok :: bool
  pi_default_shell :: string
  pi_gate_ms :: nat

definition pty_report :: "PtySession \<Rightarrow> PtyReport" where
  "pty_report s = \<lparr>pr_session_id = pt_id s, pr_state = (if pt_closed s then ''closed'' else ''running''), pr_cols = pt_cols s,
     pr_rows = pt_rows s, pr_created_at = pt_created_at s, pr_last_activity = pt_last_activity s, pr_error = pt_error s\<rparr>"

definition geometry_ok :: "nat \<Rightarrow> nat \<Rightarrow> bool" where
  "geometry_ok cols rows = (MIN_COLS \<le> cols \<and> cols \<le> MAX_COLS \<and> MIN_ROWS \<le> rows \<and> rows \<le> MAX_ROWS)"

definition resolve_shell :: "string \<Rightarrow> string option \<Rightarrow> (string, PtyError) result" where
  "resolve_shell default_shell shell =
     (let s = (case shell of None \<Rightarrow> ''default'' | Some s \<Rightarrow> s)
      in if s = ''default'' \<or> s = ''sh'' then Ok default_shell
         else if s = ''bash'' then Ok ''bash''
         else if s = ''zsh'' then Ok ''zsh''
         else if s = ''powershell'' \<or> s = ''pwsh'' then Ok ''pwsh''
         else Err InvalidShell)"

definition pty_create ::
  "pty_inputs \<Rightarrow> string option \<Rightarrow> nat \<Rightarrow> nat \<Rightarrow> PtyRegistry \<Rightarrow> (PtyReport, PtyError) result \<times> PtyRegistry" where
  "pty_create inp shell cols rows r =
     (if \<not> geometry_ok cols rows then (Err InvalidGeometry, r)
      else case resolve_shell (pi_default_shell inp) shell of
        Err e \<Rightarrow> (Err e, r)
      | Ok _ \<Rightarrow>
          let i = ''pty-'' @ show_nat (pi_ms inp 0) @ ''-'' @ show_nat (py_next_id r);
              r1 = r\<lparr>py_next_id := py_next_id r + 1\<rparr>
          in if \<not> pi_spawn_ok inp then (Err SpawnUnavailable, r1)
             else
               let s = \<lparr>pt_id = i, pt_cols = cols, pt_rows = rows, pt_created_at = pi_ms inp 1, pt_last_activity = None,
                     pt_closed = False, pt_error = None, pt_input = []\<rparr>
               in (Ok (pty_report s), r1\<lparr>py_sessions := hm_insert i s (py_sessions r1)\<rparr>))"

definition pty_write :: "pty_inputs \<Rightarrow> string \<Rightarrow> string \<Rightarrow> PtyRegistry \<Rightarrow> (unit, PtyError) result \<times> PtyRegistry" where
  "pty_write inp i input r =
     (if MAX_WRITE_BYTES < length input then (Err WriteTooLarge, r)
      else case hm_get (py_sessions r) i of
        None \<Rightarrow> (Err UnknownSession, r)
      | Some s \<Rightarrow>
          if pt_closed s then (Err UnknownSession, r)
          else if \<not> pi_write_ok inp then (Err Pty_Io, r)
          else (Ok (), r\<lparr>py_sessions := hm_insert i
            (s\<lparr>pt_input := pt_input s @ [input], pt_last_activity := Some (pi_ms inp 2)\<rparr>) (py_sessions r)\<rparr>))"

definition pty_resize ::
  "pty_inputs \<Rightarrow> string \<Rightarrow> nat \<Rightarrow> nat \<Rightarrow> PtyRegistry \<Rightarrow> (PtyReport, PtyError) result \<times> PtyRegistry" where
  "pty_resize inp i cols rows r =
     (if \<not> geometry_ok cols rows then (Err InvalidGeometry, r)
      else case hm_get (py_sessions r) i of
        None \<Rightarrow> (Err UnknownSession, r)
      | Some s \<Rightarrow>
          if pt_closed s then (Err UnknownSession, r)
          else if \<not> pi_resize_ok inp then (Err Pty_Io, r)
          else
            let s' = s\<lparr>pt_cols := cols, pt_rows := rows, pt_last_activity := Some (pi_ms inp 3)\<rparr>
            in (Ok (pty_report s'), r\<lparr>py_sessions := hm_insert i s' (py_sessions r)\<rparr>))"

definition pty_close :: "string \<Rightarrow> PtyRegistry \<Rightarrow> (unit, PtyError) result \<times> PtyRegistry" where
  "pty_close i r =
     (case hm_get (py_sessions r) i of
        None \<Rightarrow> (Err UnknownSession, r)
      | Some s \<Rightarrow> (Ok (), r\<lparr>py_sessions := hm_remove i (py_sessions r)\<rparr>))"

definition pty_lookup :: "string \<Rightarrow> PtyRegistry \<Rightarrow> (PtyReport, PtyError) result" where
  "pty_lookup i r = (case hm_get (py_sessions r) i of None \<Rightarrow> Err UnknownSession | Some s \<Rightarrow> Ok (pty_report s))"

definition pty_list :: "PtyRegistry \<Rightarrow> PtyReport list" where
  "pty_list r = map pty_report (hm_values (py_sessions r))"

section \<open>Requests\<close>

record TerminalAgentScope =
  ts_session_id :: "string option"
  ts_workspace :: "string option"
  ts_domains :: "string list"
  ts_resources :: "string list"

record TerminalAgentIdentity =
  ta_agent_id :: string
  ta_activation_id :: string
  ta_generation :: nat
  ta_scope :: TerminalAgentScope

record TerminalCreateRequest =
  tq_schema_version :: nat
  tq_mode :: string
  tq_cols :: nat
  tq_rows :: nat
  tq_shell :: "string option"
  tq_cwd :: "string option"
  tq_agent :: "TerminalAgentIdentity option"

record TerminalWriteRequest =
  tw_schema_version :: nat
  tw_session_id :: string
  tw_data :: string

record TerminalResizeRequest =
  tz_schema_version :: nat
  tz_session_id :: string
  tz_cols :: nat
  tz_rows :: nat

record TerminalCloseRequest =
  tx_schema_version :: nat
  tx_session_id :: string

record TerminalReport =
  tr_schema_version :: nat
  tr_session_id :: string
  tr_state :: string
  tr_mode :: string
  tr_cols :: nat
  tr_rows :: nat
  tr_created_at :: nat
  tr_last_activity :: "nat option"
  tr_error :: "string option"

record AgentSessionBinding =
  sb_agent_id :: string
  sb_activation_id :: string
  sb_generation :: nat
  sb_scope :: Scope

definition TERMINAL_SCHEMA_VERSION :: nat where
  "TERMINAL_SCHEMA_VERSION = 1"

definition valid_pty_session_id :: "string \<Rightarrow> bool" where
  "valid_pty_session_id i = (starts_with ''pty-'' i \<and> length i \<le> 64 \<and>
     list_all (\<lambda>c. is_ascii_lowercase c \<or> is_ascii_digit c \<or> c = CHR ''-'') i)"

definition valid_agent_token :: "string \<Rightarrow> bool" where
  "valid_agent_token v = (v \<noteq> [] \<and> length v \<le> 64 \<and>
     list_all (\<lambda>c. is_ascii_alphanumeric c \<or> c = CHR ''-'' \<or> c = CHR ''_'') v)"

definition valid_string_list :: "string list \<Rightarrow> bool" where
  "valid_string_list items = (length items \<le> 16 \<and> list_all (\<lambda>i. i \<noteq> [] \<and> length i \<le> 128) items \<and> distinct items)"

definition agent_scope_valid :: "TerminalAgentScope \<Rightarrow> bool" where
  "agent_scope_valid s =
     ((ts_session_id s \<noteq> None \<or> ts_workspace s \<noteq> None \<or> ts_domains s \<noteq> [] \<or> ts_resources s \<noteq> []) \<and>
      (case ts_session_id s of None \<Rightarrow> True | Some v \<Rightarrow> v \<noteq> [] \<and> length v \<le> 128) \<and>
      (case ts_workspace s of None \<Rightarrow> True | Some v \<Rightarrow> v \<noteq> [] \<and> length v \<le> 128) \<and>
      valid_string_list (ts_domains s) \<and> valid_string_list (ts_resources s))"

definition to_broker_scope :: "TerminalAgentScope \<Rightarrow> Scope" where
  "to_broker_scope s = \<lparr>sc_session_id = ts_session_id s, sc_workspace = ts_workspace s, sc_domains = ts_domains s, sc_resources = ts_resources s\<rparr>"

definition agent_identity_valid :: "TerminalAgentIdentity \<Rightarrow> bool" where
  "agent_identity_valid a = (valid_agent_token (ta_agent_id a) \<and> valid_agent_token (ta_activation_id a) \<and>
     1 \<le> ta_generation a \<and> agent_scope_valid (ta_scope a))"

definition create_request_valid :: "TerminalCreateRequest \<Rightarrow> bool" where
  "create_request_valid q = (tq_schema_version q = TERMINAL_SCHEMA_VERSION \<and>
     (if tq_mode q = ''human_surface'' then tq_agent q = None
      else if tq_mode q = ''agent_automation'' then (case tq_agent q of None \<Rightarrow> False | Some a \<Rightarrow> agent_identity_valid a)
      else False))"

definition agent_binding_from :: "TerminalAgentIdentity \<Rightarrow> AgentSessionBinding" where
  "agent_binding_from a = \<lparr>sb_agent_id = ta_agent_id a, sb_activation_id = ta_activation_id a, sb_generation = ta_generation a,
     sb_scope = to_broker_scope (ta_scope a)\<rparr>"

section \<open>The terminal host\<close>

record TerminalHost =
  th_registry :: PtyRegistry
  th_bindings :: "(string, AgentSessionBinding) hashmap"
  th_owners :: "(string, nat) hashmap"

definition new_terminal_host :: TerminalHost where
  "new_terminal_host = \<lparr>th_registry = new_pty_registry, th_bindings = [], th_owners = []\<rparr>"

definition terminal_public_report :: "PtyReport \<Rightarrow> string \<Rightarrow> TerminalReport" where
  "terminal_public_report r mode = \<lparr>tr_schema_version = TERMINAL_SCHEMA_VERSION, tr_session_id = pr_session_id r, tr_state = pr_state r,
     tr_mode = mode, tr_cols = pr_cols r, tr_rows = pr_rows r, tr_created_at = pr_created_at r,
     tr_last_activity = pr_last_activity r, tr_error = pr_error r\<rparr>"

definition terminal_record :: "string \<Rightarrow> nat \<Rightarrow> AgentSessionBinding option \<Rightarrow> TerminalHost \<Rightarrow> TerminalHost" where
  "terminal_record i owner binding h =
     h\<lparr>th_owners := hm_insert i owner (th_owners h),
       th_bindings := (case binding of None \<Rightarrow> th_bindings h | Some b \<Rightarrow> hm_insert i b (th_bindings h))\<rparr>"

definition terminal_create ::
  "pty_inputs \<Rightarrow> TerminalCreateRequest \<Rightarrow> nat \<Rightarrow> AgentSessionBinding option \<Rightarrow> TerminalHost \<Rightarrow>
   (TerminalReport, PtyError) result \<times> TerminalHost" where
  "terminal_create inp q owner binding h =
     (case pty_create inp (tq_shell q) (tq_cols q) (tq_rows q) (th_registry h) of
        (Err e, r) \<Rightarrow> (Err e, h\<lparr>th_registry := r\<rparr>)
      | (Ok rep, r) \<Rightarrow>
          (Ok (terminal_public_report rep (tq_mode q)), terminal_record (pr_session_id rep) owner binding (h\<lparr>th_registry := r\<rparr>)))"

definition terminal_forget :: "string \<Rightarrow> TerminalHost \<Rightarrow> TerminalHost" where
  "terminal_forget i h = h\<lparr>th_bindings := hm_remove i (th_bindings h), th_owners := hm_remove i (th_owners h)\<rparr>"

definition terminal_owner :: "string \<Rightarrow> TerminalHost \<Rightarrow> nat option" where
  "terminal_owner i h = hm_get (th_owners h) i"

definition terminal_binding :: "string \<Rightarrow> TerminalHost \<Rightarrow> AgentSessionBinding option" where
  "terminal_binding i h = hm_get (th_bindings h) i"

definition terminal_mode_for :: "string \<Rightarrow> TerminalHost \<Rightarrow> string" where
  "terminal_mode_for i h = (if hm_contains_key (th_bindings h) i then ''agent_automation'' else ''human_surface'')"

definition terminal_session_count :: "TerminalHost \<Rightarrow> nat" where
  "terminal_session_count h = length (pty_list (th_registry h))"

definition terminal_reports :: "TerminalHost \<Rightarrow> TerminalReport list" where
  "terminal_reports h = map (\<lambda>r. terminal_public_report r (terminal_mode_for (pr_session_id r) h)) (pty_list (th_registry h))"

section \<open>Envelope handlers\<close>

text \<open>The JSON side of the capability.\<close>

record 'v terminal_codec =
  tc_create :: "'v \<Rightarrow> (TerminalCreateRequest, string) result"
  tc_write :: "'v \<Rightarrow> (TerminalWriteRequest, string) result"
  tc_resize :: "'v \<Rightarrow> (TerminalResizeRequest, string) result"
  tc_close :: "'v \<Rightarrow> (TerminalCloseRequest, string) result"
  tc_of_report :: "TerminalReport \<Rightarrow> 'v"
  tc_of_status :: "TerminalReport list \<Rightarrow> nat \<Rightarrow> 'v"
  tc_unit :: 'v

definition failed :: "ErrorCode \<Rightarrow> string \<Rightarrow> bool \<Rightarrow> DaemonMethodError" where
  "failed code message retry = MethodFailed code message retry"

definition parse_request :: "string \<Rightarrow> ('v \<Rightarrow> ('q, string) result) \<Rightarrow> 'v \<Rightarrow> ('q, DaemonMethodError) result" where
  "parse_request mname decode payload =
     (case decode payload of
        Ok q \<Rightarrow> Ok q
      | Err e \<Rightarrow> Err (failed EC_MalformedMessage (mname @ '' payload does not match the request shape: '' @ e) False))"

fun map_pty_error :: "PtyError \<Rightarrow> DaemonMethodError" where
  "map_pty_error InvalidShell = failed EC_MalformedMessage ''shell selection is not supported'' False"
| "map_pty_error SpawnUnavailable = failed EC_Unavailable ''pseudo console or shell spawn failed'' True"
| "map_pty_error UnknownSession = failed EC_Unavailable ''terminal session is unknown or already closed'' False"
| "map_pty_error InvalidGeometry = failed EC_MalformedMessage ''terminal geometry is outside schema bounds'' False"
| "map_pty_error WriteTooLarge = failed EC_MalformedMessage ''terminal write exceeds the schema bound'' False"
| "map_pty_error Pty_Io = failed EC_Unavailable ''terminal I/O failed'' True"
| "map_pty_error StateUnavailable = failed EC_Unavailable ''terminal state is unavailable'' True"

fun terminal_broker_error :: "BrokerError \<Rightarrow> DaemonMethodError" where
  "terminal_broker_error UnknownProvider = failed EC_Unavailable ''terminal provider is not registered'' True"
| "terminal_broker_error GenerationMismatch = failed EC_StaleGeneration ''agent terminal request carries a stale generation'' False"
| "terminal_broker_error Conflict = failed EC_Conflict ''terminal broker state conflict'' False"
| "terminal_broker_error _ = failed EC_Unauthorized ''agent is not authorized for terminal automation'' False"

definition TERMINAL_API_VERSION :: string where
  "TERMINAL_API_VERSION = ''terminal.dsh-desktop.local/v1alpha1''"

definition TERMINAL_KIND :: string where
  "TERMINAL_KIND = ''Terminal''"

definition terminal_capability :: CapabilityId where
  "terminal_capability = \<lparr>cap_api_version = TERMINAL_API_VERSION, cap_kind = TERMINAL_KIND\<rparr>"

definition gate_agent :: "pty_inputs \<Rightarrow> 'w Broker \<Rightarrow> AgentSessionBinding \<Rightarrow> (unit, DaemonMethodError) result" where
  "gate_agent inp b binding =
     (case enforce_dispatch (pi_gate_ms inp) terminal_capability (sb_agent_id binding) (sb_generation binding) (sb_scope binding) b of
        Ok _ \<Rightarrow> Ok ()
      | Err e \<Rightarrow> Err (terminal_broker_error e))"

definition terminal_check_owner :: "nat \<Rightarrow> string \<Rightarrow> TerminalHost \<Rightarrow> (unit, DaemonMethodError) result" where
  "terminal_check_owner key i h =
     (case terminal_owner i h of
        None \<Rightarrow> Err (failed EC_Unavailable ''terminal session is unknown or already closed'' False)
      | Some owner \<Rightarrow>
          if owner \<noteq> key then Err (failed EC_NotProcessOwner ''terminal session is owned by another connection'' False) else Ok ())"

text \<open>The owner check followed by the broker gate of an agent session.\<close>

definition terminal_gate :: "pty_inputs \<Rightarrow> 'w Broker \<Rightarrow> nat \<Rightarrow> string \<Rightarrow> TerminalHost \<Rightarrow> (unit, DaemonMethodError) result" where
  "terminal_gate inp b key i h =
     (case terminal_check_owner key i h of
        Err e \<Rightarrow> Err e
      | Ok _ \<Rightarrow> (case terminal_binding i h of None \<Rightarrow> Ok () | Some binding \<Rightarrow> gate_agent inp b binding))"

definition handle_terminal_create ::
  "'v terminal_codec \<Rightarrow> pty_inputs \<Rightarrow> 'w Broker \<Rightarrow> nat \<Rightarrow> 'v \<Rightarrow> TerminalHost \<Rightarrow> EventRouter \<Rightarrow>
   ('v, DaemonMethodError) result \<times> TerminalHost \<times> EventRouter" where
  "handle_terminal_create C inp b key payload h ev =
     (case parse_request ''terminal.create'' (tc_create C) payload of
        Err e \<Rightarrow> (Err e, h, ev)
      | Ok q \<Rightarrow>
          if \<not> create_request_valid q then
            (Err (failed EC_MalformedMessage ''terminal.create request is malformed or the mode is not supported (human_surface must not carry agent facts; agent_automation requires them)'' False), h, ev)
          else
            let binding = map_option agent_binding_from (tq_agent q)
            in case (case binding of None \<Rightarrow> Ok () | Some bd \<Rightarrow> gate_agent inp b bd) of
                 Err e \<Rightarrow> (Err e, h, ev)
               | Ok _ \<Rightarrow>
                   (case terminal_create inp q key binding h of
                      (Err e, h1) \<Rightarrow> (Err (map_pty_error e), h1, ev)
                    | (Ok rep, h1) \<Rightarrow> (Ok (tc_of_report C rep), h1, subscribe key (tr_session_id rep) ev)))"

definition handle_terminal_write ::
  "'v terminal_codec \<Rightarrow> pty_inputs \<Rightarrow> 'w Broker \<Rightarrow> nat \<Rightarrow> 'v \<Rightarrow> TerminalHost \<Rightarrow> ('v, DaemonMethodError) result \<times> TerminalHost" where
  "handle_terminal_write C inp b key payload h =
     (case parse_request ''terminal.write'' (tc_write C) payload of
        Err e \<Rightarrow> (Err e, h)
      | Ok q \<Rightarrow>
          if tw_schema_version q \<noteq> TERMINAL_SCHEMA_VERSION \<or> \<not> valid_pty_session_id (tw_session_id q) \<or> tw_data q = [] then
            (Err (failed EC_MalformedMessage ''terminal.write request is malformed'' False), h)
          else case terminal_gate inp b key (tw_session_id q) h of
            Err e \<Rightarrow> (Err e, h)
          | Ok _ \<Rightarrow>
              (case pty_write inp (tw_session_id q) (tw_data q) (th_registry h) of
                 (Err e, r) \<Rightarrow> (Err (map_pty_error e), h\<lparr>th_registry := r\<rparr>)
               | (Ok _, r) \<Rightarrow> (Ok (tc_unit C), h\<lparr>th_registry := r\<rparr>)))"

definition handle_terminal_resize ::
  "'v terminal_codec \<Rightarrow> pty_inputs \<Rightarrow> 'w Broker \<Rightarrow> nat \<Rightarrow> 'v \<Rightarrow> TerminalHost \<Rightarrow> ('v, DaemonMethodError) result \<times> TerminalHost" where
  "handle_terminal_resize C inp b key payload h =
     (case parse_request ''terminal.resize'' (tc_resize C) payload of
        Err e \<Rightarrow> (Err e, h)
      | Ok q \<Rightarrow>
          if tz_schema_version q \<noteq> TERMINAL_SCHEMA_VERSION \<or> \<not> valid_pty_session_id (tz_session_id q) then
            (Err (failed EC_MalformedMessage ''terminal.resize request is malformed'' False), h)
          else case terminal_gate inp b key (tz_session_id q) h of
            Err e \<Rightarrow> (Err e, h)
          | Ok _ \<Rightarrow>
              (case pty_resize inp (tz_session_id q) (tz_cols q) (tz_rows q) (th_registry h) of
                 (Err e, r) \<Rightarrow> (Err (map_pty_error e), h\<lparr>th_registry := r\<rparr>)
               | (Ok rep, r) \<Rightarrow>
                   (Ok (tc_of_report C (terminal_public_report rep (terminal_mode_for (tz_session_id q) h))), h\<lparr>th_registry := r\<rparr>)))"

text \<open>Before it closes a session, the handler resizes it to its own geometry.\<close>

definition handle_terminal_close ::
  "'v terminal_codec \<Rightarrow> pty_inputs \<Rightarrow> 'w Broker \<Rightarrow> nat \<Rightarrow> 'v \<Rightarrow> TerminalHost \<Rightarrow> EventRouter \<Rightarrow>
   ('v, DaemonMethodError) result \<times> TerminalHost \<times> EventRouter" where
  "handle_terminal_close C inp b key payload h ev =
     (case parse_request ''terminal.close'' (tc_close C) payload of
        Err e \<Rightarrow> (Err e, h, ev)
      | Ok q \<Rightarrow>
          if tx_schema_version q \<noteq> TERMINAL_SCHEMA_VERSION \<or> \<not> valid_pty_session_id (tx_session_id q) then
            (Err (failed EC_MalformedMessage ''terminal.close request is malformed'' False), h, ev)
          else case terminal_gate inp b key (tx_session_id q) h of
            Err e \<Rightarrow> (Err e, h, ev)
          | Ok _ \<Rightarrow>
              let i = tx_session_id q;
                  r = (case pty_lookup i (th_registry h) of
                         Err _ \<Rightarrow> th_registry h
                       | Ok rep \<Rightarrow> snd (pty_resize inp i (pr_cols rep) (pr_rows rep) (th_registry h)))
              in case pty_close i r of
                   (Err e, r1) \<Rightarrow> (Err (map_pty_error e), h\<lparr>th_registry := r1\<rparr>, ev)
                 | (Ok _, r1) \<Rightarrow> (Ok (tc_unit C), terminal_forget i (h\<lparr>th_registry := r1\<rparr>), unsubscribe key i ev))"

definition handle_terminal_status :: "'v terminal_codec \<Rightarrow> TerminalHost \<Rightarrow> ('v, DaemonMethodError) result" where
  "handle_terminal_status C h = (let sessions = terminal_reports h in Ok (tc_of_status C sessions (length sessions)))"

section \<open>All requests together\<close>

text \<open>A request of some connection, with the broker and the environment it meets.\<close>

datatype ('v, 'w) terminal_call =
    Call_Create pty_inputs "'w Broker" nat 'v
  | Call_Write pty_inputs "'w Broker" nat 'v
  | Call_Resize pty_inputs "'w Broker" nat 'v
  | Call_Close pty_inputs "'w Broker" nat 'v

fun call_key :: "('v, 'w) terminal_call \<Rightarrow> nat" where
  "call_key (Call_Create inp b key v) = key"
| "call_key (Call_Write inp b key v) = key"
| "call_key (Call_Resize inp b key v) = key"
| "call_key (Call_Close inp b key v) = key"

fun call_gate :: "('v, 'w) terminal_call \<Rightarrow> string \<Rightarrow> TerminalHost \<Rightarrow> (unit, DaemonMethodError) result" where
  "call_gate (Call_Create inp b key v) = terminal_gate inp b key"
| "call_gate (Call_Write inp b key v) = terminal_gate inp b key"
| "call_gate (Call_Resize inp b key v) = terminal_gate inp b key"
| "call_gate (Call_Close inp b key v) = terminal_gate inp b key"

fun call_dispatch :: "('v, 'w) terminal_call \<Rightarrow> AgentSessionBinding \<Rightarrow> (unit, BrokerError) result" where
  "call_dispatch (Call_Create inp b key v) bd =
     enforce_dispatch (pi_gate_ms inp) terminal_capability (sb_agent_id bd) (sb_generation bd) (sb_scope bd) b"
| "call_dispatch (Call_Write inp b key v) bd =
     enforce_dispatch (pi_gate_ms inp) terminal_capability (sb_agent_id bd) (sb_generation bd) (sb_scope bd) b"
| "call_dispatch (Call_Resize inp b key v) bd =
     enforce_dispatch (pi_gate_ms inp) terminal_capability (sb_agent_id bd) (sb_generation bd) (sb_scope bd) b"
| "call_dispatch (Call_Close inp b key v) bd =
     enforce_dispatch (pi_gate_ms inp) terminal_capability (sb_agent_id bd) (sb_generation bd) (sb_scope bd) b"

fun terminal_exec :: "'v terminal_codec \<Rightarrow> ('v, 'w) terminal_call \<Rightarrow> TerminalHost \<times> EventRouter \<Rightarrow> TerminalHost \<times> EventRouter" where
  "terminal_exec C (Call_Create inp b key v) (h, ev) = snd (handle_terminal_create C inp b key v h ev)"
| "terminal_exec C (Call_Write inp b key v) (h, ev) = (snd (handle_terminal_write C inp b key v h), ev)"
| "terminal_exec C (Call_Resize inp b key v) (h, ev) = (snd (handle_terminal_resize C inp b key v h), ev)"
| "terminal_exec C (Call_Close inp b key v) (h, ev) = snd (handle_terminal_close C inp b key v h ev)"

definition terminal_step ::
  "'v terminal_codec \<Rightarrow> TerminalHost \<times> EventRouter \<Rightarrow> ('v, 'w) terminal_call \<Rightarrow> TerminalHost \<times> EventRouter \<Rightarrow> bool" where
  "terminal_step C w e w' = (w' = terminal_exec C e w)"

text \<open>Sessions, owners and bindings belong together, and every session id carries a number below the next one.\<close>

definition pty_id :: "nat \<Rightarrow> nat \<Rightarrow> string" where
  "pty_id ms n = ''pty-'' @ show_nat ms @ ''-'' @ show_nat n"

text \<open>The part of the state that belongs to the session \<open>i\<close>.\<close>

definition session_view :: "string \<Rightarrow> TerminalHost \<Rightarrow> PtySession option \<times> nat option \<times> AgentSessionBinding option" where
  "session_view i h = (hm_get (py_sessions (th_registry h)) i, hm_get (th_owners h) i, hm_get (th_bindings h) i)"

definition slot_ok :: "nat \<Rightarrow> string \<Rightarrow> PtySession option \<times> nat option \<times> AgentSessionBinding option \<Rightarrow> bool" where
  "slot_ok n i v = (case v of (s, owner, binding) \<Rightarrow>
     (owner = None \<longleftrightarrow> s = None) \<and> (s = None \<or> (\<exists>ms k. i = pty_id ms k \<and> k < n)) \<and> (s = None \<longrightarrow> binding = None))"

definition terminal_inv :: "TerminalHost \<Rightarrow> bool" where
  "terminal_inv h = (\<forall>i. slot_ok (py_next_id (th_registry h)) i (session_view i h))"

section \<open>Lemmas\<close>

lemma pty_id_seq:
  assumes "pty_id t n = pty_id t' n'"
  shows "n = n'"
proof -
  have "rsplit_once CHR ''-'' (pty_id t n) = Some (''pty-'' @ show_nat t, show_nat n)" for t n
    using show_nat_read [of n] by (simp add: rsplit_once_Some pty_id_def)
  hence "show_nat n = show_nat n'" using assms by (metis option.inject prod.inject)
  thus ?thesis using show_nat_read by metis
qed

text \<open>How a request may change the table of sessions: one session at a time.\<close>

lemma pty_write_sessions:
  assumes "pty_write inp i input r = (x, r')"
  shows "py_next_id r' = py_next_id r" "j \<noteq> i \<Longrightarrow> hm_get (py_sessions r') j = hm_get (py_sessions r) j"
    "hm_get (py_sessions r') i = None \<longleftrightarrow> hm_get (py_sessions r) i = None"
  using assms by (auto simp: pty_write_def hm_get_insert split: if_splits option.splits)

lemma pty_resize_sessions:
  assumes "pty_resize inp i cols rows r = (x, r')"
  shows "py_next_id r' = py_next_id r" "j \<noteq> i \<Longrightarrow> hm_get (py_sessions r') j = hm_get (py_sessions r) j"
    "hm_get (py_sessions r') i = None \<longleftrightarrow> hm_get (py_sessions r) i = None"
  using assms by (auto simp: pty_resize_def hm_get_insert Let_def split: if_splits option.splits)

text \<open>An update of one existing session keeps the invariant and every other session.\<close>

definition touches :: "string \<Rightarrow> TerminalHost \<Rightarrow> TerminalHost \<Rightarrow> bool" where
  "touches i h h' = (py_next_id (th_registry h') = py_next_id (th_registry h) \<and> th_owners h' = th_owners h \<and>
     th_bindings h' = th_bindings h \<and>
     (\<forall>j. j \<noteq> i \<longrightarrow> hm_get (py_sessions (th_registry h')) j = hm_get (py_sessions (th_registry h)) j) \<and>
     (hm_get (py_sessions (th_registry h')) i = None \<longleftrightarrow> hm_get (py_sessions (th_registry h)) i = None))"

lemma touches_refl: "touches i h h"
  by (simp add: touches_def)

lemma slot_ok_mono:
  assumes "slot_ok n i v" "n \<le> m"
  shows "slot_ok m i v"
proof -
  obtain s ow bd where v: "v = (s, ow, bd)" by (cases v) auto
  have ex: "\<exists>ms k. i = pty_id ms k \<and> k < m" if "\<exists>ms k. i = pty_id ms k \<and> k < n"
  proof -
    obtain ms k where "i = pty_id ms k" "k < n" using \<open>\<exists>ms k. i = pty_id ms k \<and> k < n\<close> by (elim exE conjE)
    thus ?thesis using assms(2) by (intro exI [of _ ms] exI [of _ k]) simp
  qed
  show ?thesis
    using assms(1) ex unfolding slot_ok_def v prod.case by blast
qed

lemma touches_inv:
  assumes "touches i h h'" "terminal_inv h"
  shows "terminal_inv h'"
proof -
  have n: "py_next_id (th_registry h') = py_next_id (th_registry h)" using assms(1) by (simp add: touches_def)
  have "slot_ok (py_next_id (th_registry h)) j (session_view j h')" for j
  proof -
    have "slot_ok (py_next_id (th_registry h)) j (session_view j h)" using assms(2) by (simp add: terminal_inv_def)
    moreover have "hm_get (py_sessions (th_registry h')) j = None \<longleftrightarrow> hm_get (py_sessions (th_registry h)) j = None"
      using assms(1) by (cases "j = i") (simp_all add: touches_def)
    ultimately show ?thesis using assms(1) by (simp add: slot_ok_def session_view_def touches_def)
  qed
  thus ?thesis unfolding terminal_inv_def n ..
qed

lemma touches_view: "touches i h h' \<Longrightarrow> j \<noteq> i \<Longrightarrow> session_view j h' = session_view j h"
  by (simp add: touches_def session_view_def)

lemma pty_id_fresh:
  assumes "terminal_inv h"
  shows "session_view (pty_id ms (py_next_id (th_registry h))) h = (None, None, None)"
proof -
  let ?i = "pty_id ms (py_next_id (th_registry h))"
  have ok: "slot_ok (py_next_id (th_registry h)) ?i (session_view ?i h)" using assms by (simp add: terminal_inv_def)
  have "hm_get (py_sessions (th_registry h)) ?i = None"
  proof (rule ccontr)
    assume "hm_get (py_sessions (th_registry h)) ?i \<noteq> None"
    then obtain ms' k where "?i = pty_id ms' k" "k < py_next_id (th_registry h)"
      using ok unfolding slot_ok_def session_view_def by auto
    thus False using pty_id_seq by blast
  qed
  thus ?thesis using ok by (simp add: slot_ok_def session_view_def)
qed

text \<open>A created session is new; a failed creation at most uses up a number.\<close>

lemma terminal_create_cases:
  assumes "terminal_create inp q key binding h = (x, h')" and "terminal_inv h"
  obtains (refused) e where "x = Err e" "\<And>i. session_view i h' = session_view i h"
      "py_next_id (th_registry h) \<le> py_next_id (th_registry h')"
  | (created) s rep where "x = Ok rep" "tr_session_id rep = pty_id (pi_ms inp 0) (py_next_id (th_registry h))"
      "py_next_id (th_registry h') = py_next_id (th_registry h) + 1"
      "\<And>i. session_view i h' = (if i = tr_session_id rep then (Some s, Some key, binding) else session_view i h)"
proof -
  obtain y r where p: "pty_create inp (tq_shell q) (tq_cols q) (tq_rows q) (th_registry h) = (y, r)" by fastforce
  let ?i = "pty_id (pi_ms inp 0) (py_next_id (th_registry h))"
  show ?thesis
  proof (cases y)
    case (Err e)
    hence "py_sessions r = py_sessions (th_registry h)" "py_next_id (th_registry h) \<le> py_next_id r"
      using p by (auto simp: pty_create_def Let_def split: if_splits result.splits)
    moreover have "x = Err e" "h' = h\<lparr>th_registry := r\<rparr>" using assms(1) p Err by (simp_all add: terminal_create_def)
    ultimately show ?thesis by (intro refused) (simp_all add: session_view_def)
  next
    case (Ok rep)
    then obtain s where s: "pr_session_id rep = ?i" "py_next_id r = py_next_id (th_registry h) + 1"
        "py_sessions r = hm_insert ?i s (py_sessions (th_registry h))"
      using p by (auto simp: pty_create_def pty_report_def pty_id_def Let_def split: if_splits result.splits)
    have x: "x = Ok (terminal_public_report rep (tq_mode q))" "h' = terminal_record ?i key binding (h\<lparr>th_registry := r\<rparr>)"
      using assms(1) p Ok s(1) by (simp_all add: terminal_create_def)
    have "hm_get (th_bindings h) ?i = None" using pty_id_fresh [OF assms(2), of "pi_ms inp 0"] by (simp add: session_view_def)
    hence v: "session_view i h' = (if i = ?i then (Some s, Some key, binding) else session_view i h)" for i
      using x(2) s(3) by (auto simp: session_view_def terminal_record_def hm_get_insert split: option.split)
    have i: "tr_session_id (terminal_public_report rep (tq_mode q)) = ?i" using s(1) by (simp add: terminal_public_report_def)
    have n: "py_next_id (th_registry h') = py_next_id (th_registry h) + 1" using x(2) s(2) by (simp add: terminal_record_def)
    show ?thesis by (rule created [OF x(1) i n]) (unfold i, rule v)
  qed
qed

lemma terminal_gate_owner: "terminal_gate inp b key i h = Ok () \<Longrightarrow> hm_get (th_owners h) i = Some key"
  by (auto simp: terminal_gate_def terminal_check_owner_def terminal_owner_def split: result.splits option.splits if_splits)

lemma terminal_create_call:
  assumes "handle_terminal_create C inp b key v h ev = (x, h', ev')" and "terminal_inv h"
  obtains (same) "\<And>i. session_view i h' = session_view i h" "py_next_id (th_registry h) \<le> py_next_id (th_registry h')"
  | (created) i s binding where "i = pty_id (pi_ms inp 0) (py_next_id (th_registry h))"
      "py_next_id (th_registry h') = py_next_id (th_registry h) + 1"
      "\<And>j. session_view j h' = (if j = i then (Some s, Some key, binding) else session_view j h)"
proof (cases "parse_request ''terminal.create'' (tc_create C) v")
  case (Ok q)
  let ?g = "case map_option agent_binding_from (tq_agent q) of None \<Rightarrow> Ok () | Some bd \<Rightarrow> gate_agent inp b bd"
  show ?thesis
  proof (cases "create_request_valid q \<and> is_ok ?g")
    case True
    obtain y h1 where c: "terminal_create inp q key (map_option agent_binding_from (tq_agent q)) h = (y, h1)" by fastforce
    have h: "h' = h1" using assms(1) Ok True c by (cases ?g; cases y) (simp_all add: handle_terminal_create_def Let_def)
    from c assms(2) show ?thesis
    proof (cases rule: terminal_create_cases)
      case (refused e)
      thus ?thesis using same h by simp
    next
      case (created s rep)
      show ?thesis by (rule that(2) [OF created(2)]) (use created(3,4) h in simp_all)
    qed
  next
    case False
    hence "h' = h" using assms(1) Ok by (cases ?g) (auto simp: handle_terminal_create_def Let_def split: if_splits)
    thus ?thesis using same by simp
  qed
next
  case (Err e)
  hence "h' = h" using assms(1) by (simp add: handle_terminal_create_def)
  thus ?thesis using same by simp
qed

lemma terminal_write_call:
  assumes "handle_terminal_write C inp b key v h = (x, h')"
  shows "h' = h \<or> (\<exists>i. terminal_gate inp b key i h = Ok () \<and> touches i h h')"
proof (cases "parse_request ''terminal.write'' (tc_write C) v")
  case (Ok q)
  let ?i = "tw_session_id q"
  let ?bad = "tw_schema_version q \<noteq> TERMINAL_SCHEMA_VERSION \<or> \<not> valid_pty_session_id ?i \<or> tw_data q = []"
  show ?thesis
  proof (cases "\<not> ?bad \<and> terminal_gate inp b key ?i h = Ok ()")
    case True
    obtain y r where w: "pty_write inp ?i (tw_data q) (th_registry h) = (y, r)" by fastforce
    have "h' = h\<lparr>th_registry := r\<rparr>" using assms Ok True w by (cases y) (simp_all add: handle_terminal_write_def)
    hence "touches ?i h h'" using pty_write_sessions [OF w] by (simp add: touches_def)
    thus ?thesis using True by blast
  next
    case False
    thus ?thesis using assms Ok by (cases "terminal_gate inp b key ?i h") (auto simp: handle_terminal_write_def split: if_splits)
  qed
qed (use assms in \<open>simp add: handle_terminal_write_def\<close>)

lemma terminal_resize_call:
  assumes "handle_terminal_resize C inp b key v h = (x, h')"
  shows "h' = h \<or> (\<exists>i. terminal_gate inp b key i h = Ok () \<and> touches i h h')"
proof (cases "parse_request ''terminal.resize'' (tc_resize C) v")
  case (Ok q)
  let ?i = "tz_session_id q"
  let ?bad = "tz_schema_version q \<noteq> TERMINAL_SCHEMA_VERSION \<or> \<not> valid_pty_session_id ?i"
  show ?thesis
  proof (cases "\<not> ?bad \<and> terminal_gate inp b key ?i h = Ok ()")
    case True
    obtain y r where w: "pty_resize inp ?i (tz_cols q) (tz_rows q) (th_registry h) = (y, r)" by fastforce
    have "h' = h\<lparr>th_registry := r\<rparr>" using assms Ok True w by (cases y) (simp_all add: handle_terminal_resize_def)
    hence "touches ?i h h'" using pty_resize_sessions [OF w] by (simp add: touches_def)
    thus ?thesis using True by blast
  next
    case False
    thus ?thesis using assms Ok by (cases "terminal_gate inp b key ?i h") (auto simp: handle_terminal_resize_def split: if_splits)
  qed
qed (use assms in \<open>simp add: handle_terminal_resize_def\<close>)

definition ends :: "string \<Rightarrow> TerminalHost \<Rightarrow> TerminalHost \<Rightarrow> bool" where
  "ends i h h' = (py_next_id (th_registry h') = py_next_id (th_registry h) \<and>
     (\<forall>j. session_view j h' = (if j = i then (None, None, None) else session_view j h)))"

lemma terminal_close_call:
  assumes "handle_terminal_close C inp b key v h ev = (x, h', ev')"
  shows "h' = h \<or> (\<exists>i. terminal_gate inp b key i h = Ok () \<and> (touches i h h' \<or> ends i h h'))"
proof (cases "parse_request ''terminal.close'' (tc_close C) v")
  case (Ok q)
  let ?i = "tx_session_id q"
  let ?bad = "tx_schema_version q \<noteq> TERMINAL_SCHEMA_VERSION \<or> \<not> valid_pty_session_id ?i"
  show ?thesis
  proof (cases "\<not> ?bad \<and> terminal_gate inp b key ?i h = Ok ()")
    case True
    define r where "r = (case pty_lookup ?i (th_registry h) of
        Err _ \<Rightarrow> th_registry h | Ok rep \<Rightarrow> snd (pty_resize inp ?i (pr_cols rep) (pr_rows rep) (th_registry h)))"
    have r: "touches ?i h (h\<lparr>th_registry := r\<rparr>)"
    proof (cases "pty_lookup ?i (th_registry h)")
      case (Ok rep)
      obtain y r1 where "pty_resize inp ?i (pr_cols rep) (pr_rows rep) (th_registry h) = (y, r1)" by fastforce
      thus ?thesis using pty_resize_sessions [of inp ?i "pr_cols rep" "pr_rows rep"] Ok by (simp add: r_def touches_def)
    qed (simp add: r_def touches_def)
    obtain y r1 where c: "pty_close ?i r = (y, r1)" by fastforce
    have h': "h' = (case y of Err e \<Rightarrow> h\<lparr>th_registry := r1\<rparr> | Ok _ \<Rightarrow> terminal_forget ?i (h\<lparr>th_registry := r1\<rparr>))"
      using assms Ok True c by (cases y) (simp_all add: handle_terminal_close_def Let_def flip: r_def)
    show ?thesis
    proof (cases y)
      case (Err e)
      hence "r1 = r" using c by (auto simp: pty_close_def split: option.splits)
      thus ?thesis using h' Err r True by auto
    next
      case (Ok u)
      hence "r1 = r\<lparr>py_sessions := hm_remove ?i (py_sessions r)\<rparr>" using c by (auto simp: pty_close_def split: option.splits)
      hence "ends ?i h h'" using h' Ok r by (simp add: ends_def session_view_def terminal_forget_def touches_def hm_get_remove)
      thus ?thesis using True by blast
    qed
  next
    case False
    thus ?thesis using assms Ok by (cases "terminal_gate inp b key ?i h") (auto simp: handle_terminal_close_def split: if_splits)
  qed
qed (use assms in \<open>simp add: handle_terminal_close_def\<close>)

text \<open>What a request does to the sessions: nothing, a new one, or a change or the end of one it may manage.\<close>

lemma terminal_exec_cases:
  assumes "terminal_exec C e (h, ev) = (h', ev')" and "terminal_inv h"
  obtains (same) "\<And>i. session_view i h' = session_view i h" "py_next_id (th_registry h) \<le> py_next_id (th_registry h')"
  | (created) ms i s binding where "i = pty_id ms (py_next_id (th_registry h))" "py_next_id (th_registry h') = py_next_id (th_registry h) + 1"
      "\<And>j. session_view j h' = (if j = i then (Some s, Some (call_key e), binding) else session_view j h)"
  | (managed) i where "call_gate e i h = Ok ()" "touches i h h' \<or> ends i h h'"
proof (cases e)
  case (Call_Create inp b key v)
  obtain x where "handle_terminal_create C inp b key v h ev = (x, h', ev')"
    using assms(1) Call_Create by (cases "handle_terminal_create C inp b key v h ev") auto
  thus ?thesis using assms(2)
  proof (cases rule: terminal_create_call)
    case (created i s binding)
    show ?thesis
      by (rule that(2) [where s = s and binding = binding, OF created(1,2)]) (use created(3) Call_Create in simp)
  qed (rule same)
next
  case (Call_Write inp b key v)
  obtain x where "handle_terminal_write C inp b key v h = (x, h')"
    using assms(1) Call_Write by (cases "handle_terminal_write C inp b key v h") auto
  from terminal_write_call [OF this] show ?thesis using same managed Call_Write by auto
next
  case (Call_Resize inp b key v)
  obtain x where "handle_terminal_resize C inp b key v h = (x, h')"
    using assms(1) Call_Resize by (cases "handle_terminal_resize C inp b key v h") auto
  from terminal_resize_call [OF this] show ?thesis using same managed Call_Resize by auto
next
  case (Call_Close inp b key v)
  obtain x where "handle_terminal_close C inp b key v h ev = (x, h', ev')"
    using assms(1) Call_Close by (cases "handle_terminal_close C inp b key v h ev") auto
  from terminal_close_call [OF this] show ?thesis using same managed Call_Close by auto
qed

lemma terminal_exec_inv:
  assumes "terminal_exec C e (h, ev) = (h', ev')" and "terminal_inv h"
  shows "terminal_inv h'"
  using assms
proof (cases rule: terminal_exec_cases)
  case same
  thus ?thesis using assms(2) slot_ok_mono unfolding terminal_inv_def by metis
next
  case (created ms i s binding)
  have "slot_ok (py_next_id (th_registry h')) j (session_view j h')" for j
  proof (cases "j = i")
    case True
    have "\<exists>ms k. i = pty_id ms k \<and> k < py_next_id (th_registry h')"
      using created(1,2) by (intro exI [of _ ms] exI [of _ "py_next_id (th_registry h)"]) simp
    thus ?thesis using True created(3) by (simp add: slot_ok_def)
  next
    case False
    hence "slot_ok (py_next_id (th_registry h)) j (session_view j h')"
      using assms(2) created(3) [of j] by (simp add: terminal_inv_def)
    thus ?thesis using slot_ok_mono created(2) by simp
  qed
  thus ?thesis unfolding terminal_inv_def ..
next
  case (managed i)
  from managed(2) show ?thesis
  proof
    assume "touches i h h'"
    thus ?thesis using touches_inv assms(2) by blast
  next
    assume "ends i h h'"
    thus ?thesis using assms(2) by (simp add: terminal_inv_def ends_def slot_ok_def)
  qed
qed

lemma terminal_exec_keeps:
  assumes "terminal_exec C e (h, ev) = (h', ev')" and "terminal_inv h" and "hm_get (py_sessions (th_registry h)) i \<noteq> None"
    and "call_gate e i h \<noteq> Ok ()"
  shows "session_view i h' = session_view i h"
  using assms(1,2)
proof (cases rule: terminal_exec_cases)
  case (created ms j s binding)
  have "i \<noteq> j" using pty_id_fresh [OF assms(2), of ms] assms(3) created(1) by (auto simp: session_view_def)
  thus ?thesis using created(3) by simp
next
  case (managed j)
  have "i \<noteq> j" using managed(1) assms(4) by auto
  thus ?thesis using managed(2) touches_view [of j h h' i] by (auto simp: ends_def)
qed simp

lemma call_gate_Ok:
  "call_gate e i h = Ok () \<longleftrightarrow> terminal_owner i h = Some (call_key e) \<and>
     (\<forall>bd. terminal_binding i h = Some bd \<longrightarrow> call_dispatch e bd = Ok ())"
proof -
  have "terminal_gate inp b key i h = Ok () \<longleftrightarrow> terminal_owner i h = Some key \<and> (\<forall>bd. terminal_binding i h = Some bd \<longrightarrow>
      enforce_dispatch (pi_gate_ms inp) terminal_capability (sb_agent_id bd) (sb_generation bd) (sb_scope bd) b = Ok ())"
    for inp and b :: "'b Broker" and key
    by (cases "terminal_binding i h")
      (auto simp: terminal_gate_def terminal_check_owner_def gate_agent_def split: option.splits result.splits if_splits)
  thus ?thesis by (cases e) simp_all
qed

interpretation terminal: preserved "terminal_step C" "\<lambda>w. terminal_inv (fst w)" for C
  by unfold_locales (metis terminal_step_def terminal_exec_inv prod.collapse)

text \<open>The requests of connections other than \<open>k\<close>.\<close>

definition others_step ::
  "'v terminal_codec \<Rightarrow> nat \<Rightarrow> TerminalHost \<times> EventRouter \<Rightarrow> ('v, 'w) terminal_call \<Rightarrow> TerminalHost \<times> EventRouter \<Rightarrow> bool" where
  "others_step C k w e w' = (terminal_step C w e w' \<and> call_key e \<noteq> k)"

definition held :: "string \<Rightarrow> nat \<Rightarrow> PtySession option \<times> nat option \<times> AgentSessionBinding option \<Rightarrow> TerminalHost \<times> EventRouter \<Rightarrow> bool" where
  "held i k v w = (terminal_inv (fst w) \<and> session_view i (fst w) = v \<and> fst (snd v) = Some k)"

lemma held_step:
  assumes "others_step C k w e w'" and "held i k v w"
  shows "held i k v w'"
proof -
  obtain h ev h' ev' where w: "w = (h, ev)" "w' = (h', ev')" by fastforce
  have x: "terminal_exec C e (h, ev) = (h', ev')" and k: "call_key e \<noteq> k"
    using assms(1) w by (simp_all add: others_step_def terminal_step_def)
  have inv: "terminal_inv h" and v: "session_view i h = v" "hm_get (th_owners h) i = Some k"
    using assms(2) w by (auto simp: held_def session_view_def)
  have "slot_ok (py_next_id (th_registry h)) i (session_view i h)" using inv by (simp add: terminal_inv_def)
  hence "hm_get (py_sessions (th_registry h)) i \<noteq> None" using v(2) by (auto simp: slot_ok_def session_view_def)
  moreover have "call_gate e i h \<noteq> Ok ()" using k v(2) by (auto simp: call_gate_Ok terminal_owner_def)
  ultimately have "session_view i h' = v" using terminal_exec_keeps [OF x inv] v(1) by simp
  thus ?thesis using terminal_exec_inv [OF x inv] assms(2) w by (simp add: held_def)
qed

interpretation held: preserved "others_step C k" "held i k v" for C k i v
  by unfold_locales (rule held_step)

lemma new_terminal_inv: "terminal_inv new_terminal_host"
  by (simp add: terminal_inv_def slot_ok_def session_view_def new_terminal_host_def new_pty_registry_def hm_empty)

section \<open>A session for the examples\<close>

definition sample_pty_inputs :: pty_inputs where
  "sample_pty_inputs = \<lparr>pi_ms = (\<lambda>_. 7), pi_spawn_ok = True, pi_write_ok = True, pi_resize_ok = True, pi_default_shell = ''sh'', pi_gate_ms = 7\<rparr>"

definition sample_terminal_codec :: "unit terminal_codec" where
  "sample_terminal_codec = \<lparr>tc_create = (\<lambda>_. Ok \<lparr>tq_schema_version = 1, tq_mode = ''human_surface'', tq_cols = 80, tq_rows = 24,
       tq_shell = None, tq_cwd = None, tq_agent = None\<rparr>),
     tc_write = (\<lambda>_. Ok \<lparr>tw_schema_version = 1, tw_session_id = ''pty-7-1'', tw_data = ''ls''\<rparr>), tc_resize = (\<lambda>_. Err []),
     tc_close = (\<lambda>_. Ok \<lparr>tx_schema_version = 1, tx_session_id = ''pty-7-1''\<rparr>), tc_of_report = (\<lambda>_. ()), tc_of_status = (\<lambda>_ _. ()),
     tc_unit = ()\<rparr>"

definition sample_terminal :: "TerminalHost \<times> EventRouter" where
  "sample_terminal = terminal_exec sample_terminal_codec (Call_Create sample_pty_inputs (new_broker :: nat Broker) 3 ()) (new_terminal_host, spawn_router)"

lemma sample_terminal_eq:
  "session_view ''pty-7-1'' (fst sample_terminal) =
     (Some \<lparr>pt_id = ''pty-7-1'', pt_cols = 80, pt_rows = 24, pt_created_at = 7, pt_last_activity = None, pt_closed = False,
        pt_error = None, pt_input = []\<rparr>, Some 3, None)"
proof -
  have "show_nat 7 = ''7''" "show_nat 1 = ''1''" by code_simp+
  thus ?thesis
    by (simp add: sample_terminal_def sample_terminal_codec_def sample_pty_inputs_def handle_terminal_create_def parse_request_def
        create_request_valid_def TERMINAL_SCHEMA_VERSION_def terminal_create_def pty_create_def geometry_ok_def MIN_COLS_def
        MAX_COLS_def MIN_ROWS_def MAX_ROWS_def resolve_shell_def terminal_record_def pty_report_def terminal_public_report_def
        new_terminal_host_def new_pty_registry_def session_view_def hm_get_insert hm_empty Let_def)
qed

lemma sample_terminal_run:
  "run (terminal_step sample_terminal_codec) (new_terminal_host, spawn_router)
     [Call_Create sample_pty_inputs (new_broker :: nat Broker) 3 ()] sample_terminal"
  by (rule run_cons [where step = "terminal_step sample_terminal_codec", OF _ run_nil]) (simp add: terminal_step_def sample_terminal_def)

section \<open>Properties\<close>

text \<open>
  A terminal session is touched only by whom it belongs to: in every history of requests of all connections, if a
  request changes anything of an existing session, its input, its geometry, its ownership or its existence, then it came
  over the connection that created the session, and for a session of an agent the broker's gate passed for the agent,
  generation and scope recorded at its creation.
\<close>

lemma terminal_change_authorized:
  assumes "run (terminal_step C) (new_terminal_host, ev0) es (h, ev)" and "terminal_exec C e (h, ev) = (h', ev')"
    and "hm_get (py_sessions (th_registry h)) i = Some s" and "session_view i h' \<noteq> session_view i h"
  shows "terminal_owner i h = Some (call_key e) \<and> (\<forall>bd. terminal_binding i h = Some bd \<longrightarrow> call_dispatch e bd = Ok ())"
proof -
  have "terminal_inv h" using terminal.run_inv [OF assms(1)] new_terminal_inv by simp
  from terminal_exec_keeps [OF assms(2) this] have "call_gate e i h = Ok ()" using assms(3,4) by auto
  thus ?thesis unfolding call_gate_Ok .
qed

text \<open>
  C29. A terminal outlives its connection but cannot be managed any more: whatever the other connections request, a session
  created over the connection \<open>k\<close> stays exactly as it is, with \<open>k\<close> as its owner. Since connection keys are never reused,
  after \<open>k\<close> has disconnected no request can write to, resize or close the session.
\<close>

theorem terminal_orphaned:
  assumes "run (terminal_step C) (new_terminal_host, ev0) es (h, ev)" and "terminal_owner i h = Some k"
    and "run (others_step C k) (h, ev) es' (h', ev')"
  shows "session_view i h' = session_view i h"
proof -
  have "held i k (session_view i h) (h, ev)"
    using terminal.run_inv [OF assms(1)] new_terminal_inv assms(2) by (simp add: held_def session_view_def terminal_owner_def)
  from held.run_inv [OF assms(3) this] show ?thesis by (simp add: held_def)
qed

theorem terminal_orphaned_witness:
  "session_view ''pty-7-1'' (fst (terminal_exec sample_terminal_codec (Call_Close sample_pty_inputs (new_broker :: nat Broker) 4 ()) sample_terminal))
     = session_view ''pty-7-1'' (fst sample_terminal) \<and> terminal_owner ''pty-7-1'' (fst sample_terminal) = Some 3"
proof -
  let ?e = "Call_Close sample_pty_inputs (new_broker :: nat Broker) 4 ()"
  obtain h ev where s: "sample_terminal = (h, ev)" by fastforce
  obtain h' ev' where x: "terminal_exec sample_terminal_codec ?e (h, ev) = (h', ev')" by fastforce
  have o: "terminal_owner ''pty-7-1'' h = Some 3"
    using sample_terminal_eq by (simp add: s session_view_def terminal_owner_def)
  have "others_step sample_terminal_codec 3 (h, ev) ?e (h', ev')" using x by (simp add: others_step_def terminal_step_def)
  hence r: "run (others_step sample_terminal_codec 3) (h, ev) [?e] (h', ev')"
    by (rule run_cons [where step = "others_step sample_terminal_codec 3", OF _ run_nil])
  show ?thesis using terminal_orphaned [OF sample_terminal_run [unfolded s] o r] o unfolding s x fst_conv ..
qed

end
