(* ===== verification/Browser_Host.thy ===== *)
theory Browser_Host
  imports Terminal_Host
begin

text \<open>
  The browser capability of the daemon (\<open>crates/daemon/src/browser.rs\<close>): the session registry together with the connection
  that owns each session, and the handlers of the \<open>browser.*\<close> methods. JSON decoding is a parameter; the clock readings of a
  request are arguments.
\<close>

section \<open>Requests\<close>

record BrowserCreateRequest =
  bc_schema_version :: nat
  bc_mode :: string

record BrowserCloseRequest =
  bx_schema_version :: nat
  bx_session_id :: string

record BrowserNavigateRequest =
  bn_schema_version :: nat
  bn_session_id :: string
  bn_url :: string

record BrowserLoadFailedRequest =
  bf_schema_version :: nat
  bf_session_id :: string
  bf_message :: string

record BrowserReport =
  br_schema_version :: nat
  br_session_id :: string
  br_state :: string
  br_mode :: string
  br_current_url :: "string option"
  br_created_at :: nat
  br_last_activity :: "nat option"
  br_error :: "string option"

definition BROWSER_SCHEMA_VERSION :: nat where
  "BROWSER_SCHEMA_VERSION = 1"

definition valid_browser_session_id :: "string \<Rightarrow> bool" where
  "valid_browser_session_id i = (starts_with ''brw-'' i \<and> 4 < length i \<and> length i \<le> 64 \<and>
     list_all (\<lambda>c. is_ascii_lowercase c \<or> is_ascii_digit c \<or> c = CHR ''-'') i)"

definition browser_create_valid :: "BrowserCreateRequest \<Rightarrow> bool" where
  "browser_create_valid q = (bc_schema_version q = BROWSER_SCHEMA_VERSION \<and> bc_mode q = ''human_surface'')"

definition browser_navigate_valid :: "BrowserNavigateRequest \<Rightarrow> bool" where
  "browser_navigate_valid q = (bn_schema_version q = BROWSER_SCHEMA_VERSION \<and> valid_browser_session_id (bn_session_id q))"

definition browser_load_failed_valid :: "BrowserLoadFailedRequest \<Rightarrow> bool" where
  "browser_load_failed_valid q = (bf_schema_version q = BROWSER_SCHEMA_VERSION \<and>
     valid_browser_session_id (bf_session_id q) \<and> str_trim (bf_message q) \<noteq> [])"

definition lifecycle_event :: "nat \<Rightarrow> string \<Rightarrow> BrowserLifecycleKind \<Rightarrow> BrowserLifecycleEvent" where
  "lifecycle_event now i kind = \<lparr>bl_session_id = i, bl_kind = kind, bl_occurred_at = now, bl_url = None\<rparr>"

definition browser_public_report :: "BrowserSession \<Rightarrow> BrowserReport" where
  "browser_public_report s = \<lparr>br_schema_version = BROWSER_SCHEMA_VERSION, br_session_id = rp_session_id s,
     br_state = browser_state_str (rp_state s), br_mode = ''human_surface'', br_current_url = rp_current_url s,
     br_created_at = rp_created_at s, br_last_activity = rp_last_activity s, br_error = rp_error s\<rparr>"

section \<open>The browser host\<close>

record BrowserHost =
  bh_registry :: SessionRegistry
  bh_owners :: "(string, nat) hashmap"

definition new_browser_host :: BrowserHost where
  "new_browser_host = \<lparr>bh_registry = new_registry, bh_owners = []\<rparr>"

text \<open>The clock readings of one request: in the registry, for its audit event, and for the lifecycle event.\<close>

record brw_inputs =
  bi_now :: nat
  bi_later :: nat
  bi_event :: nat

definition host_create :: "brw_inputs \<Rightarrow> nat \<Rightarrow> BrowserHost \<Rightarrow> (BrowserReport, BrowserError) result \<times> BrowserHost" where
  "host_create inp owner h =
     (case browser_create (bi_now inp) (bh_registry h) of
        (Err e, r) \<Rightarrow> (Err e, h\<lparr>bh_registry := r\<rparr>)
      | (Ok s, r) \<Rightarrow>
          (Ok (browser_public_report s), h\<lparr>bh_registry := r, bh_owners := hm_insert (rp_session_id s) owner (bh_owners h)\<rparr>))"

definition host_close :: "brw_inputs \<Rightarrow> string \<Rightarrow> BrowserHost \<Rightarrow> (BrowserReport, BrowserError) result \<times> BrowserHost" where
  "host_close inp i h =
     (case browser_close (bi_now inp) (bi_later inp) i (bh_registry h) of
        (Err e, r) \<Rightarrow> (Err e, h\<lparr>bh_registry := r\<rparr>)
      | (Ok s, r) \<Rightarrow> (Ok (browser_public_report s), h\<lparr>bh_registry := r, bh_owners := hm_remove i (bh_owners h)\<rparr>))"

definition browser_owner :: "string \<Rightarrow> BrowserHost \<Rightarrow> nat option" where
  "browser_owner i h = hm_get (bh_owners h) i"

definition release_connection_ownership :: "nat \<Rightarrow> BrowserHost \<Rightarrow> BrowserHost" where
  "release_connection_ownership key h = h\<lparr>bh_owners := hm_retain (\<lambda>_ owner. owner \<noteq> key) (bh_owners h)\<rparr>"

definition browser_reports :: "BrowserHost \<Rightarrow> BrowserReport list" where
  "browser_reports h = map browser_public_report (filter (\<lambda>s. rp_state s \<noteq> Brw_Closed) (browser_list (bh_registry h)))"

definition browser_session_count :: "BrowserHost \<Rightarrow> nat" where
  "browser_session_count h = length (browser_reports h)"

section \<open>Envelope handlers\<close>

record 'v browser_codec =
  bd_create :: "'v \<Rightarrow> (BrowserCreateRequest, string) result"
  bd_close :: "'v \<Rightarrow> (BrowserCloseRequest, string) result"
  bd_navigate :: "'v \<Rightarrow> (BrowserNavigateRequest, string) result"
  bd_load_failed :: "'v \<Rightarrow> (BrowserLoadFailedRequest, string) result"
  bd_of_report :: "BrowserReport \<Rightarrow> 'v"
  bd_of_list :: "BrowserReport list \<Rightarrow> 'v"
  bd_of_status :: "BrowserReport list \<Rightarrow> nat \<Rightarrow> 'v"

fun map_browser_error :: "BrowserError \<Rightarrow> DaemonMethodError" where
  "map_browser_error Brw_NotFound = failed EC_Unavailable ''browser session is unknown or already closed'' False"
| "map_browser_error Brw_SessionClosed = failed EC_Unavailable ''browser session is already closed'' False"
| "map_browser_error (Brw_InvalidUrl _) = failed EC_MalformedMessage ''url rejected by the browser navigation policy'' False"
| "map_browser_error Brw_Other = failed EC_Unavailable ''browser provider state is unavailable'' True"

definition browser_check_owner :: "nat \<Rightarrow> string \<Rightarrow> BrowserHost \<Rightarrow> (unit, DaemonMethodError) result" where
  "browser_check_owner key i h =
     (case browser_owner i h of
        Some owner \<Rightarrow>
          if owner \<noteq> key then Err (failed EC_NotProcessOwner ''browser session is owned by another connection'' False) else Ok ()
      | None \<Rightarrow>
          (case browser_get i (bh_registry h) of
             Ok _ \<Rightarrow> Ok ()
           | Err _ \<Rightarrow> Err (failed EC_Unavailable ''browser session is unknown or already closed'' False)))"

definition handle_browser_create ::
  "'v browser_codec \<Rightarrow> brw_inputs \<Rightarrow> nat \<Rightarrow> 'v \<Rightarrow> BrowserHost \<Rightarrow> EventRouter \<Rightarrow>
   ('v, DaemonMethodError) result \<times> BrowserHost \<times> EventRouter" where
  "handle_browser_create C inp key payload h ev =
     (case parse_request ''browser.create'' (bd_create C) payload of
        Err e \<Rightarrow> (Err e, h, ev)
      | Ok q \<Rightarrow>
          if \<not> browser_create_valid q then
            (Err (failed EC_MalformedMessage ''browser.create request is malformed (schemaVersion must be 1 and mode must be human_surface)'' False), h, ev)
          else case host_create inp key h of
            (Err e, h1) \<Rightarrow> (Err (map_browser_error e), h1, ev)
          | (Ok rep, h1) \<Rightarrow>
              (Ok (bd_of_report C rep), h1,
               publish (Router_Browser (lifecycle_event (bi_event inp) (br_session_id rep) Life_Created))
                 (subscribe key (br_session_id rep) ev)))"

definition handle_browser_close ::
  "'v browser_codec \<Rightarrow> brw_inputs \<Rightarrow> nat \<Rightarrow> 'v \<Rightarrow> BrowserHost \<Rightarrow> EventRouter \<Rightarrow>
   ('v, DaemonMethodError) result \<times> BrowserHost \<times> EventRouter" where
  "handle_browser_close C inp key payload h ev =
     (case parse_request ''browser.close'' (bd_close C) payload of
        Err e \<Rightarrow> (Err e, h, ev)
      | Ok q \<Rightarrow>
          if bx_schema_version q \<noteq> BROWSER_SCHEMA_VERSION \<or> \<not> valid_browser_session_id (bx_session_id q) then
            (Err (failed EC_MalformedMessage ''browser.close request is malformed'' False), h, ev)
          else case browser_check_owner key (bx_session_id q) h of
            Err e \<Rightarrow> (Err e, h, ev)
          | Ok _ \<Rightarrow>
              (case host_close inp (bx_session_id q) h of
                 (Err e, h1) \<Rightarrow> (Err (map_browser_error e), h1, ev)
               | (Ok rep, h1) \<Rightarrow>
                   (Ok (bd_of_report C rep), h1,
                    unsubscribe key (bx_session_id q)
                      (publish (Router_Browser (lifecycle_event (bi_event inp) (bx_session_id q) Life_Closed)) ev))))"

definition handle_browser_navigate ::
  "'v browser_codec \<Rightarrow> brw_inputs \<Rightarrow> nat \<Rightarrow> 'v \<Rightarrow> BrowserHost \<Rightarrow> ('v, DaemonMethodError) result \<times> BrowserHost" where
  "handle_browser_navigate C inp key payload h =
     (case parse_request ''browser.navigate'' (bd_navigate C) payload of
        Err e \<Rightarrow> (Err e, h)
      | Ok q \<Rightarrow>
          if \<not> browser_navigate_valid q then
            (Err (failed EC_MalformedMessage ''browser.navigate request is malformed (schemaVersion must be 1 and sessionId must be a valid session id)'' False), h)
          else case browser_check_owner key (bn_session_id q) h of
            Err e \<Rightarrow> (Err e, h)
          | Ok _ \<Rightarrow>
              (case record_navigation (bi_now inp) (bi_later inp) (bn_session_id q) (bn_url q) (bh_registry h) of
                 (Err e, r) \<Rightarrow> (Err (map_browser_error e), h\<lparr>bh_registry := r\<rparr>)
               | (Ok s, r) \<Rightarrow> (Ok (bd_of_report C (browser_public_report s)), h\<lparr>bh_registry := r\<rparr>)))"

definition handle_browser_load_failed ::
  "'v browser_codec \<Rightarrow> brw_inputs \<Rightarrow> nat \<Rightarrow> 'v \<Rightarrow> BrowserHost \<Rightarrow> ('v, DaemonMethodError) result \<times> BrowserHost" where
  "handle_browser_load_failed C inp key payload h =
     (case parse_request ''browser.load-failed'' (bd_load_failed C) payload of
        Err e \<Rightarrow> (Err e, h)
      | Ok q \<Rightarrow>
          if \<not> browser_load_failed_valid q then
            (Err (failed EC_MalformedMessage ''browser.load-failed request is malformed (schemaVersion must be 1, sessionId valid and message non-empty)'' False), h)
          else case browser_check_owner key (bf_session_id q) h of
            Err e \<Rightarrow> (Err e, h)
          | Ok _ \<Rightarrow>
              (case mark_load_failed (bi_now inp) (bi_later inp) (bf_session_id q) (bf_message q) (bh_registry h) of
                 (Err e, r) \<Rightarrow> (Err (map_browser_error e), h\<lparr>bh_registry := r\<rparr>)
               | (Ok s, r) \<Rightarrow> (Ok (bd_of_report C (browser_public_report s)), h\<lparr>bh_registry := r\<rparr>)))"

definition handle_browser_list :: "'v browser_codec \<Rightarrow> BrowserHost \<Rightarrow> ('v, DaemonMethodError) result" where
  "handle_browser_list C h = Ok (bd_of_list C (browser_reports h))"

definition handle_browser_status :: "'v browser_codec \<Rightarrow> BrowserHost \<Rightarrow> ('v, DaemonMethodError) result" where
  "handle_browser_status C h = (let sessions = browser_reports h in Ok (bd_of_status C sessions (length sessions)))"

section \<open>All requests together\<close>

text \<open>A request of some connection, or the end of one.\<close>

datatype 'v browser_call =
    B_Create brw_inputs nat 'v
  | B_Close brw_inputs nat 'v
  | B_Navigate brw_inputs nat 'v
  | B_LoadFailed brw_inputs nat 'v
  | B_Disconnect nat

fun browser_key :: "'v browser_call \<Rightarrow> nat" where
  "browser_key (B_Create inp key v) = key"
| "browser_key (B_Close inp key v) = key"
| "browser_key (B_Navigate inp key v) = key"
| "browser_key (B_LoadFailed inp key v) = key"
| "browser_key (B_Disconnect key) = key"

fun browser_exec :: "'v browser_codec \<Rightarrow> 'v browser_call \<Rightarrow> BrowserHost \<times> EventRouter \<Rightarrow> BrowserHost \<times> EventRouter" where
  "browser_exec C (B_Create inp key v) (h, ev) = snd (handle_browser_create C inp key v h ev)"
| "browser_exec C (B_Close inp key v) (h, ev) = snd (handle_browser_close C inp key v h ev)"
| "browser_exec C (B_Navigate inp key v) (h, ev) = (snd (handle_browser_navigate C inp key v h), ev)"
| "browser_exec C (B_LoadFailed inp key v) (h, ev) = (snd (handle_browser_load_failed C inp key v h), ev)"
| "browser_exec C (B_Disconnect key) (h, ev) = (release_connection_ownership key h, unsubscribe_all key ev)"

definition browser_step ::
  "'v browser_codec \<Rightarrow> BrowserHost \<times> EventRouter \<Rightarrow> 'v browser_call \<Rightarrow> BrowserHost \<times> EventRouter \<Rightarrow> bool" where
  "browser_step C w e w' = (w' = browser_exec C e w)"

section \<open>Invariant\<close>

text \<open>What the host holds of a session: its registry entry and its owner.\<close>

definition browser_view :: "string \<Rightarrow> BrowserHost \<Rightarrow> BrowserEntry option \<times> nat option" where
  "browser_view i h = (hm_get (sr_sessions (bh_registry h)) i, browser_owner i h)"

text \<open>The registry is sound and only live sessions have an owner.\<close>

definition browser_inv :: "BrowserHost \<Rightarrow> bool" where
  "browser_inv h = (registry_inv (bh_registry h) \<and> hm_wf (bh_owners h) \<and>
     (\<forall>i key. browser_owner i h = Some key \<longrightarrow>
        (\<exists>s. hm_get (sr_sessions (bh_registry h)) i = Some s \<and> rp_state s \<noteq> Brw_Closed)))"

text \<open>A change of the one session \<open>i\<close> that does not close it.\<close>

definition steers :: "string \<Rightarrow> SessionRegistry \<Rightarrow> SessionRegistry \<Rightarrow> bool" where
  "steers i r r' = ((\<forall>j. j \<noteq> i \<longrightarrow> hm_get (sr_sessions r') j = hm_get (sr_sessions r) j) \<and>
     (\<forall>s. hm_get (sr_sessions r) i = Some s \<and> rp_state s \<noteq> Brw_Closed \<longrightarrow>
        (\<exists>s'. hm_get (sr_sessions r') i = Some s' \<and> rp_state s' \<noteq> Brw_Closed)))"

lemma on_live_steers:
  assumes "\<And>s. rp_state (f s) \<noteq> Brw_Closed"
  shows "steers i r (case on_live i f r of (Err e, r1) \<Rightarrow> r1 | (Ok s, r1) \<Rightarrow> push_event (E s) r1)"
  using on_live_cases [of i f r]
proof cases
  case (refused e)
  thus ?thesis by (simp add: steers_def)
next
  case (live s)
  thus ?thesis using assms by (simp add: steers_def hm_get_insert push_event_def)
qed

lemma record_navigation_steers: "steers i r (snd (record_navigation now later i url r))"
proof (cases "validate_url url")
  case (Ok u)
  have "steers i r (snd (go_to Brw_Ready now later i url r))"
    unfolding go_to_def Ok result.case snd_case_live by (rule on_live_steers) (simp add: touch_def)
  thus ?thesis by (simp add: record_navigation_def)
qed (simp add: record_navigation_def go_to_def steers_def)

lemma mark_load_failed_steers: "steers i r (snd (mark_load_failed now later i message r))"
  unfolding mark_load_failed_def Let_def snd_case_live by (rule on_live_steers) (simp add: touch_def)

lemma browser_close_cases:
  obtains (refused) e where "browser_close now later i r = (Err e, r)"
  | (closed) s s' r' where "hm_get (sr_sessions r) i = Some s" "rp_state s \<noteq> Brw_Closed" "rp_state s' = Brw_Closed"
      "browser_close now later i r = (Ok (report s'), r')" "sr_sessions r' = hm_insert i s' (sr_sessions r)"
  using on_live_cases [of i "\<lambda>s. touch now (s\<lparr>rp_state := Brw_Closed\<rparr>)" r]
proof cases
  case (refused e)
  thus ?thesis using that(1) by (simp add: browser_close_def)
next
  case (live s)
  let ?s = "touch now (s\<lparr>rp_state := Brw_Closed\<rparr>)"
  have "rp_state ?s = Brw_Closed" by (simp add: touch_def)
  thus ?thesis using that(2) [OF live(1,2), of ?s] unfolding browser_close_def live(3) by (simp add: push_event_def)
qed

text \<open>The effect of one request: none, a new session, a change or the end of a session the caller may manage, or a release.\<close>

lemma browser_exec_cases:
  assumes "browser_exec C e (h, ev) = (h', ev')"
  obtains (same) "h' = h"
  | (created) now where "h' = h\<lparr>bh_registry := registry_exec (R_Create now) (bh_registry h),
        bh_owners := hm_insert (browser_id now (sr_next_seq (bh_registry h))) (browser_key e) (bh_owners h)\<rparr>"
  | (steered) i op where "browser_check_owner (browser_key e) i h = Ok ()"
      "h' = h\<lparr>bh_registry := registry_exec op (bh_registry h)\<rparr>" "steers i (bh_registry h) (registry_exec op (bh_registry h))"
  | (closed) i op s s' where "browser_check_owner (browser_key e) i h = Ok ()" "hm_get (sr_sessions (bh_registry h)) i = Some s"
      "rp_state s' = Brw_Closed" "sr_sessions (registry_exec op (bh_registry h)) = hm_insert i s' (sr_sessions (bh_registry h))"
      "h' = h\<lparr>bh_registry := registry_exec op (bh_registry h), bh_owners := hm_remove i (bh_owners h)\<rparr>"
  | (released) key where "e = B_Disconnect key" "h' = release_connection_ownership key h"
proof (cases e)
  case (B_Create inp key v)
  have h': "h' = fst (snd (handle_browser_create C inp key v h ev))" using assms by (simp add: B_Create)
  show ?thesis
  proof (cases "h' = h")
    case False
    then obtain q where "parse_request ''browser.create'' (bd_create C) v = Ok q" "browser_create_valid q"
      using h' by (auto simp: handle_browser_create_def split: result.splits if_splits)
    thus ?thesis using that(2) [of "bi_now inp"] h'
      by (simp add: handle_browser_create_def host_create_def browser_create_def report_def BrowserSession.truncate_def Let_def B_Create)
  qed (rule that(1))
next
  case (B_Close inp key v)
  have h': "h' = fst (snd (handle_browser_close C inp key v h ev))" using assms by (simp add: B_Close)
  show ?thesis
  proof (cases "h' = h")
    case False
    then obtain q where q: "parse_request ''browser.close'' (bd_close C) v = Ok q"
        "bx_schema_version q = BROWSER_SCHEMA_VERSION" "valid_browser_session_id (bx_session_id q)"
        "browser_check_owner key (bx_session_id q) h = Ok ()"
      using h' by (auto simp: handle_browser_close_def split: result.splits if_splits)
    let ?op = "R_Close (bi_now inp) (bi_later inp) (bx_session_id q)"
    from browser_close_cases [of "bi_now inp" "bi_later inp" "bx_session_id q" "bh_registry h"] show ?thesis
    proof cases
      case (refused e)
      hence "h' = h" using h' q by (simp add: handle_browser_close_def host_close_def)
      thus ?thesis using False by simp
    next
      case (closed s s' r')
      have "h' = h\<lparr>bh_registry := registry_exec ?op (bh_registry h), bh_owners := hm_remove (bx_session_id q) (bh_owners h)\<rparr>"
        using h' q closed(4) by (simp add: handle_browser_close_def host_close_def)
      thus ?thesis using that(4) [of "bx_session_id q" s s' ?op] closed q(4) by (simp add: B_Close)
    qed
  qed (rule that(1))
next
  case (B_Navigate inp key v)
  have h': "h' = snd (handle_browser_navigate C inp key v h)" using assms by (simp add: B_Navigate)
  show ?thesis
  proof (cases "h' = h")
    case False
    then obtain q where q: "parse_request ''browser.navigate'' (bd_navigate C) v = Ok q" "browser_navigate_valid q"
        "browser_check_owner key (bn_session_id q) h = Ok ()"
      using h' by (auto simp: handle_browser_navigate_def split: result.splits if_splits)
    let ?op = "R_Record (bi_now inp) (bi_later inp) (bn_session_id q) (bn_url q)"
    have "h' = h\<lparr>bh_registry := registry_exec ?op (bh_registry h)\<rparr>"
      using h' q by (simp add: handle_browser_navigate_def split: result.splits prod.splits)
    thus ?thesis using that(3) [of "bn_session_id q" ?op] q(3) record_navigation_steers by (simp add: B_Navigate)
  qed (rule that(1))
next
  case (B_LoadFailed inp key v)
  have h': "h' = snd (handle_browser_load_failed C inp key v h)" using assms by (simp add: B_LoadFailed)
  show ?thesis
  proof (cases "h' = h")
    case False
    then obtain q where q: "parse_request ''browser.load-failed'' (bd_load_failed C) v = Ok q" "browser_load_failed_valid q"
        "browser_check_owner key (bf_session_id q) h = Ok ()"
      using h' by (auto simp: handle_browser_load_failed_def split: result.splits if_splits)
    let ?op = "R_Failed (bi_now inp) (bi_later inp) (bf_session_id q) (bf_message q)"
    have "h' = h\<lparr>bh_registry := registry_exec ?op (bh_registry h)\<rparr>"
      using h' q by (simp add: handle_browser_load_failed_def split: result.splits prod.splits)
    thus ?thesis using that(3) [of "bf_session_id q" ?op] q(3) mark_load_failed_steers by (simp add: B_LoadFailed)
  qed (rule that(1))
next
  case (B_Disconnect key)
  thus ?thesis using assms that(5) by simp
qed

lemma browser_invD:
  assumes "browser_inv h"
  shows "registry_inv (bh_registry h)" "hm_wf (bh_owners h)"
    and "hm_get (bh_owners h) i = Some key \<Longrightarrow> \<exists>s. hm_get (sr_sessions (bh_registry h)) i = Some s \<and> rp_state s \<noteq> Brw_Closed"
  using assms unfolding browser_inv_def browser_owner_def by blast+

lemma browser_invI:
  assumes "registry_inv (bh_registry h)" "hm_wf (bh_owners h)"
    and "\<And>i key. hm_get (bh_owners h) i = Some key \<Longrightarrow> \<exists>s. hm_get (sr_sessions (bh_registry h)) i = Some s \<and> rp_state s \<noteq> Brw_Closed"
  shows "browser_inv h"
  using assms unfolding browser_inv_def browser_owner_def by blast

lemma browser_exec_inv:
  assumes "browser_exec C e (h, ev) = (h', ev')" and "browser_inv h"
  shows "browser_inv h'"
  using assms(1)
proof (cases rule: browser_exec_cases)
  case (created now)
  let ?i = "browser_id now (sr_next_seq (bh_registry h))"
  show ?thesis
  proof (rule browser_invI)
    fix i key
    assume o: "hm_get (bh_owners h') i = Some key"
    show "\<exists>s. hm_get (sr_sessions (bh_registry h')) i = Some s \<and> rp_state s \<noteq> Brw_Closed"
      using o browser_invD(3) [OF assms(2), of i key]
      by (cases "i = ?i") (simp_all add: created browser_create_def Let_def hm_get_insert)
  qed (use created browser_invD(1,2) [OF assms(2)] create_inv hm_wf_insert in simp_all)
next
  case (steered i op)
  show ?thesis
  proof (rule browser_invI)
    fix j key
    assume "hm_get (bh_owners h') j = Some key"
    hence "\<exists>s. hm_get (sr_sessions (bh_registry h)) j = Some s \<and> rp_state s \<noteq> Brw_Closed"
      using browser_invD(3) [OF assms(2)] by (simp add: steered)
    thus "\<exists>s. hm_get (sr_sessions (bh_registry h')) j = Some s \<and> rp_state s \<noteq> Brw_Closed"
      using steered(2,3) unfolding steers_def by (cases "j = i") auto
  qed (use steered browser_invD(1,2) [OF assms(2)] registry_exec_inv in simp_all)
next
  case (closed i op s s')
  show ?thesis
  proof (rule browser_invI)
    fix j key
    assume "hm_get (bh_owners h') j = Some key"
    hence j: "j \<noteq> i" "hm_get (bh_owners h) j = Some key"
      using browser_invD(2) [OF assms(2)] by (auto simp: closed hm_get_remove split: if_splits)
    show "\<exists>s. hm_get (sr_sessions (bh_registry h')) j = Some s \<and> rp_state s \<noteq> Brw_Closed"
      using browser_invD(3) [OF assms(2) j(2)] j(1) by (simp add: closed(4,5) hm_get_insert)
  qed (use closed(5) browser_invD(1,2) [OF assms(2)] registry_exec_inv hm_wf_remove in simp_all)
next
  case (released key)
  show ?thesis
  proof (rule browser_invI)
    fix i k
    assume "hm_get (bh_owners h') i = Some k"
    hence "hm_get (bh_owners h) i = Some k"
      using browser_invD(2) [OF assms(2)]
      by (auto simp: released(2) release_connection_ownership_def hm_get_retain split: option.splits if_splits)
    thus "\<exists>s. hm_get (sr_sessions (bh_registry h')) i = Some s \<and> rp_state s \<noteq> Brw_Closed"
      using browser_invD(3) [OF assms(2)] by (simp add: released(2) release_connection_ownership_def)
  qed (use released(2) browser_invD(1,2) [OF assms(2)] hm_wf_retain in \<open>simp_all add: release_connection_ownership_def\<close>)
qed (use assms(2) in simp)

lemma browser_exec_keeps:
  assumes "browser_exec C e (h, ev) = (h', ev')" and "browser_inv h" and "hm_get (sr_sessions (bh_registry h)) i = Some s"
    and "browser_owner i h = Some key" and "browser_key e \<noteq> key"
  shows "browser_view i h' = browser_view i h"
proof -
  have ne: "j \<noteq> i" if "browser_check_owner (browser_key e) j h = Ok ()" for j
    using that assms(4,5) by (auto simp: browser_check_owner_def)
  from assms(1) show ?thesis
  proof (cases rule: browser_exec_cases)
    case (created now)
    have "i \<noteq> browser_id now (sr_next_seq (bh_registry h))"
      using create_fresh [OF browser_invD(1) [OF assms(2)]] assms(3) by force
    thus ?thesis by (simp add: created browser_view_def browser_owner_def browser_create_def Let_def hm_get_insert)
  next
    case (steered j op)
    thus ?thesis using ne [OF steered(1)] by (simp add: browser_view_def browser_owner_def steers_def)
  next
    case (closed j op s s')
    show ?thesis using ne [OF closed(1)] browser_invD(2) [OF assms(2)]
      by (simp add: closed(4,5) browser_view_def browser_owner_def hm_get_insert hm_get_remove)
  next
    case (released k)
    thus ?thesis using assms(4,5) browser_invD(2) [OF assms(2)]
      by (simp add: browser_view_def browser_owner_def release_connection_ownership_def hm_get_retain)
  qed simp
qed

interpretation browser: preserved "browser_step C" "\<lambda>w. browser_inv (fst w)" for C
  by unfold_locales (metis browser_step_def browser_exec_inv prod.collapse)

lemma new_browser_inv: "browser_inv new_browser_host"
  by (rule browser_invI) (simp_all add: new_browser_host_def new_registry_inv hm_empty hm_wf_def)

section \<open>A session for the examples\<close>

definition sample_brw_inputs :: brw_inputs where
  "sample_brw_inputs = \<lparr>bi_now = 7, bi_later = 7, bi_event = 7\<rparr>"

definition sample_browser_codec :: "unit browser_codec" where
  "sample_browser_codec = \<lparr>bd_create = (\<lambda>_. Ok \<lparr>bc_schema_version = 1, bc_mode = ''human_surface''\<rparr>),
     bd_close = (\<lambda>_. Ok \<lparr>bx_schema_version = 1, bx_session_id = ''brw-7-1''\<rparr>),
     bd_navigate = (\<lambda>_. Ok \<lparr>bn_schema_version = 1, bn_session_id = ''brw-7-1'', bn_url = ''http://a''\<rparr>),
     bd_load_failed = (\<lambda>_. Err []), bd_of_report = (\<lambda>_. ()), bd_of_list = (\<lambda>_. ()), bd_of_status = (\<lambda>_ _. ())\<rparr>"

definition sample_browser :: "BrowserHost \<times> EventRouter" where
  "sample_browser = browser_exec sample_browser_codec (B_Create sample_brw_inputs 3 ()) (new_browser_host, spawn_router)"

lemma sample_browser_eq:
  "browser_view ''brw-7-1'' (fst sample_browser) =
     (Some \<lparr>rp_session_id = ''brw-7-1'', rp_state = Brw_Created, rp_current_url = None, rp_created_at = 7, rp_last_activity = None,
        rp_error = None, rp_snapshot = None, rp_title = None\<rparr>, Some 3)"
proof -
  have "browser_id 7 1 = ''brw-7-1''" by code_simp
  thus ?thesis
    by (simp add: sample_browser_def sample_browser_codec_def sample_brw_inputs_def handle_browser_create_def parse_request_def
        browser_create_valid_def BROWSER_SCHEMA_VERSION_def host_create_def browser_create_def report_def BrowserSession.truncate_def
        new_browser_host_def new_registry_def browser_view_def browser_owner_def hm_get_insert hm_empty Let_def)
qed

lemma sample_browser_run:
  "run (browser_step sample_browser_codec) (new_browser_host, spawn_router) [B_Create sample_brw_inputs 3 ()] sample_browser"
  by (rule run_cons [where step = "browser_step sample_browser_codec", OF _ run_nil]) (simp add: browser_step_def sample_browser_def)

section \<open>Properties\<close>

text \<open>
  While its connection lives, a browser session belongs to it alone: in every history of requests and disconnections, a
  session that has an owner is live, and no request or disconnection of another connection changes its state or its owner.
\<close>

lemma browser_owner_exclusive:
  assumes "run (browser_step C) (new_browser_host, ev0) es (h, ev)" and "browser_owner i h = Some key"
    and "browser_exec C e (h, ev) = (h', ev')" and "browser_key e \<noteq> key"
  shows "browser_view i h' = browser_view i h \<and>
    (\<exists>s. hm_get (sr_sessions (bh_registry h)) i = Some s \<and> rp_state s \<noteq> Brw_Closed)"
proof -
  have inv: "browser_inv h" using browser.run_inv [OF assms(1)] new_browser_inv by simp
  then obtain s where s: "hm_get (sr_sessions (bh_registry h)) i = Some s" "rp_state s \<noteq> Brw_Closed"
    using browser_invD(3) [OF inv] assms(2) unfolding browser_owner_def by blast
  show ?thesis using browser_exec_keeps [OF assms(3) inv s(1) assms(2,4)] s by blast
qed



end
