(* ===== verification/Managed_Environment.thy ===== *)
theory Managed_Environment
  imports Browser_Host
begin

text \<open>
  What the managed runtime decides without its lock: the environment catalog and its validation
  (\<open>crates/managed-runtime/src/environment.rs\<close>), the launch recipe, the reader of the child's output and the check of the
  endpoint it announces (\<open>supervisor.rs\<close>). Paths are strings with the Unix rules. The file system, the decoded JSON of the
  catalog file and the \<open>url\<close> crate are parameters.
\<close>

section \<open>Environments\<close>

definition CATALOG_SCHEMA_VERSION :: nat where
  "CATALOG_SCHEMA_VERSION = 1"

definition MAX_ENVIRONMENTS :: nat where
  "MAX_ENVIRONMENTS = 128"

definition RESERVED_ARGUMENTS :: "string list" where
  "RESERVED_ARGUMENTS = [''--host'', ''--port'', ''--no-open'', ''--trusted-host'']"

datatype HarnessMode = Repository | Executable | Command

record HarnessSource =
  hs_mode :: HarnessMode
  hs_path :: string
  hs_cwd :: "string option"
  hs_args :: "string list"

datatype EndpointPort = Port_Named string | Port_Fixed nat

record Endpoint =
  ep_host :: string
  ep_port :: EndpointPort

datatype Ownership = Own_Managed | Own_Attached

record EnvironmentPolicy =
  po_auto_restart :: "bool option"
  po_native_adapter :: "bool option"

record ManagedEnvironment =
  me_schema_version :: nat
  me_id :: string
  me_label :: string
  me_harness :: HarnessSource
  me_dsh_home :: string
  me_profile :: string
  me_node_path :: "string option"
  me_endpoint :: Endpoint
  me_ownership :: Ownership
  me_policy :: "EnvironmentPolicy option"

definition is_managed :: "ManagedEnvironment \<Rightarrow> bool" where
  "is_managed e = (me_ownership e = Own_Managed)"

definition managed_expected_port :: "ManagedEnvironment \<Rightarrow> nat option" where
  "managed_expected_port e = (case ep_port (me_endpoint e) of Port_Fixed p \<Rightarrow> Some p | Port_Named _ \<Rightarrow> None)"

definition is_valid_id :: "string \<Rightarrow> bool" where
  "is_valid_id v = (2 \<le> length v \<and> length v \<le> 64 \<and> is_ascii_lowercase (hd v) \<and>
     list_all (\<lambda>c. is_ascii_lowercase c \<or> is_ascii_digit c \<or> c = CHR ''-'') v)"

fun is_valid_port :: "EndpointPort \<Rightarrow> bool" where
  "is_valid_port (Port_Named v) = (v = ''auto'')"
| "is_valid_port (Port_Fixed p) = (1024 \<le> p)"

definition is_reserved_argument :: "string \<Rightarrow> bool" where
  "is_reserved_argument a = list_ex (\<lambda>reserved. a = reserved \<or> starts_with (reserved @ ''='') a) RESERVED_ARGUMENTS"

text \<open>\<open>Path::is_absolute\<close> and \<open>Path::join\<close> on Unix.\<close>

definition is_absolute :: "string \<Rightarrow> bool" where
  "is_absolute p = starts_with ''/'' p"

definition path_join :: "string \<Rightarrow> string \<Rightarrow> string" where
  "path_join base p =
     (if is_absolute p then p else if base = [] \<or> last base = CHR ''/'' then base @ p else base @ ''/'' @ p)"

definition environment_is_valid :: "ManagedEnvironment \<Rightarrow> bool" where
  "environment_is_valid e =
     (if me_schema_version e \<noteq> CATALOG_SCHEMA_VERSION then False
      else if \<not> is_valid_id (me_id e) then False
      else if str_trim (me_label e) = [] \<or> 128 < chars_count (me_label e) then False
      else if str_trim (hs_path (me_harness e)) = [] then False
      else if str_trim (me_dsh_home e) = [] \<or> str_trim (me_profile e) = [] then False
      else if ep_host (me_endpoint e) \<noteq> ''127.0.0.1'' then False
      else if \<not> is_valid_port (ep_port (me_endpoint e)) then False
      else if 64 < length (hs_args (me_harness e)) \<or> list_ex is_reserved_argument (hs_args (me_harness e)) then False
      else case me_node_path e of
        None \<Rightarrow> True
      | Some node \<Rightarrow>
          if str_trim node = [] \<or> \<not> is_absolute node then False
          else if hs_mode (me_harness e) \<noteq> Repository \<or> \<not> is_managed e then False
          else True)"

section \<open>The catalog\<close>

record EnvironmentCatalog =
  ec_schema_version :: nat
  ec_revision :: nat
  ec_active :: "string option"
  ec_environments :: "ManagedEnvironment list"

datatype CatalogError = Catalog_Corrupt | Catalog_Unavailable

text \<open>The catalog file: missing, unreadable, or its content after JSON decoding.\<close>

datatype catalog_file = No_File | Unreadable | Decoded "EnvironmentCatalog option"

definition empty_catalog :: EnvironmentCatalog where
  "empty_catalog = \<lparr>ec_schema_version = CATALOG_SCHEMA_VERSION, ec_revision = 0, ec_active = None, ec_environments = []\<rparr>"

definition catalog_environment :: "string \<Rightarrow> EnvironmentCatalog \<Rightarrow> ManagedEnvironment option" where
  "catalog_environment i c = find (\<lambda>e. me_id e = i) (ec_environments c)"

fun check_environments :: "ManagedEnvironment list \<Rightarrow> string list \<Rightarrow> (string list, CatalogError) result" where
  "check_environments [] ids = Ok ids"
| "check_environments (e # es) ids =
     (if me_id e \<in> set ids \<or> \<not> environment_is_valid e then Err Catalog_Corrupt else check_environments es (me_id e # ids))"

definition validate_catalog :: "EnvironmentCatalog \<Rightarrow> (unit, CatalogError) result" where
  "validate_catalog c =
     (if ec_schema_version c \<noteq> CATALOG_SCHEMA_VERSION \<or> MAX_ENVIRONMENTS < length (ec_environments c) then Err Catalog_Corrupt
      else case check_environments (ec_environments c) [] of
        Err e \<Rightarrow> Err e
      | Ok ids \<Rightarrow>
          (case ec_active c of
             None \<Rightarrow> Ok ()
           | Some a \<Rightarrow> if a \<notin> set ids then Err Catalog_Corrupt else Ok ()))"

fun load_catalog :: "catalog_file \<Rightarrow> (EnvironmentCatalog, CatalogError) result" where
  "load_catalog No_File = Ok empty_catalog"
| "load_catalog Unreadable = Err Catalog_Unavailable"
| "load_catalog (Decoded None) = Err Catalog_Corrupt"
| "load_catalog (Decoded (Some c)) = (case validate_catalog c of Err e \<Rightarrow> Err e | Ok _ \<Rightarrow> Ok c)"

section \<open>The launch recipe\<close>

datatype ManagedRuntimeError =
    NotManaged | InvalidEnvironment | UnsupportedSource | NodeOverrideUnsupported | SpawnFailed string | ProcessTreeFailed string
  | RuntimeUnavailable string | Rt_Conflict | StaleGeneration | CandidateInvalid | CandidatePortMismatch | ProcessExited
  | ReadinessTimeout | StopFailed | EndpointStillReachable | SurfaceBindingUnavailable | Rt_StateUnavailable | ClockUnavailable

record LaunchSpec =
  ls_executable :: string
  ls_args :: "string list"
  ls_cwd :: "string option"
  ls_environment :: "(string \<times> string) list"
  ls_expected_port :: "nat option"

text \<open>The file system, the \<open>PATH\<close> directories, and \<open>Url::from_file_path\<close>.\<close>

record file_system =
  fs_is_dir :: "string \<Rightarrow> bool"
  fs_is_file :: "string \<Rightarrow> bool"
  fs_path_dirs :: "string list option"
  fs_file_url :: "string \<Rightarrow> string option"

definition REPO_CLI_ENTRY_REL :: string where
  "REPO_CLI_ENTRY_REL = ''apps/cli/src/bin.ts''"

definition REPO_TS_LOADER_REL :: string where
  "REPO_TS_LOADER_REL = ''scripts/register-tsx-esm.mjs''"

definition find_on_path :: "file_system \<Rightarrow> string \<Rightarrow> string option" where
  "find_on_path F exe =
     (case fs_path_dirs F of
        None \<Rightarrow> None
      | Some dirs \<Rightarrow> find (fs_is_file F) (map (\<lambda>d. path_join d exe) dirs))"

definition resolve_node :: "file_system \<Rightarrow> string option \<Rightarrow> (string, ManagedRuntimeError) result" where
  "resolve_node F node_path =
     (case node_path of
        Some p \<Rightarrow> Ok p
      | None \<Rightarrow> ok_or NodeOverrideUnsupported (find_on_path F ''node''))"

definition dsh_arguments :: "ManagedEnvironment \<Rightarrow> string \<Rightarrow> string list" where
  "dsh_arguments e port_argument =
     (if me_profile e = ''default'' then [''web''] else [''--profile'', me_profile e]) @
     [''--host'', ''127.0.0.1'', ''--port'', port_argument, ''--no-open''] @ hs_args (me_harness e)"

definition dsh_home_environment :: "ManagedEnvironment \<Rightarrow> (string \<times> string) list" where
  "dsh_home_environment e = [(''DSH_HOME'', me_dsh_home e)]"

definition non_empty :: "string option \<Rightarrow> string option" where
  "non_empty v = (case v of None \<Rightarrow> None | Some s \<Rightarrow> if s = [] then None else Some s)"

definition build_launch_spec :: "file_system \<Rightarrow> ManagedEnvironment \<Rightarrow> (LaunchSpec, ManagedRuntimeError) result" where
  "build_launch_spec F e =
     (if \<not> is_managed e then Err NotManaged
      else if \<not> environment_is_valid e then Err InvalidEnvironment
      else
        let repo = hs_path (me_harness e);
            node_path = non_empty (me_node_path e);
            mode = hs_mode (me_harness e);
            port = managed_expected_port e;
            port_argument = show_nat (case port of None \<Rightarrow> 0 | Some p \<Rightarrow> p)
        in if mode \<noteq> Repository \<and> node_path \<noteq> None then Err NodeOverrideUnsupported
           else if (case node_path of None \<Rightarrow> False | Some p \<Rightarrow> \<not> is_absolute p \<or> \<not> fs_is_file F p) then Err NodeOverrideUnsupported
           else if mode = Repository then
             let entry = path_join repo REPO_CLI_ENTRY_REL
             in if \<not> fs_is_dir F repo \<or> \<not> fs_is_file F entry then Err UnsupportedSource
                else case resolve_node F node_path of
                  Err x \<Rightarrow> Err x
                | Ok executable \<Rightarrow>
                    let loader = path_join repo REPO_TS_LOADER_REL
                    in case (if fs_is_file F loader then ok_or UnsupportedSource (fs_file_url F loader)
                             else if fs_is_file F (path_join repo ''node_modules/tsx/package.json'') then Ok ''tsx/esm''
                             else Err UnsupportedSource) of
                         Err x \<Rightarrow> Err x
                       | Ok loader_arg \<Rightarrow>
                           Ok \<lparr>ls_executable = executable,
                               ls_args = [''--import'', loader_arg, entry] @ dsh_arguments e port_argument,
                               ls_cwd = Some (case non_empty (hs_cwd (me_harness e)) of None \<Rightarrow> repo | Some d \<Rightarrow> d),
                               ls_environment = dsh_home_environment e, ls_expected_port = port\<rparr>
           else
             Ok \<lparr>ls_executable = repo, ls_args = dsh_arguments e port_argument, ls_cwd = hs_cwd (me_harness e),
                 ls_environment = dsh_home_environment e, ls_expected_port = port\<rparr>)"

section \<open>The announced endpoint\<close>

definition MAX_OUTPUT_LINE_BYTES :: nat where
  "MAX_OUTPUT_LINE_BYTES = 2048"

definition OUTPUT_MARKER :: string where
  "OUTPUT_MARKER = ''dsh web:''"

text \<open>The state of one output reader: the current line, whether it is too long, and the candidates it has sent.\<close>

record output_reader =
  rd_line :: string
  rd_overflow :: bool
  rd_sent :: "string list"

definition line_candidate :: "string \<Rightarrow> string option" where
  "line_candidate line =
     (if \<not> utf8_valid line then None
      else map_option str_trim (strip_prefix OUTPUT_MARKER (str_trim line)))"

definition maybe_send_candidate :: "string \<Rightarrow> output_reader \<Rightarrow> output_reader" where
  "maybe_send_candidate line r =
     (case line_candidate line of None \<Rightarrow> r | Some c \<Rightarrow> r\<lparr>rd_sent := rd_sent r @ [c]\<rparr>)"

definition read_byte :: "char \<Rightarrow> output_reader \<Rightarrow> output_reader" where
  "read_byte b r =
     (if byte_of b = 10 then
        (if rd_overflow r then r else maybe_send_candidate (rd_line r) r)\<lparr>rd_line := [], rd_overflow := False\<rparr>
      else if byte_of b \<noteq> 13 then
        (if length (rd_line r) < MAX_OUTPUT_LINE_BYTES then r\<lparr>rd_line := rd_line r @ [b]\<rparr> else r\<lparr>rd_overflow := True\<rparr>)
      else r)"

definition read_output :: "string list \<Rightarrow> string list" where
  "read_output chunks =
     (let r = fold (fold read_byte) chunks \<lparr>rd_line = [], rd_overflow = False, rd_sent = []\<rparr>
      in rd_sent (if rd_line r \<noteq> [] \<and> \<not> rd_overflow r then maybe_send_candidate (rd_line r) r else r))"

record ManagedEndpoint =
  en_scheme :: string
  en_host :: string
  en_port :: nat
  en_source :: string
  en_verification :: string

text \<open>The \<open>url\<close> crate.\<close>

record 'u url_api =
  url_parse :: "string \<Rightarrow> 'u option"
  url_scheme :: "'u \<Rightarrow> string"
  url_host_str :: "'u \<Rightarrow> string option"
  url_username :: "'u \<Rightarrow> string"
  url_password :: "'u \<Rightarrow> string option"
  url_path :: "'u \<Rightarrow> string"
  url_fragment :: "'u \<Rightarrow> string option"
  url_query :: "'u \<Rightarrow> string option"
  url_port :: "'u \<Rightarrow> nat option"

record 'u ParsedCandidate =
  pc_endpoint :: ManagedEndpoint
  pc_bootstrap_url :: "'u option"

definition raw_authority :: "string \<Rightarrow> string option" where
  "raw_authority url = map_option (\<lambda>(_, rest). takeWhile (\<lambda>c. \<not> authority_end c) rest) (split_sub ''://'' url)"

definition token_ok :: "string option \<Rightarrow> bool" where
  "token_ok query =
     (case query of
        None \<Rightarrow> True
      | Some q \<Rightarrow>
          (case strip_prefix ''token='' q of
             None \<Rightarrow> False
           | Some t \<Rightarrow> length t = 43 \<and> list_all (\<lambda>c. is_ascii_alphanumeric c \<or> c = CHR ''_'' \<or> c = CHR ''-'') t))"

definition parse_candidate :: "'u url_api \<Rightarrow> string \<Rightarrow> nat option \<Rightarrow> ('u ParsedCandidate, ManagedRuntimeError) result" where
  "parse_candidate U candidate expected_port =
     (if candidate = [] \<or> MAX_OUTPUT_LINE_BYTES < length candidate then Err CandidateInvalid
      else case url_parse U candidate of
        None \<Rightarrow> Err CandidateInvalid
      | Some url \<Rightarrow>
          if url_scheme U url \<noteq> ''http'' \<or> url_host_str U url \<noteq> Some ''127.0.0.1'' \<or> url_username U url \<noteq> [] \<or>
             url_password U url \<noteq> None \<or> url_path U url \<noteq> ''/'' \<or> url_fragment U url \<noteq> None then Err CandidateInvalid
          else if \<not> token_ok (url_query U url) then Err CandidateInvalid
          else case url_port U url of
            None \<Rightarrow> Err CandidateInvalid
          | Some port \<Rightarrow>
              if port < 1024 \<or> raw_authority candidate \<noteq> Some (''127.0.0.1:'' @ show_nat port) then Err CandidateInvalid
              else if expected_port \<noteq> None \<and> expected_port \<noteq> Some port then Err CandidatePortMismatch
              else Ok \<lparr>pc_endpoint = \<lparr>en_scheme = ''http'', en_host = ''127.0.0.1'', en_port = port,
                     en_source = ''managed_process_output'', en_verification = ''owned_generation_output_and_tcp''\<rparr>,
                   pc_bootstrap_url = Some url\<rparr>)"

definition fixed_port_candidate :: "nat \<Rightarrow> 'u ParsedCandidate" where
  "fixed_port_candidate port =
     \<lparr>pc_endpoint = \<lparr>en_scheme = ''http'', en_host = ''127.0.0.1'', en_port = port, en_source = ''managed_config'',
        en_verification = ''owned_generation_tcp''\<rparr>, pc_bootstrap_url = None\<rparr>"

section \<open>Lemmas\<close>

lemma check_environments_Ok:
  "check_environments es ids = Ok ids' \<Longrightarrow>
     list_all environment_is_valid es \<and> distinct (map me_id es) \<and> set (map me_id es) \<inter> set ids = {} \<and>
     set ids' = set ids \<union> set (map me_id es)"
proof (induction es arbitrary: ids)
  case (Cons e es)
  hence "me_id e \<notin> set ids" "environment_is_valid e" "check_environments es (me_id e # ids) = Ok ids'"
    by (simp_all split: if_splits)
  thus ?case using Cons.IH [of "me_id e # ids"] by auto
qed simp

lemma load_catalog_Ok:
  assumes "load_catalog f = Ok c"
  shows "list_all environment_is_valid (ec_environments c)" "distinct (map me_id (ec_environments c))"
proof -
  have "list_all environment_is_valid (ec_environments c) \<and> distinct (map me_id (ec_environments c))"
    using assms
  proof (cases f rule: load_catalog.cases)
    case (4 c')
    then obtain ids where "check_environments (ec_environments c) [] = Ok ids"
      using assms by (auto simp: validate_catalog_def split: if_splits result.splits)
    thus ?thesis using check_environments_Ok by blast
  qed (use assms in \<open>auto simp: empty_catalog_def\<close>)
  thus "list_all environment_is_valid (ec_environments c)" "distinct (map me_id (ec_environments c))" by blast+
qed

lemma catalog_environment_valid:
  assumes "load_catalog f = Ok c" "catalog_environment i c = Some e"
  shows "environment_is_valid e" "me_id e = i"
  using assms(2) load_catalog_Ok(1) [OF assms(1)] by (auto simp: catalog_environment_def find_Some_iff list_all_length)

text \<open>The arguments a valid environment cannot change.\<close>

lemma environment_is_validD:
  assumes "environment_is_valid e"
  shows "ep_host (me_endpoint e) = ''127.0.0.1''" "is_valid_port (ep_port (me_endpoint e))"
    and "list_all (\<lambda>a. \<not> is_reserved_argument a) (hs_args (me_harness e))"
  using assms unfolding environment_is_valid_def by (simp_all split: if_splits add: list_ex_iff list_all_iff)

lemma build_launch_spec_Ok:
  assumes "build_launch_spec F e = Ok spec"
  shows "is_managed e" "environment_is_valid e" "ls_expected_port spec = managed_expected_port e"
    and "ls_environment spec = dsh_home_environment e"
    and "\<exists>pre. ls_args spec = pre @ dsh_arguments e (show_nat (case managed_expected_port e of None \<Rightarrow> 0 | Some p \<Rightarrow> p))"
proof -
  note spec = assms [unfolded build_launch_spec_def]
  show "is_managed e" "environment_is_valid e" using spec by (simp_all split: if_splits)
  have "ls_expected_port spec = managed_expected_port e \<and> ls_environment spec = dsh_home_environment e \<and>
    (\<exists>pre. ls_args spec = pre @ dsh_arguments e (show_nat (case managed_expected_port e of None \<Rightarrow> 0 | Some p \<Rightarrow> p)))"
  proof (cases "hs_mode (me_harness e) = Repository")
    case True
    let ?args = "\<lambda>l. [''--import'', l, path_join (hs_path (me_harness e)) REPO_CLI_ENTRY_REL] @
      dsh_arguments e (show_nat (case managed_expected_port e of None \<Rightarrow> 0 | Some p \<Rightarrow> p))"
    obtain l where "ls_args spec = ?args l" "ls_expected_port spec = managed_expected_port e"
        "ls_environment spec = dsh_home_environment e"
      using spec True by (auto simp: Let_def split: if_splits result.splits option.splits)
    thus ?thesis by blast
  next
    case False
    thus ?thesis using spec by (auto simp: Let_def split: if_splits)
  qed
  thus "ls_expected_port spec = managed_expected_port e" "ls_environment spec = dsh_home_environment e"
    "\<exists>pre. ls_args spec = pre @ dsh_arguments e (show_nat (case managed_expected_port e of None \<Rightarrow> 0 | Some p \<Rightarrow> p))"
    by blast+
qed

lemma split_on_line: "c \<notin> set p \<Longrightarrow> split_on c (p @ c # s) = p # split_on c s"
  by (induction p) auto

lemma split_on_none: "c \<notin> set p \<Longrightarrow> split_on c p = [p]"
  by (induction p) auto

text \<open>What a reader sends for a complete line.\<close>

definition line_output :: "string \<Rightarrow> string list" where
  "line_output line =
     (if length line \<le> 2048 then (case line_candidate line of None \<Rightarrow> [] | Some c \<Rightarrow> [c]) else [])"

definition newline :: char where
  "newline = CHR 0x0A"

definition carriage_return :: char where
  "carriage_return = CHR 0x0D"

lemma byte_of_newline: "byte_of b = 10 \<longleftrightarrow> b = newline" "byte_of b = 13 \<longleftrightarrow> b = carriage_return"
proof -
  have "byte_of b = byte_of c \<longleftrightarrow> b = c" for c unfolding byte_of_def by (rule inj_eq [OF inj_of_char])
  from this [of newline] this [of carriage_return] show "byte_of b = 10 \<longleftrightarrow> b = newline" "byte_of b = 13 \<longleftrightarrow> b = carriage_return"
    by (simp_all add: newline_def carriage_return_def byte_of_def)
qed

definition reader_at :: "string \<Rightarrow> string list \<Rightarrow> output_reader" where
  "reader_at p sent = \<lparr>rd_line = take 2048 p, rd_overflow = (2048 < length p), rd_sent = sent\<rparr>"

lemma read_byte_at:
  "read_byte b (reader_at p sent) =
     (if b = newline then reader_at [] (sent @ line_output p)
      else if b = carriage_return then reader_at p sent
      else reader_at (p @ [b]) sent)"
proof -
  consider "b = newline" | "b = carriage_return" "b \<noteq> newline" | "b \<noteq> newline" "b \<noteq> carriage_return" by blast
  thus ?thesis
  proof cases
    case 1
    thus ?thesis
      by (auto simp: read_byte_def byte_of_newline reader_at_def line_output_def maybe_send_candidate_def split: option.split)
  next
    case 2
    thus ?thesis by (simp add: read_byte_def byte_of_newline)
  next
    case 3
    thus ?thesis by (auto simp: read_byte_def byte_of_newline reader_at_def MAX_OUTPUT_LINE_BYTES_def)
  qed
qed

definition reader_result :: "output_reader \<Rightarrow> string list" where
  "reader_result r = rd_sent (if rd_line r \<noteq> [] \<and> \<not> rd_overflow r then maybe_send_candidate (rd_line r) r else r)"

lemma reader_result_at: "reader_result (reader_at p sent) = sent @ line_output p"
proof -
  have "line_candidate [] = None" by (simp add: line_candidate_def str_trim_def OUTPUT_MARKER_def strip_prefix_def)
  thus ?thesis
    by (auto simp: reader_result_def reader_at_def line_output_def maybe_send_candidate_def split: option.split)
qed

lemma read_bytes_at:
  assumes "newline \<notin> set p"
  shows "reader_result (fold read_byte bs (reader_at p sent)) =
    sent @ concat (map line_output (split_on newline (p @ filter (\<lambda>b. b \<noteq> carriage_return) bs)))"
proof (use assms in \<open>induction bs arbitrary: p sent\<close>)
  case Nil
  thus ?case by (simp add: reader_result_at split_on_none)
next
  case (Cons b bs)
  have ne: "newline \<noteq> carriage_return" by (simp add: newline_def carriage_return_def)
  consider "b = newline" | "b = carriage_return" "b \<noteq> newline" | "b \<noteq> newline" "b \<noteq> carriage_return" by blast
  thus ?case
  proof cases
    case 1
    show ?thesis using Cons.IH [of "[]" "sent @ line_output p"] Cons.prems ne by (simp add: 1 read_byte_at split_on_line)
  next
    case 2
    thus ?thesis using Cons.IH [of p sent] Cons.prems by (simp add: read_byte_at)
  next
    case 3
    thus ?thesis using Cons.IH [of "p @ [b]" sent] Cons.prems by (simp add: read_byte_at)
  qed
qed

lemma fold_chunks: "fold (fold f) xss s = fold f (concat xss) s"
  by (induction xss arbitrary: s) simp_all

section \<open>An environment for the examples\<close>

definition sample_environment :: ManagedEnvironment where
  "sample_environment = \<lparr>me_schema_version = 1, me_id = ''managed-local'', me_label = ''Managed DSH'',
     me_harness = \<lparr>hs_mode = Executable, hs_path = ''dsh'', hs_cwd = None, hs_args = [''-v'']\<rparr>, me_dsh_home = ''/home/dsh'',
     me_profile = ''default'', me_node_path = None, me_endpoint = \<lparr>ep_host = ''127.0.0.1'', ep_port = Port_Fixed 2048\<rparr>,
     me_ownership = Own_Managed, me_policy = Some \<lparr>po_auto_restart = Some True, po_native_adapter = None\<rparr>\<rparr>"

definition sample_files :: file_system where
  "sample_files = \<lparr>fs_is_dir = (\<lambda>_. False), fs_is_file = (\<lambda>_. False), fs_path_dirs = None, fs_file_url = (\<lambda>_. None)\<rparr>"

definition sample_urls :: "string url_api" where
  "sample_urls = \<lparr>url_parse = Some, url_scheme = (\<lambda>_. ''http''), url_host_str = (\<lambda>_. Some ''127.0.0.1''), url_username = (\<lambda>_. []),
     url_password = (\<lambda>_. None), url_path = (\<lambda>_. ''/''), url_fragment = (\<lambda>_. None), url_query = (\<lambda>_. None),
     url_port = (\<lambda>_. Some 2048)\<rparr>"

lemma sample_environment_valid: "environment_is_valid sample_environment"
proof -
  have "is_valid_id ''managed-local''" "str_trim ''Managed DSH'' \<noteq> []" "str_trim ''dsh'' \<noteq> []" "str_trim ''/home/dsh'' \<noteq> []"
    "str_trim ''default'' \<noteq> []" "\<not> is_reserved_argument ''-v''" "chars_count ''Managed DSH'' \<le> 128"
    by code_simp+
  thus ?thesis by (simp add: environment_is_valid_def sample_environment_def CATALOG_SCHEMA_VERSION_def)
qed

lemma sample_environment_spec:
  "\<exists>spec. build_launch_spec sample_files sample_environment = Ok spec \<and> ls_expected_port spec = Some 2048"
proof -
  have "is_managed sample_environment" "hs_mode (me_harness sample_environment) = Executable"
    "me_node_path sample_environment = None" "managed_expected_port sample_environment = Some 2048"
    by (simp_all add: sample_environment_def is_managed_def managed_expected_port_def)
  thus ?thesis using sample_environment_valid by (simp add: build_launch_spec_def non_empty_def Let_def)
qed

section \<open>Properties\<close>

text \<open>
  C31. The launch recipe is pinned to the loopback interface: a recipe exists only for a valid managed environment, its
  arguments end with the host 127.0.0.1, the port the supervisor will probe (0 for an automatic one), \<open>--no-open\<close> and then the
  user's own arguments, none of which is one of these options or \<open>--trusted-host\<close>, with or without a value, and a fixed port
  is not privileged.
\<close>

theorem launch_recipe_pinned:
  assumes "build_launch_spec F e = Ok spec"
  shows "\<exists>pre port. ls_args spec = pre @ [''--host'', ''127.0.0.1'', ''--port'', show_nat port, ''--no-open''] @ hs_args (me_harness e) \<and>
      (ls_expected_port spec = None \<and> port = 0 \<or> ls_expected_port spec = Some port \<and> 1024 \<le> port) \<and>
      (\<forall>a \<in> set (hs_args (me_harness e)). \<forall>r \<in> {''--host'', ''--port'', ''--no-open'', ''--trusted-host''}.
         a \<noteq> r \<and> \<not> starts_with (r @ ''='') a) \<and>
      is_managed e \<and> ep_host (me_endpoint e) = ''127.0.0.1'' \<and> ls_environment spec = [(''DSH_HOME'', me_dsh_home e)]"
proof -
  note b = build_launch_spec_Ok [OF assms] and d = environment_is_validD [OF build_launch_spec_Ok(2) [OF assms]]
  define port where "port = (case managed_expected_port e of None \<Rightarrow> 0 | Some p \<Rightarrow> p)"
  obtain pre where "ls_args spec = pre @ dsh_arguments e (show_nat port)" using b(5) unfolding port_def by blast
  hence args: "ls_args spec = (pre @ (if me_profile e = ''default'' then [''web''] else [''--profile'', me_profile e])) @
      [''--host'', ''127.0.0.1'', ''--port'', show_nat port, ''--no-open''] @ hs_args (me_harness e)"
    by (simp add: dsh_arguments_def)
  have port: "ls_expected_port spec = None \<and> port = 0 \<or> ls_expected_port spec = Some port \<and> 1024 \<le> port"
    using b(3) d(2) by (cases "ep_port (me_endpoint e)") (simp_all add: port_def managed_expected_port_def)
  have "\<forall>a \<in> set (hs_args (me_harness e)). \<forall>r \<in> {''--host'', ''--port'', ''--no-open'', ''--trusted-host''}.
      a \<noteq> r \<and> \<not> starts_with (r @ ''='') a"
    using d(3) unfolding is_reserved_argument_def RESERVED_ARGUMENTS_def list_all_iff by simp
  thus ?thesis using args port b(1,4) d(1) unfolding dsh_home_environment_def by blast
qed

theorem launch_recipe_pinned_witness:
  "\<exists>spec. build_launch_spec sample_files sample_environment = Ok spec \<and>
     (\<exists>pre port. ls_args spec = pre @ [''--host'', ''127.0.0.1'', ''--port'', show_nat port, ''--no-open''] @ [''-v''])"
proof -
  obtain spec where s: "build_launch_spec sample_files sample_environment = Ok spec" using sample_environment_spec by blast
  have "hs_args (me_harness sample_environment) = [''-v'']" by (simp add: sample_environment_def)
  thus ?thesis using launch_recipe_pinned [OF s] s by metis
qed




end
