(* ===== verification/Managed_Runtime.thy ===== *)
theory Managed_Runtime
  imports Managed_Environment
begin

text \<open>
  The supervisor of the managed runtime (\<open>crates/managed-runtime/src/supervisor.rs\<close>): one process tree at a time behind a
  lock. Every critical section of the source is one step here and every thread is a program point between two of them, so all
  interleavings of the lifecycle operations are covered. A process tree is named by the generation that spawned it. The clock,
  the readiness probe, the deadlines and the outcome of spawning and killing are inputs of the steps.
\<close>

section \<open>Data\<close>

definition MANAGED_SCHEMA_VERSION :: nat where
  "MANAGED_SCHEMA_VERSION = 1"

definition RECOVERY_BUDGET :: nat where
  "RECOVERY_BUDGET = 3"

definition RECOVERY_WINDOW :: nat where
  "RECOVERY_WINDOW = 60000"

datatype ManagedState = Ms_Stopped | Ms_Starting | Ms_Healthy | Ms_Stopping | Ms_Crashed | Ms_SafeStop

datatype ProcessOwnership = Po_None | Po_Owned

datatype Readiness = NotStarted | Waiting | Verified | Readiness_Failed

datatype StopDisposition = NotRequested | Graceful | Forced

record RecoveryState =
  rv_crash_count :: nat
  rv_window_start :: nat
  rv_last_crash :: "nat option"
  rv_safe_stop :: bool

record RecoveryReport =
  rr_crash_count :: nat
  rr_window_start :: nat
  rr_budget :: nat
  rr_safe_stop :: bool
  rr_last_crash :: "nat option"

record RuntimeEvidence =
  re_code :: string
  re_severity :: string
  re_message :: string

record ManagedRuntimeReport =
  mr_schema_version :: nat
  mr_environment_id :: string
  mr_ownership :: string
  mr_state :: ManagedState
  mr_generation :: nat
  mr_instance_id :: "string option"
  mr_process_ownership :: ProcessOwnership
  mr_lifecycle_mutation :: string
  mr_readiness :: Readiness
  mr_endpoint :: "ManagedEndpoint option"
  mr_stop_disposition :: StopDisposition
  mr_recovery :: "RecoveryReport option"
  mr_observed_at :: nat
  mr_evidence :: "RuntimeEvidence list"

record 'u VerifiedSurfaceBinding =
  vb_generation :: nat
  vb_port :: nat
  vb_bootstrap_url :: 'u

record 'u Supervisor =
  sv_environment_id :: "string option"
  sv_state :: "ManagedState option"
  sv_generation :: nat
  sv_instance_id :: "string option"
  sv_endpoint :: "ManagedEndpoint option"
  sv_bootstrap_url :: "'u option"
  sv_stop_disposition :: "StopDisposition option"
  sv_evidence :: "RuntimeEvidence list"
  sv_process :: "nat option"
  sv_retained_spec :: "LaunchSpec option"
  sv_auto_restart :: bool
  sv_recovery :: "RecoveryState option"

definition new_supervisor :: "'u Supervisor" where
  "new_supervisor = \<lparr>sv_environment_id = None, sv_state = None, sv_generation = 0, sv_instance_id = None, sv_endpoint = None,
     sv_bootstrap_url = None, sv_stop_disposition = None, sv_evidence = [], sv_process = None, sv_retained_spec = None,
     sv_auto_restart = False, sv_recovery = None\<rparr>"

definition evidence :: "string \<Rightarrow> string \<Rightarrow> string \<Rightarrow> RuntimeEvidence" where
  "evidence code severity message = \<lparr>re_code = code, re_severity = severity, re_message = message\<rparr>"

text \<open>The readings and outcomes one step meets.\<close>

record step_inputs =
  si_exited :: bool
  si_crash_ms :: "nat option"
  si_launch_ms :: "nat option"
  si_report_ms :: "nat option"
  si_spawn :: "ManagedRuntimeError option"
  si_marker :: "string option"
  si_probe :: bool
  si_deadline :: bool
  si_grace_over :: bool
  si_stop :: "StopDisposition option"
  si_kill_ok :: bool
  si_released :: bool

section \<open>The supervisor under its lock\<close>

definition record_crash :: "nat option \<Rightarrow> 'u Supervisor \<Rightarrow> 'u Supervisor" where
  "record_crash clock s =
     (let now = (case clock of None \<Rightarrow> 0 | Some t \<Rightarrow> t);
          r = (case sv_recovery s of
                 Some r \<Rightarrow> r
               | None \<Rightarrow> \<lparr>rv_crash_count = 0, rv_window_start = now, rv_last_crash = None, rv_safe_stop = False\<rparr>);
          r1 = (if RECOVERY_WINDOW < now - rv_window_start r
                then r\<lparr>rv_crash_count := 0, rv_window_start := now, rv_safe_stop := False\<rparr> else r);
          r2 = r1\<lparr>rv_crash_count := rv_crash_count r1 + 1, rv_last_crash := Some now\<rparr>
      in s\<lparr>sv_recovery := Some (if RECOVERY_BUDGET \<le> rv_crash_count r2 then r2\<lparr>rv_safe_stop := True\<rparr> else r2)\<rparr>)"

definition safe_stop :: "'u Supervisor \<Rightarrow> bool" where
  "safe_stop s = (case sv_recovery s of None \<Rightarrow> False | Some r \<Rightarrow> rv_safe_stop r)"

definition safe_stop_evidence :: RuntimeEvidence where
  "safe_stop_evidence = evidence ''MANAGED_SAFE_STOP'' ''error''
     ''Recovery budget exhausted; the Managed generation entered Safe Stop without auto-restart.''"

definition refresh_exit :: "step_inputs \<Rightarrow> 'u Supervisor \<Rightarrow> 'u Supervisor" where
  "refresh_exit inp s =
     (if sv_process s \<noteq> None \<and> si_exited inp then
        let s1 = record_crash (si_crash_ms inp) s
        in s1\<lparr>sv_process := None, sv_state := Some (if safe_stop s1 then Ms_SafeStop else Ms_Crashed), sv_endpoint := None,
             sv_bootstrap_url := None, sv_stop_disposition := Some NotRequested,
             sv_evidence := [if safe_stop s1 then safe_stop_evidence
               else evidence ''MANAGED_PROCESS_EXITED'' ''error'' ''The retained Managed process exited before an explicit stop completed.'']\<rparr>
      else s)"

definition auto_restart_eligible :: "'u Supervisor \<Rightarrow> bool" where
  "auto_restart_eligible s =
     (sv_state s = Some Ms_Crashed \<and> sv_auto_restart s \<and> (case sv_recovery s of None \<Rightarrow> False | Some r \<Rightarrow> \<not> rv_safe_stop r) \<and>
      sv_retained_spec s \<noteq> None)"

fun readiness_of :: "ManagedState \<Rightarrow> Readiness" where
  "readiness_of Ms_Stopped = NotStarted"
| "readiness_of Ms_Starting = Waiting"
| "readiness_of Ms_Stopping = Waiting"
| "readiness_of Ms_Healthy = Verified"
| "readiness_of Ms_Crashed = Readiness_Failed"
| "readiness_of Ms_SafeStop = Readiness_Failed"

fun default_evidence :: "ManagedState \<Rightarrow> RuntimeEvidence" where
  "default_evidence Ms_Stopped = evidence ''MANAGED_STOPPED'' ''info'' ''No Managed process tree is currently retained.''"
| "default_evidence Ms_Starting =
     evidence ''MANAGED_STARTING'' ''info'' ''The current Managed generation is waiting for verified readiness.''"
| "default_evidence Ms_Healthy =
     evidence ''MANAGED_ENDPOINT_VERIFIED'' ''info'' ''The current Managed endpoint passed publication gates.''"
| "default_evidence Ms_Stopping = evidence ''MANAGED_STOPPING'' ''info'' ''The retained Managed process tree is stopping.''"
| "default_evidence Ms_Crashed =
     evidence ''MANAGED_PROCESS_EXITED'' ''error'' ''The current Managed generation is not running.''"
| "default_evidence Ms_SafeStop =
     evidence ''MANAGED_SAFE_STOP'' ''error'' ''Recovery budget exhausted; the Managed generation entered Safe Stop.''"

definition supervisor_report ::
  "step_inputs \<Rightarrow> string \<Rightarrow> 'u Supervisor \<Rightarrow> (ManagedRuntimeReport, ManagedRuntimeError) result" where
  "supervisor_report inp i s =
     (let state = (case sv_state s of None \<Rightarrow> Ms_Stopped | Some st \<Rightarrow> st)
      in case si_report_ms inp of
           None \<Rightarrow> Err ClockUnavailable
         | Some now \<Rightarrow> Ok \<lparr>mr_schema_version = MANAGED_SCHEMA_VERSION, mr_environment_id = i, mr_ownership = ''managed'',
             mr_state = state, mr_generation = sv_generation s,
             mr_instance_id = (if state = Ms_Stopped \<or> state = Ms_SafeStop then None else sv_instance_id s),
             mr_process_ownership = (if sv_process s = None then Po_None else Po_Owned),
             mr_lifecycle_mutation = ''allowed'', mr_readiness = readiness_of state, mr_endpoint = sv_endpoint s,
             mr_stop_disposition = (case sv_stop_disposition s of None \<Rightarrow> NotRequested | Some d \<Rightarrow> d),
             mr_recovery = map_option (\<lambda>r. \<lparr>rr_crash_count = rv_crash_count r, rr_window_start = rv_window_start r,
               rr_budget = RECOVERY_BUDGET, rr_safe_stop = rv_safe_stop r, rr_last_crash = rv_last_crash r\<rparr>) (sv_recovery s),
             mr_observed_at = now, mr_evidence = (if sv_evidence s = [] then [default_evidence state] else sv_evidence s)\<rparr>)"

section \<open>Threads\<close>

datatype 'u answer = An_Report ManagedRuntimeReport | An_Binding "'u VerifiedSurfaceBinding"

text \<open>
  Where a thread stands between two critical sections: before \<open>start_with_spec\<close>, in its three waiting loops, before the
  publication, before and after the critical section of \<open>fail_start\<close>, in the stages of a stop and of a restart, before the
  second section of a status or binding request, or at its answer.
\<close>

datatype 'u pc =
    Pc_Spawn string LaunchSpec
  | Pc_Await string nat "nat option"
  | Pc_Fixed string nat nat
  | Pc_Grace string nat nat
  | Pc_Confirm string nat "'u ParsedCandidate"
  | Pc_Publish string nat "'u ParsedCandidate"
  | Pc_Fail string nat ManagedRuntimeError bool
  | Pc_Reap nat ManagedRuntimeError
  | Pc_Stopping string nat nat "ManagedEndpoint option"
  | Pc_StopFailed string nat
  | Pc_StopDone string nat StopDisposition bool
  | Pc_Restarting string "nat option" "(LaunchSpec, ManagedRuntimeError) result"
  | Pc_Report string
  | Pc_Binding string nat
  | Pc_Done "('u answer, ManagedRuntimeError) result"

text \<open>A thread also knows whether it resolves a binding once its automatic restart is over.\<close>

type_synonym 'u runtime_thread = "'u pc \<times> (string \<times> nat) option"

datatype lifecycle_request =
    Rq_Start ManagedEnvironment
  | Rq_Status ManagedEnvironment
  | Rq_Binding ManagedEnvironment nat
  | Rq_Stop ManagedEnvironment nat
  | Rq_Restart ManagedEnvironment nat

definition answer_report ::
  "step_inputs \<Rightarrow> string \<Rightarrow> 'u Supervisor \<Rightarrow> 'u pc" where
  "answer_report inp i s =
     Pc_Done (case supervisor_report inp i s of Err e \<Rightarrow> Err e | Ok r \<Rightarrow> Ok (An_Report r))"

definition other_environment :: "ManagedEnvironment \<Rightarrow> 'u Supervisor \<Rightarrow> bool" where
  "other_environment e s = (case sv_environment_id s of None \<Rightarrow> False | Some i \<Rightarrow> i \<noteq> me_id e)"

subsection \<open>The first critical section of each operation\<close>

definition auto_restart_policy :: "ManagedEnvironment \<Rightarrow> bool" where
  "auto_restart_policy e =
     (case me_policy e of None \<Rightarrow> False | Some p \<Rightarrow> (case po_auto_restart p of None \<Rightarrow> False | Some b \<Rightarrow> b))"

definition start_managed_environment ::
  "file_system \<Rightarrow> step_inputs \<Rightarrow> ManagedEnvironment \<Rightarrow> 'u Supervisor \<Rightarrow> 'u runtime_thread \<times> 'u Supervisor" where
  "start_managed_environment F inp e s =
     (case build_launch_spec F e of
        Err x \<Rightarrow> ((Pc_Done (Err x), None), s)
      | Ok spec \<Rightarrow>
          let s1 = refresh_exit inp s
          in if sv_process s1 \<noteq> None then
               (if sv_environment_id s1 = Some (me_id e) then ((answer_report inp (me_id e) s1, None), s1)
                else ((Pc_Done (Err Rt_Conflict), None), s1))
             else
               ((Pc_Spawn (me_id e) spec, None),
                s1\<lparr>sv_auto_restart := auto_restart_policy e, sv_retained_spec := Some spec, sv_recovery := None\<rparr>))"

definition get_managed_runtime_status ::
  "step_inputs \<Rightarrow> ManagedEnvironment \<Rightarrow> 'u Supervisor \<Rightarrow> 'u runtime_thread \<times> 'u Supervisor" where
  "get_managed_runtime_status inp e s =
     (if \<not> is_managed e then ((Pc_Done (Err NotManaged), None), s)
      else
        let s1 = refresh_exit inp s
        in if other_environment e s1 then ((Pc_Done (Err Rt_Conflict), None), s1)
           else case (if auto_restart_eligible s1 then sv_retained_spec s1 else None) of
             Some spec \<Rightarrow> ((Pc_Spawn (me_id e) spec, None), s1)
           | None \<Rightarrow> ((Pc_Report (me_id e), None), s1))"

definition verified_surface_binding ::
  "step_inputs \<Rightarrow> ManagedEnvironment \<Rightarrow> nat \<Rightarrow> 'u Supervisor \<Rightarrow> 'u runtime_thread \<times> 'u Supervisor" where
  "verified_surface_binding inp e g s =
     (if \<not> is_managed e then ((Pc_Done (Err NotManaged), None), s)
      else if g = 0 then ((Pc_Done (Err StaleGeneration), None), s)
      else
        let s1 = refresh_exit inp s
        in if other_environment e s1 then ((Pc_Done (Err Rt_Conflict), None), s1)
           else case (if auto_restart_eligible s1 then sv_retained_spec s1 else None) of
             Some spec \<Rightarrow> ((Pc_Spawn (me_id e) spec, Some (me_id e, g)), s1)
           | None \<Rightarrow> ((Pc_Binding (me_id e) g, None), s1))"

definition stop_managed_environment ::
  "step_inputs \<Rightarrow> ManagedEnvironment \<Rightarrow> nat \<Rightarrow> 'u Supervisor \<Rightarrow> 'u runtime_thread \<times> 'u Supervisor" where
  "stop_managed_environment inp e g s =
     (if \<not> is_managed e then ((Pc_Done (Err NotManaged), None), s)
      else
        let s1 = refresh_exit inp s
        in if other_environment e s1 then ((Pc_Done (Err Rt_Conflict), None), s1)
           else if g = 0 \<or> g \<noteq> sv_generation s1 then ((Pc_Done (Err StaleGeneration), None), s1)
           else case sv_process s1 of
             None \<Rightarrow>
               let s2 = s1\<lparr>sv_state := Some Ms_Stopped, sv_instance_id := None, sv_endpoint := None, sv_bootstrap_url := None,
                     sv_stop_disposition := Some NotRequested, sv_recovery := None,
                     sv_evidence := [evidence ''MANAGED_ALREADY_STOPPED'' ''info'' ''The requested Managed generation has no retained process tree.'']\<rparr>
               in ((answer_report inp (me_id e) s2, None), s2)
           | Some p \<Rightarrow>
               ((Pc_Stopping (me_id e) g p (sv_endpoint s1), None),
                s1\<lparr>sv_state := Some Ms_Stopping, sv_bootstrap_url := None, sv_process := None, sv_endpoint := None,
                  sv_evidence := [evidence ''MANAGED_STOPPING'' ''info'' ''The retained Managed process tree is stopping.'']\<rparr>))"

definition restart_managed_environment ::
  "file_system \<Rightarrow> step_inputs \<Rightarrow> ManagedEnvironment \<Rightarrow> nat \<Rightarrow> 'u Supervisor \<Rightarrow> 'u runtime_thread \<times> 'u Supervisor" where
  "restart_managed_environment F inp e g s =
     (if \<not> is_managed e then ((Pc_Done (Err NotManaged), None), s)
      else
        let s1 = refresh_exit inp s
        in if other_environment e s1 then ((Pc_Done (Err Rt_Conflict), None), s1)
           else if g = 0 \<or> g \<noteq> sv_generation s1 then ((Pc_Done (Err StaleGeneration), None), s1)
           else
             ((Pc_Restarting (me_id e) (sv_process s1)
                 (case sv_retained_spec s1 of Some spec \<Rightarrow> Ok spec | None \<Rightarrow> build_launch_spec F e), None),
              s1\<lparr>sv_process := None, sv_endpoint := None, sv_state := Some Ms_Stopping, sv_bootstrap_url := None, sv_recovery := None,
                sv_evidence := [evidence ''MANAGED_RESTARTING'' ''info'' ''The exact current generation is stopping before a new generation starts.'']\<rparr>))"

fun enter :: "file_system \<Rightarrow> step_inputs \<Rightarrow> lifecycle_request \<Rightarrow> 'u Supervisor \<Rightarrow> 'u runtime_thread \<times> 'u Supervisor" where
  "enter F inp (Rq_Start e) s = start_managed_environment F inp e s"
| "enter F inp (Rq_Status e) s = get_managed_runtime_status inp e s"
| "enter F inp (Rq_Binding e g) s = verified_surface_binding inp e g s"
| "enter F inp (Rq_Stop e g) s = stop_managed_environment inp e g s"
| "enter F inp (Rq_Restart e g) s = restart_managed_environment F inp e g s"

subsection \<open>The further critical sections\<close>

definition spawn_generation :: "step_inputs \<Rightarrow> string \<Rightarrow> LaunchSpec \<Rightarrow> 'u Supervisor \<Rightarrow> 'u pc \<times> 'u Supervisor" where
  "spawn_generation inp i spec s =
     (let s1 = refresh_exit inp s
      in if sv_process s1 \<noteq> None then
           (if sv_environment_id s1 = Some i then (answer_report inp i s1, s1) else (Pc_Done (Err Rt_Conflict), s1))
         else case checked_add (sv_generation s1) 1 of
           None \<Rightarrow> (Pc_Done (Err Rt_StateUnavailable), s1)
         | Some g \<Rightarrow>
             (case si_launch_ms inp of
                None \<Rightarrow> (Pc_Done (Err ClockUnavailable), s1)
              | Some launched \<Rightarrow>
                  (case si_spawn inp of
                     Some x \<Rightarrow> (Pc_Done (Err x), s1)
                   | None \<Rightarrow>
                       (Pc_Await i g (ls_expected_port spec),
                        s1\<lparr>sv_environment_id := Some i, sv_state := Some Ms_Starting, sv_generation := g,
                          sv_instance_id := Some (''managed-'' @ show_nat g @ ''-'' @ show_nat launched), sv_endpoint := None,
                          sv_bootstrap_url := None, sv_stop_disposition := Some NotRequested,
                          sv_evidence := [evidence ''MANAGED_PROCESS_SPAWNED'' ''info''
                            ''A new Managed generation was created with a retained process-tree handle.''],
                          sv_process := Some g\<rparr>))))"

definition generation_is_alive :: "step_inputs \<Rightarrow> string \<Rightarrow> nat \<Rightarrow> 'u Supervisor \<Rightarrow> bool \<times> 'u Supervisor" where
  "generation_is_alive inp i g s =
     (let s1 = refresh_exit inp s
      in (sv_environment_id s1 = Some i \<and> sv_generation s1 = g \<and> sv_process s1 \<noteq> None, s1))"

text \<open>The next program point of a waiting loop whose generation is alive, otherwise the failure.\<close>

definition while_alive :: "step_inputs \<Rightarrow> string \<Rightarrow> nat \<Rightarrow> 'u pc \<Rightarrow> 'u Supervisor \<Rightarrow> 'u pc \<times> 'u Supervisor" where
  "while_alive inp i g next s =
     (case generation_is_alive inp i g s of
        (alive, s1) \<Rightarrow> (if alive then next else Pc_Fail i g ProcessExited False, s1))"

definition publish_endpoint :: "step_inputs \<Rightarrow> string \<Rightarrow> nat \<Rightarrow> 'u ParsedCandidate \<Rightarrow> 'u Supervisor \<Rightarrow> 'u pc \<times> 'u Supervisor" where
  "publish_endpoint inp i g c s =
     (let s1 = refresh_exit inp s
      in if sv_environment_id s1 \<noteq> Some i \<or> sv_generation s1 \<noteq> g \<or> sv_process s1 = None then (Pc_Done (Err StaleGeneration), s1)
         else
           let s2 = s1\<lparr>sv_state := Some Ms_Healthy, sv_endpoint := Some (pc_endpoint c), sv_bootstrap_url := pc_bootstrap_url c,
                 sv_evidence := [if pc_bootstrap_url c \<noteq> None then evidence ''MANAGED_ENDPOINT_VERIFIED'' ''info''
                     ''The owned generation emitted an exact loopback endpoint and accepted a bounded TCP connection.''
                   else evidence ''MANAGED_ENDPOINT_TCP_VERIFIED'' ''info''
                     ''The owned generation answered the bounded HTTP probe on the configured loopback endpoint (no token-bearing marker).'']\<rparr>
           in (answer_report inp i s2, s2))"

text \<open>The flag says that the caller returns its own error whatever \<open>fail_start\<close> returns.\<close>

definition fail_start ::
  "step_inputs \<Rightarrow> string \<Rightarrow> nat \<Rightarrow> ManagedRuntimeError \<Rightarrow> bool \<Rightarrow> 'u Supervisor \<Rightarrow> 'u pc \<times> 'u Supervisor" where
  "fail_start inp i g x own s =
     (if sv_environment_id s \<noteq> Some i \<or> sv_generation s \<noteq> g then (Pc_Done (Err (if own then x else StaleGeneration)), s)
      else
        let s1 = (if sv_process s \<noteq> None then record_crash (si_crash_ms inp) s else s);
            s2 = s1\<lparr>sv_state := Some (if safe_stop s1 then Ms_SafeStop else Ms_Crashed), sv_endpoint := None,
              sv_bootstrap_url := None, sv_stop_disposition := Some NotRequested,
              sv_evidence := [if safe_stop s1 then safe_stop_evidence
                else evidence ''MANAGED_READINESS_FAILED'' ''error''
                  ''The Managed generation failed before endpoint publication and was cleaned up.''],
              sv_process := None\<rparr>
        in (case sv_process s of None \<Rightarrow> Pc_Done (Err x) | Some p \<Rightarrow> Pc_Reap p x, s2))"

definition stop_failed :: "string \<Rightarrow> nat \<Rightarrow> 'u Supervisor \<Rightarrow> 'u pc \<times> 'u Supervisor" where
  "stop_failed i g s =
     (Pc_Done (Err StopFailed),
      if sv_generation s = g \<and> sv_environment_id s = Some i then
        s\<lparr>sv_state := Some Ms_Crashed, sv_endpoint := None, sv_bootstrap_url := None, sv_stop_disposition := Some NotRequested,
          sv_evidence := [evidence ''MANAGED_STOP_FAILED'' ''error'' ''The retained process-tree stop did not complete cleanly.'']\<rparr>
      else s)"

definition stop_done ::
  "step_inputs \<Rightarrow> string \<Rightarrow> nat \<Rightarrow> StopDisposition \<Rightarrow> bool \<Rightarrow> 'u Supervisor \<Rightarrow> 'u pc \<times> 'u Supervisor" where
  "stop_done inp i g d released s =
     (if sv_generation s \<noteq> g \<or> sv_environment_id s \<noteq> Some i then (Pc_Done (Err StaleGeneration), s)
      else
        let s1 = s\<lparr>sv_state := Some Ms_Stopped, sv_instance_id := None, sv_endpoint := None, sv_bootstrap_url := None,
              sv_stop_disposition := Some d, sv_recovery := None,
              sv_evidence := [evidence ''MANAGED_PROCESS_TREE_STOPPED'' ''info''
                ''The retained Managed process tree stopped and its endpoint was checked.'']\<rparr>
        in (case supervisor_report inp i s1 of
              Err x \<Rightarrow> Pc_Done (Err x)
            | Ok r \<Rightarrow> Pc_Done (if released then Ok (An_Report r) else Err EndpointStillReachable), s1))"

definition resolve_binding :: "step_inputs \<Rightarrow> string \<Rightarrow> nat \<Rightarrow> 'u Supervisor \<Rightarrow> 'u pc \<times> 'u Supervisor" where
  "resolve_binding inp i g s =
     (let s1 = refresh_exit inp s
      in if sv_generation s1 \<noteq> g then (Pc_Done (Err StaleGeneration), s1)
         else if sv_environment_id s1 \<noteq> Some i \<or> sv_state s1 \<noteq> Some Ms_Healthy \<or> sv_process s1 = None then
           (Pc_Done (Err SurfaceBindingUnavailable), s1)
         else case sv_endpoint s1 of
           None \<Rightarrow> (Pc_Done (Err SurfaceBindingUnavailable), s1)
         | Some ep \<Rightarrow>
             (case sv_bootstrap_url s1 of
                None \<Rightarrow> (Pc_Done (Err SurfaceBindingUnavailable), s1)
              | Some url \<Rightarrow>
                  (Pc_Done (Ok (An_Binding \<lparr>vb_generation = sv_generation s1, vb_port = en_port ep, vb_bootstrap_url = url\<rparr>)), s1)))"

text \<open>One step of a thread. The steps at \<open>Pc_Reap\<close>, \<open>Pc_Stopping\<close> and \<open>Pc_Restarting\<close> run without the lock.\<close>

fun resume :: "'u url_api \<Rightarrow> step_inputs \<Rightarrow> 'u pc \<Rightarrow> 'u Supervisor \<Rightarrow> 'u pc \<times> 'u Supervisor" where
  "resume U inp (Pc_Spawn i spec) s = spawn_generation inp i spec s"
| "resume U inp (Pc_Await i g expected) s =
     while_alive inp i g
       (case expected of
          Some port \<Rightarrow> Pc_Fixed i g port
        | None \<Rightarrow>
            (case si_marker inp of
               Some v \<Rightarrow> (case parse_candidate U v None of Ok c \<Rightarrow> Pc_Confirm i g c | Err x \<Rightarrow> Pc_Fail i g x True)
             | None \<Rightarrow> if si_deadline inp then Pc_Fail i g ReadinessTimeout False else Pc_Await i g expected)) s"
| "resume U inp (Pc_Fixed i g port) s =
     (case si_marker inp of
        Some v \<Rightarrow> (case parse_candidate U v (Some port) of Ok c \<Rightarrow> Pc_Confirm i g c | Err x \<Rightarrow> Pc_Grace i g port, s)
      | None \<Rightarrow>
          while_alive inp i g
            (if si_probe inp then Pc_Grace i g port
             else if si_deadline inp then Pc_Fail i g ReadinessTimeout False
             else Pc_Fixed i g port) s)"
| "resume U inp (Pc_Grace i g port) s =
     (if si_grace_over inp then (Pc_Confirm i g (fixed_port_candidate port), s)
      else case (case si_marker inp of None \<Rightarrow> Err CandidateInvalid | Some v \<Rightarrow> parse_candidate U v (Some port)) of
        Ok c \<Rightarrow> (Pc_Confirm i g c, s)
      | Err x \<Rightarrow> while_alive inp i g (Pc_Grace i g port) s)"
| "resume U inp (Pc_Confirm i g c) s =
     while_alive inp i g
       (if si_probe inp then Pc_Publish i g c
        else if si_deadline inp then Pc_Fail i g ReadinessTimeout False
        else Pc_Confirm i g c) s"
| "resume U inp (Pc_Publish i g c) s = publish_endpoint inp i g c s"
| "resume U inp (Pc_Fail i g x own) s = fail_start inp i g x own s"
| "resume U inp (Pc_Reap p x) s = (Pc_Done (Err x), s)"
| "resume U inp (Pc_Stopping i g p ep) s =
     (case si_stop inp of
        None \<Rightarrow> (Pc_StopFailed i g, s)
      | Some d \<Rightarrow> (Pc_StopDone i g d (ep = None \<or> si_released inp), s))"
| "resume U inp (Pc_StopFailed i g) s = stop_failed i g s"
| "resume U inp (Pc_StopDone i g d released) s = stop_done inp i g d released s"
| "resume U inp (Pc_Restarting i p spec) s = (case spec of Err x \<Rightarrow> (Pc_Done (Err x), s) | Ok sp \<Rightarrow> (Pc_Spawn i sp, s))"
| "resume U inp (Pc_Report i) s = (answer_report inp i s, s)"
| "resume U inp (Pc_Binding i g) s = resolve_binding inp i g s"
| "resume U inp (Pc_Done r) s = (Pc_Done r, s)"

section \<open>All threads together\<close>

text \<open>The trees a thread has taken out of the supervisor in order to stop them.\<close>

fun held_trees :: "'u pc \<Rightarrow> nat set" where
  "held_trees (Pc_Reap p x) = {p}"
| "held_trees (Pc_Stopping i g p ep) = {p}"
| "held_trees (Pc_Restarting i p spec) = set_option p"
| "held_trees pc = {}"

text \<open>
  The supervisor, the threads, the running process trees, and those whose kill the operating system refused. A tree that
  leaves the supervisor and is not held by a thread has been stopped or dropped, and dropping kills.
\<close>

record 'u runtime_world =
  wd_supervisor :: "'u Supervisor"
  wd_threads :: "(nat, 'u runtime_thread) hashmap"
  wd_live :: "nat set"
  wd_lost :: "nat set"

definition new_world :: "'u runtime_world" where
  "new_world = \<lparr>wd_supervisor = new_supervisor, wd_threads = [], wd_live = {}, wd_lost = {}\<rparr>"

datatype runtime_event =
    Ev_Enter nat lifecycle_request step_inputs
  | Ev_Resume nat step_inputs
  | Ev_Exit nat

fun settle :: "'u runtime_thread \<Rightarrow> 'u runtime_thread" where
  "settle (Pc_Done r, Some (i, g)) = (Pc_Binding i g, None)"
| "settle th = th"

definition killed :: "step_inputs \<Rightarrow> 'u pc \<Rightarrow> bool" where
  "killed inp old = (si_kill_ok inp \<or> (case old of Pc_Stopping i g p ep \<Rightarrow> si_stop inp \<noteq> None | _ \<Rightarrow> False))"

definition advance ::
  "nat \<Rightarrow> step_inputs \<Rightarrow> 'u pc \<Rightarrow> 'u runtime_thread \<Rightarrow> 'u Supervisor \<Rightarrow> 'u runtime_world \<Rightarrow> 'u runtime_world" where
  "advance t inp old th s' w =
     (let before = set_option (sv_process (wd_supervisor w)) \<union> held_trees old;
          after = set_option (sv_process s') \<union> held_trees (fst th);
          live = wd_live w \<union> (after - before);
          gone = before - after
      in w\<lparr>wd_supervisor := s', wd_threads := hm_insert t th (wd_threads w),
           wd_live := (if killed inp old then live - gone else live),
           wd_lost := (if killed inp old then wd_lost w else wd_lost w \<union> gone)\<rparr>)"

fun runtime_exec :: "file_system \<Rightarrow> 'u url_api \<Rightarrow> runtime_event \<Rightarrow> 'u runtime_world \<Rightarrow> 'u runtime_world" where
  "runtime_exec F U (Ev_Enter t rq inp) w =
     (case enter F inp rq (wd_supervisor w) of (th, s') \<Rightarrow> advance t inp (Pc_Done (Err NotManaged)) th s' w)"
| "runtime_exec F U (Ev_Resume t inp) w =
     (case hm_get (wd_threads w) t of
        None \<Rightarrow> w
      | Some (pc, k) \<Rightarrow>
          (case resume U inp pc (wd_supervisor w) of (pc', s') \<Rightarrow> advance t inp pc (settle (pc', k)) s' w))"
| "runtime_exec F U (Ev_Exit p) w = w\<lparr>wd_live := wd_live w - {p}\<rparr>"

text \<open>A request arrives on a new thread, and a retained tree that is not found exited is running.\<close>

definition sees :: "step_inputs \<Rightarrow> 'u runtime_world \<Rightarrow> bool" where
  "sees inp w = (case sv_process (wd_supervisor w) of None \<Rightarrow> True | Some p \<Rightarrow> si_exited inp \<or> p \<in> wd_live w)"

fun runtime_enabled :: "runtime_event \<Rightarrow> 'u runtime_world \<Rightarrow> bool" where
  "runtime_enabled (Ev_Enter t rq inp) w = (hm_get (wd_threads w) t = None \<and> sees inp w)"
| "runtime_enabled (Ev_Resume t inp) w = (hm_get (wd_threads w) t \<noteq> None \<and> sees inp w)"
| "runtime_enabled (Ev_Exit p) w = True"

definition runtime_step ::
  "file_system \<Rightarrow> 'u url_api \<Rightarrow> 'u runtime_world \<Rightarrow> runtime_event \<Rightarrow> 'u runtime_world \<Rightarrow> bool" where
  "runtime_step F U w e w' = (runtime_enabled e w \<and> w' = runtime_exec F U e w)"

section \<open>Invariant\<close>

text \<open>
  The retained tree is that of the current generation, it is starting or healthy, an endpoint is published only while healthy,
  and a published bootstrap URL comes with its endpoint from a candidate that was accepted.
\<close>

definition sup_ok :: "'u url_api \<Rightarrow> 'u Supervisor \<Rightarrow> bool" where
  "sup_ok U s =
     ((\<forall>p. sv_process s = Some p \<longrightarrow> p = sv_generation s \<and> sv_state s \<in> {Some Ms_Starting, Some Ms_Healthy}) \<and>
      (sv_state s = Some Ms_Healthy \<longrightarrow> sv_process s \<noteq> None) \<and> (sv_endpoint s \<noteq> None \<longrightarrow> sv_state s = Some Ms_Healthy) \<and>
      (\<forall>u. sv_bootstrap_url s = Some u \<longrightarrow>
         (\<exists>ep c expected. sv_endpoint s = Some ep \<and>
            parse_candidate U c expected = Ok \<lparr>pc_endpoint = ep, pc_bootstrap_url = Some u\<rparr>)))"

definition candidate_ok :: "'u url_api \<Rightarrow> 'u ParsedCandidate \<Rightarrow> bool" where
  "candidate_ok U c = ((\<exists>v expected. parse_candidate U v expected = Ok c) \<or> (\<exists>port. c = fixed_port_candidate port))"

text \<open>A thread that stops the generation \<open>g\<close> holds exactly that tree, and as long as \<open>g\<close> is current nothing is retained.\<close>

fun pc_ok :: "'u url_api \<Rightarrow> 'u Supervisor \<Rightarrow> 'u pc \<Rightarrow> bool" where
  "pc_ok U s (Pc_Confirm i g c) = candidate_ok U c"
| "pc_ok U s (Pc_Publish i g c) = candidate_ok U c"
| "pc_ok U s (Pc_Reap p x) = (p \<le> sv_generation s)"
| "pc_ok U s (Pc_Stopping i g p ep) = (p = g \<and> g \<le> sv_generation s \<and> (g = sv_generation s \<longrightarrow> sv_process s = None))"
| "pc_ok U s (Pc_StopFailed i g) = (g \<le> sv_generation s \<and> (g = sv_generation s \<longrightarrow> sv_process s = None))"
| "pc_ok U s (Pc_StopDone i g d r) = (g \<le> sv_generation s \<and> (g = sv_generation s \<longrightarrow> sv_process s = None))"
| "pc_ok U s (Pc_Restarting i p spec) = (\<forall>q \<in> set_option p. q \<le> sv_generation s)"
| "pc_ok U s pc = True"

text \<open>How the supervisor may change: a tree is retained only by a new generation.\<close>

definition sup_after :: "'u Supervisor \<Rightarrow> 'u Supervisor \<Rightarrow> bool" where
  "sup_after s s' = (sv_generation s \<le> sv_generation s' \<and>
     (sv_generation s' = sv_generation s \<longrightarrow> sv_process s' = None \<or> sv_process s' = sv_process s))"

definition section_ok :: "'u url_api \<Rightarrow> 'u Supervisor \<Rightarrow> 'u pc \<Rightarrow> 'u Supervisor \<Rightarrow> bool" where
  "section_ok U s pc s' = (sup_ok U s' \<and> sup_after s s' \<and> pc_ok U s' pc)"

lemma pc_ok_after:
  assumes "pc_ok U s pc" and "sup_after s s'"
  shows "pc_ok U s' pc"
  using assms by (cases pc) (auto simp: sup_after_def)

lemma sup_after_trans: "sup_after s t \<Longrightarrow> sup_after t u \<Longrightarrow> sup_after s u"
  by (auto simp: sup_after_def)

lemma sup_after_refl: "sup_after s s"
  by (simp add: sup_after_def)

lemma section_ok_via:
  assumes "sup_after s s1" and "section_ok U s1 pc s'"
  shows "section_ok U s pc s'"
  using assms sup_after_trans unfolding section_ok_def by blast

lemma record_crash_frame:
  "sv_generation (record_crash c s) = sv_generation s" "sv_environment_id (record_crash c s) = sv_environment_id s"
  "sv_process (record_crash c s) = sv_process s" "sv_state (record_crash c s) = sv_state s"
  "sv_endpoint (record_crash c s) = sv_endpoint s" "sv_bootstrap_url (record_crash c s) = sv_bootstrap_url s"
  "sv_retained_spec (record_crash c s) = sv_retained_spec s"
  by (simp_all add: record_crash_def Let_def)

lemma refresh_exit_frame:
  "sv_generation (refresh_exit inp s) = sv_generation s" "sv_environment_id (refresh_exit inp s) = sv_environment_id s"
  "sv_process (refresh_exit inp s) = (if si_exited inp then None else sv_process s)"
  by (auto simp: refresh_exit_def record_crash_frame Let_def)

lemma refresh_exit_ok:
  assumes "sup_ok U s"
  shows "sup_ok U (refresh_exit inp s)" "sup_after s (refresh_exit inp s)"
proof -
  show "sup_after s (refresh_exit inp s)" by (simp add: sup_after_def refresh_exit_frame)
  show "sup_ok U (refresh_exit inp s)"
    using assms by (cases "sv_process s \<noteq> None \<and> si_exited inp") (simp_all add: refresh_exit_def sup_ok_def Let_def)
qed

lemma answer_report_ok [simp]: "pc_ok U s (answer_report inp i s0)"
  by (simp add: answer_report_def)

lemma section_same: "sup_ok U s \<Longrightarrow> pc_ok U s pc \<Longrightarrow> section_ok U s pc s"
  by (simp add: section_ok_def sup_after_refl)

subsection \<open>Every section preserves it\<close>

lemma sup_ok_cleared:
  assumes "sv_process s = None" "sv_endpoint s = None" "sv_bootstrap_url s = None" "sv_state s \<noteq> Some Ms_Healthy"
  shows "sup_ok U s"
  using assms by (simp add: sup_ok_def)

lemma sup_ok_same:
  assumes "sup_ok U s" "sv_process s' = sv_process s" "sv_endpoint s' = sv_endpoint s" "sv_bootstrap_url s' = sv_bootstrap_url s"
    and "sv_state s' = sv_state s" "sv_generation s' = sv_generation s"
  shows "sup_ok U s'"
  using assms by (simp add: sup_ok_def)

lemma enter_start_ok:
  assumes "sup_ok U s" and "start_managed_environment F inp e s = ((pc, k), s')"
  shows "section_ok U s pc s'"
proof (cases "build_launch_spec F e")
  case (Ok spec)
  let ?s = "refresh_exit inp s"
  note r = refresh_exit_ok [OF assms(1), of inp]
  show ?thesis
  proof (rule section_ok_via [OF r(2)], cases "sv_process ?s = None")
    case True
    hence "s' = ?s\<lparr>sv_auto_restart := auto_restart_policy e, sv_retained_spec := Some spec, sv_recovery := None\<rparr>"
      and "pc = Pc_Spawn (me_id e) spec"
      using assms(2) Ok by (simp_all add: start_managed_environment_def Let_def)
    thus "section_ok U ?s pc s'" using sup_ok_same [OF r(1), of s'] by (simp add: section_ok_def sup_after_def)
  next
    case False
    hence "s' = ?s" "pc_ok U ?s pc" using assms(2) Ok by (auto simp: start_managed_environment_def Let_def split: if_splits)
    thus "section_ok U ?s pc s'" using r(1) by (simp add: section_same)
  qed
qed (use assms in \<open>auto simp: start_managed_environment_def intro: section_same\<close>)

lemma refresh_section:
  assumes "sup_ok U s" and "s' = refresh_exit inp s" and "pc_ok U s' pc"
  shows "section_ok U s pc s'"
  unfolding assms(2) by (rule section_ok_via [OF refresh_exit_ok(2) [OF assms(1)]])
    (rule section_same, rule refresh_exit_ok(1) [OF assms(1)], use assms(2,3) in simp)

lemma enter_status_ok:
  assumes "sup_ok U s" and "get_managed_runtime_status inp e s = ((pc, k), s')"
  shows "section_ok U s pc s'"
proof (cases "is_managed e")
  case True
  have "s' = refresh_exit inp s \<and> pc_ok U s' pc"
    using assms(2) True by (auto simp: get_managed_runtime_status_def Let_def split: if_splits option.splits)
  thus ?thesis using refresh_section [OF assms(1)] by blast
qed (use assms in \<open>auto simp: get_managed_runtime_status_def intro: section_same\<close>)

lemma enter_binding_ok:
  assumes "sup_ok U s" and "verified_surface_binding inp e g s = ((pc, k), s')"
  shows "section_ok U s pc s'"
proof (cases "is_managed e \<and> g \<noteq> 0")
  case True
  have "s' = refresh_exit inp s \<and> pc_ok U s' pc"
    using assms(2) True by (auto simp: verified_surface_binding_def Let_def split: if_splits option.splits)
  thus ?thesis using refresh_section [OF assms(1)] by blast
qed (use assms in \<open>auto simp: verified_surface_binding_def intro: section_same split: if_splits\<close>)

lemma enter_stop_ok:
  assumes "sup_ok U s" and "stop_managed_environment inp e g s = ((pc, k), s')"
  shows "section_ok U s pc s'"
proof (cases "is_managed e")
  case True
  let ?s = "refresh_exit inp s"
  note r = refresh_exit_ok [OF assms(1), of inp]
  show ?thesis
  proof (cases "other_environment e ?s \<or> g = 0 \<or> g \<noteq> sv_generation ?s")
    case refused: True
    hence "s' = ?s \<and> pc_ok U s' pc" using assms(2) True by (auto simp: stop_managed_environment_def Let_def split: if_splits)
    thus ?thesis using refresh_section [OF assms(1)] by blast
  next
    case False
    show ?thesis
    proof (rule section_ok_via [OF r(2)], cases "sv_process ?s")
      case None
      thus "section_ok U ?s pc s'" using assms(2) True False
        by (auto simp: stop_managed_environment_def Let_def section_ok_def sup_after_def intro!: sup_ok_cleared split: if_splits)
    next
      case (Some p)
      hence "p = sv_generation ?s" using r(1) by (simp add: sup_ok_def)
      thus "section_ok U ?s pc s'" using assms(2) True False Some
        by (auto simp: stop_managed_environment_def Let_def section_ok_def sup_after_def intro!: sup_ok_cleared split: if_splits)
    qed
  qed
qed (use assms in \<open>auto simp: stop_managed_environment_def intro: section_same\<close>)

lemma enter_restart_ok:
  assumes "sup_ok U s" and "restart_managed_environment F inp e g s = ((pc, k), s')"
  shows "section_ok U s pc s'"
proof (cases "is_managed e")
  case True
  let ?s = "refresh_exit inp s"
  note r = refresh_exit_ok [OF assms(1), of inp]
  show ?thesis
  proof (cases "other_environment e ?s \<or> g = 0 \<or> g \<noteq> sv_generation ?s")
    case refused: True
    hence "s' = ?s \<and> pc_ok U s' pc" using assms(2) True by (auto simp: restart_managed_environment_def Let_def split: if_splits)
    thus ?thesis using refresh_section [OF assms(1)] by blast
  next
    case False
    have p: "\<forall>q \<in> set_option (sv_process ?s). q \<le> sv_generation ?s" using r(1) by (auto simp: sup_ok_def)
    show ?thesis
      by (rule section_ok_via [OF r(2)])
        (use assms(2) True False p in
          \<open>auto simp: restart_managed_environment_def Let_def section_ok_def sup_after_def intro!: sup_ok_cleared split: if_splits\<close>)
  qed
qed (use assms in \<open>auto simp: restart_managed_environment_def intro: section_same\<close>)

lemma enter_ok:
  assumes "sup_ok U s" and "enter F inp rq s = ((pc, k), s')"
  shows "section_ok U s pc s'"
  using assms enter_start_ok enter_status_ok enter_binding_ok enter_stop_ok enter_restart_ok by (cases rq) simp_all

lemma spawn_ok:
  assumes "sup_ok U s" and "spawn_generation inp i spec s = (pc, s')"
  shows "section_ok U s pc s'"
proof -
  let ?s = "refresh_exit inp s"
  note r = refresh_exit_ok [OF assms(1), of inp]
  consider "s' = ?s" "pc_ok U s' pc"
    | "sv_generation s' = sv_generation ?s + 1" "sv_process s' = Some (sv_generation s')" "sv_state s' = Some Ms_Starting"
      "sv_endpoint s' = None" "sv_bootstrap_url s' = None" "pc_ok U s' pc"
    using assms(2) by (auto simp: spawn_generation_def Let_def checked_add_def split: if_splits option.splits)
  thus ?thesis
  proof cases
    case 1
    thus ?thesis using refresh_section [OF assms(1)] by blast
  next
    case 2
    show ?thesis by (rule section_ok_via [OF r(2)]) (use 2 in \<open>simp add: section_ok_def sup_after_def sup_ok_def\<close>)
  qed
qed

lemma while_alive_ok:
  assumes "sup_ok U s" and "while_alive inp i g nxt s = (pc, s')" and "\<And>s. pc_ok U s nxt"
  shows "section_ok U s pc s'"
proof -
  have "s' = refresh_exit inp s \<and> pc_ok U s' pc"
    using assms(2,3) by (auto simp: while_alive_def generation_is_alive_def Let_def split: if_splits)
  thus ?thesis using refresh_section [OF assms(1)] by blast
qed

lemma publish_ok:
  assumes "sup_ok U s" and "publish_endpoint inp i g c s = (pc, s')" and "candidate_ok U c"
  shows "section_ok U s pc s'"
proof -
  let ?s = "refresh_exit inp s"
  note r = refresh_exit_ok [OF assms(1), of inp]
  show ?thesis
  proof (cases "sv_environment_id ?s \<noteq> Some i \<or> sv_generation ?s \<noteq> g \<or> sv_process ?s = None")
    case True
    hence "s' = ?s \<and> pc_ok U s' pc" using assms(2) by (auto simp: publish_endpoint_def Let_def)
    thus ?thesis using refresh_section [OF assms(1)] by blast
  next
    case False
    have u: "\<exists>v expected. parse_candidate U v expected = Ok \<lparr>pc_endpoint = pc_endpoint c, pc_bootstrap_url = Some u\<rparr>"
      if "pc_bootstrap_url c = Some u" for u
    proof -
      have "c = \<lparr>pc_endpoint = pc_endpoint c, pc_bootstrap_url = Some u\<rparr>" using that by (cases c) simp
      moreover have "\<exists>v expected. parse_candidate U v expected = Ok c"
        using assms(3) that unfolding candidate_ok_def by (auto simp: fixed_port_candidate_def)
      ultimately show ?thesis by metis
    qed
    have s': "sv_process s' = sv_process ?s" "sv_generation s' = sv_generation ?s" "sv_state s' = Some Ms_Healthy"
        "sv_endpoint s' = Some (pc_endpoint c)" "sv_bootstrap_url s' = pc_bootstrap_url c" "pc_ok U s' pc"
      using assms(2) False by (auto simp: publish_endpoint_def Let_def)
    have "sup_ok U s'" using s' False r(1) u by (auto simp: sup_ok_def)
    thus ?thesis using s' r(2) by (auto simp: section_ok_def sup_after_def)
  qed
qed

lemma fail_start_ok:
  assumes "sup_ok U s" and "fail_start inp i g x own s = (pc, s')"
  shows "section_ok U s pc s'"
proof (cases "sv_environment_id s \<noteq> Some i \<or> sv_generation s \<noteq> g")
  case True
  thus ?thesis using assms by (auto simp: fail_start_def intro: section_same)
next
  case False
  have p: "sv_process s = Some p \<Longrightarrow> p \<le> sv_generation s" for p using assms(1) by (simp add: sup_ok_def)
  have "sv_process s' = None" "sv_endpoint s' = None" "sv_bootstrap_url s' = None" "sv_state s' \<noteq> Some Ms_Healthy"
      "sv_generation s' = sv_generation s" "pc_ok U s' pc"
    using assms(2) False p by (auto simp: fail_start_def Let_def record_crash_frame split: option.splits if_splits)
  thus ?thesis by (simp add: section_ok_def sup_after_def sup_ok_cleared)
qed

lemma stop_sections_ok:
  assumes "sup_ok U s" and "g \<le> sv_generation s" and "g = sv_generation s \<longrightarrow> sv_process s = None"
  shows "stop_failed i g s = (pc, s') \<Longrightarrow> section_ok U s pc s'"
    and "stop_done inp i g d released s = (pc, s') \<Longrightarrow> section_ok U s pc s'"
proof -
  show "section_ok U s pc s'" if "stop_failed i g s = (pc, s')"
  proof (cases "sv_generation s = g \<and> sv_environment_id s = Some i")
    case True
    thus ?thesis using that assms(3)
      by (auto simp: stop_failed_def section_ok_def sup_after_def intro!: sup_ok_cleared)
  next
    case False
    thus ?thesis using that assms(1) by (auto simp: stop_failed_def intro!: section_same)
  qed
  show "section_ok U s pc s'" if "stop_done inp i g d released s = (pc, s')"
  proof (cases "sv_generation s \<noteq> g \<or> sv_environment_id s \<noteq> Some i")
    case True
    thus ?thesis using that assms(1) by (auto simp: stop_done_def intro: section_same)
  next
    case False
    thus ?thesis using that assms(3)
      by (auto simp: stop_done_def Let_def section_ok_def sup_after_def intro!: sup_ok_cleared split: result.splits)
  qed
qed

lemma resolve_ok:
  assumes "sup_ok U s" and "resolve_binding inp i g s = (pc, s')"
  shows "section_ok U s pc s'"
proof -
  have "s' = refresh_exit inp s \<and> pc_ok U s' pc"
    using assms(2) by (auto simp: resolve_binding_def Let_def split: if_splits option.splits)
  thus ?thesis using refresh_section [OF assms(1)] by blast
qed

lemma candidate_ok_parsed: "parse_candidate U v expected = Ok c \<Longrightarrow> candidate_ok U c"
  unfolding candidate_ok_def by blast

lemma candidate_ok_fixed: "candidate_ok U (fixed_port_candidate port)"
  unfolding candidate_ok_def by blast

lemma resume_ok:
  assumes "sup_ok U s" and "pc_ok U s old" and "resume U inp old s = (pc, s')"
  shows "section_ok U s pc s'"
proof (cases old)
  case (Pc_Await i g expected)
  show ?thesis
    by (rule while_alive_ok [OF assms(1)])
      (use assms(3) Pc_Await in \<open>auto split: option.split result.split simp: candidate_ok_parsed\<close>)
next
  case (Pc_Fixed i g port)
  show ?thesis
  proof (cases "si_marker inp")
    case None
    show ?thesis by (rule while_alive_ok [OF assms(1)]) (use assms(3) Pc_Fixed None in \<open>auto split: if_splits\<close>)
  next
    case (Some v)
    thus ?thesis using assms Pc_Fixed by (auto intro!: section_same simp: candidate_ok_parsed split: result.splits)
  qed
next
  case (Pc_Grace i g port)
  show ?thesis
  proof (cases "si_grace_over inp")
    case True
    thus ?thesis using assms Pc_Grace by (auto intro!: section_same simp: candidate_ok_fixed)
  next
    case False
    show ?thesis
    proof (cases "case si_marker inp of None \<Rightarrow> Err CandidateInvalid | Some v \<Rightarrow> parse_candidate U v (Some port)")
      case (Ok c)
      hence "candidate_ok U c" by (auto split: option.splits intro: candidate_ok_parsed)
      thus ?thesis using assms Pc_Grace False Ok by (auto intro!: section_same)
    next
      case (Err x)
      show ?thesis by (rule while_alive_ok [OF assms(1)]) (use assms(3) Pc_Grace False Err in auto)
    qed
  qed
next
  case (Pc_Confirm i g c)
  show ?thesis by (rule while_alive_ok [OF assms(1)]) (use assms(2,3) Pc_Confirm in \<open>auto split: if_splits\<close>)
next
  case (Pc_StopFailed i g)
  thus ?thesis using stop_sections_ok(1) [OF assms(1), of g i pc s'] assms(2,3) by simp
next
  case (Pc_StopDone i g d released)
  thus ?thesis using stop_sections_ok(2) [OF assms(1), of g inp i d released pc s'] assms(2,3) by simp
qed (use assms spawn_ok publish_ok fail_start_ok resolve_ok in \<open>auto intro!: section_same split: option.splits result.splits\<close>)

subsection \<open>The whole world\<close>

definition trees_of_threads :: "(nat, 'u runtime_thread) hashmap \<Rightarrow> nat set" where
  "trees_of_threads m = {p. \<exists>t pc k. hm_get m t = Some (pc, k) \<and> p \<in> held_trees pc}"

definition world_ok :: "'u url_api \<Rightarrow> 'u runtime_world \<Rightarrow> bool" where
  "world_ok U w = (sup_ok U (wd_supervisor w) \<and>
     (\<forall>t pc k. hm_get (wd_threads w) t = Some (pc, k) \<longrightarrow> pc_ok U (wd_supervisor w) pc) \<and>
     wd_live w \<subseteq> set_option (sv_process (wd_supervisor w)) \<union> trees_of_threads (wd_threads w) \<union> wd_lost w)"

lemma world_okD:
  assumes "world_ok U w"
  shows "sup_ok U (wd_supervisor w)" "hm_get (wd_threads w) t = Some (pc, k) \<Longrightarrow> pc_ok U (wd_supervisor w) pc"
    and "wd_live w \<subseteq> set_option (sv_process (wd_supervisor w)) \<union> trees_of_threads (wd_threads w) \<union> wd_lost w"
  using assms unfolding world_ok_def by blast+

lemma trees_insert:
  "trees_of_threads (hm_insert t (pc, k) m) =
     held_trees pc \<union> {p. \<exists>t' pc' k'. t' \<noteq> t \<and> hm_get m t' = Some (pc', k') \<and> p \<in> held_trees pc'}"
  unfolding trees_of_threads_def hm_get_insert by auto

lemma advance_ok:
  assumes "world_ok U w" and "section_ok U (wd_supervisor w) pc s'"
    and "hm_get (wd_threads w) t = None \<and> held_trees old = {} \<or> (\<exists>k. hm_get (wd_threads w) t = Some (old, k))"
  shows "world_ok U (advance t inp old (pc, k') s' w)"
proof -
  let ?w = "advance t inp old (pc, k') s' w"
  let ?others = "{p. \<exists>t' pc' k'. t' \<noteq> t \<and> hm_get (wd_threads w) t' = Some (pc', k') \<and> p \<in> held_trees pc'}"
  have f: "wd_supervisor ?w = s'" "wd_threads ?w = hm_insert t (pc, k') (wd_threads w)" by (simp_all add: advance_def Let_def)
  have s: "sup_ok U s'" "sup_after (wd_supervisor w) s'" "pc_ok U s' pc" using assms(2) by (simp_all add: section_ok_def)
  have "pc_ok U s' pc0" if "hm_get (hm_insert t (pc, k') (wd_threads w)) t0 = Some (pc0, k0)" for t0 pc0 k0
    using that s(3) pc_ok_after [OF world_okD(2) [OF assms(1)] s(2)] by (auto simp: hm_get_insert split: if_splits)
  moreover have "trees_of_threads (wd_threads w) \<subseteq> ?others \<union> held_trees old"
  proof
    fix p
    assume "p \<in> trees_of_threads (wd_threads w)"
    then obtain t0 pc0 k0 where t0: "hm_get (wd_threads w) t0 = Some (pc0, k0)" "p \<in> held_trees pc0"
      unfolding trees_of_threads_def by blast
    show "p \<in> ?others \<union> held_trees old"
    proof (cases "t0 = t")
      case True
      thus ?thesis using assms(3) t0 by auto
    qed (use t0 in blast)
  qed
  hence "wd_live w \<subseteq> set_option (sv_process (wd_supervisor w)) \<union> held_trees old \<union> ?others \<union> wd_lost w"
    using world_okD(3) [OF assms(1)] by blast
  hence "wd_live ?w \<subseteq> set_option (sv_process s') \<union> (held_trees pc \<union> ?others) \<union> wd_lost ?w"
    by (auto simp: advance_def Let_def split: if_splits)
  ultimately show ?thesis unfolding world_ok_def f trees_insert using s(1) by blast
qed

lemma settle_cases: "settle (pc, k) = (pc, k) \<or> (\<exists>i g. settle (pc, k) = (Pc_Binding i g, None))"
  by (cases "(pc, k)" rule: settle.cases) auto

lemma runtime_step_ok:
  assumes "runtime_step F U w e w'" and "world_ok U w"
  shows "world_ok U w'"
proof (cases e)
  case (Ev_Enter t rq inp)
  obtain pc k s' where x: "enter F inp rq (wd_supervisor w) = ((pc, k), s')" by (metis prod.collapse)
  have "section_ok U (wd_supervisor w) pc s'" using enter_ok [OF world_okD(1) [OF assms(2)] x] .
  hence "world_ok U (advance t inp (Pc_Done (Err NotManaged)) (pc, k) s' w)"
    by (rule advance_ok [OF assms(2)]) (use assms(1) Ev_Enter in \<open>simp add: runtime_step_def\<close>)
  thus ?thesis using assms(1) x Ev_Enter by (simp add: runtime_step_def)
next
  case (Ev_Resume t inp)
  obtain pc k where t: "hm_get (wd_threads w) t = Some (pc, k)" using assms(1) Ev_Resume by (auto simp: runtime_step_def)
  obtain pc' s' where x: "resume U inp pc (wd_supervisor w) = (pc', s')" by fastforce
  have ok: "section_ok U (wd_supervisor w) pc' s'" using resume_ok [OF world_okD(1,2) [OF assms(2)] x] t by blast
  obtain pc'' k'' where c: "settle (pc', k) = (pc'', k'')" "pc'' = pc' \<or> (\<exists>i g. pc'' = Pc_Binding i g)"
    using settle_cases [of pc' k] by auto
  hence "section_ok U (wd_supervisor w) pc'' s'" using ok by (auto simp: section_ok_def)
  hence "world_ok U (advance t inp pc (pc'', k'') s' w)" by (rule advance_ok [OF assms(2)]) (use t in blast)
  thus ?thesis using assms(1) x t c(1) Ev_Resume by (simp add: runtime_step_def)
next
  case (Ev_Exit p)
  thus ?thesis using assms by (auto simp: runtime_step_def world_ok_def)
qed

interpretation runtime: preserved "runtime_step F U" "world_ok U" for F U
  by unfold_locales (rule runtime_step_ok)

lemma new_world_ok: "world_ok U new_world"
  by (simp add: world_ok_def new_world_def new_supervisor_def sup_ok_def hm_empty)

section \<open>Safe stop\<close>

text \<open>Events that ask for no start, stop or restart, and program points that neither spawn nor stop anything.\<close>

fun observing :: "runtime_event \<Rightarrow> bool" where
  "observing (Ev_Enter t rq inp) = (case rq of Rq_Status e \<Rightarrow> True | Rq_Binding e g \<Rightarrow> True | _ \<Rightarrow> False)"
| "observing e = True"

fun harmless :: "'u pc \<Rightarrow> bool" where
  "harmless (Pc_Spawn i spec) = False"
| "harmless (Pc_Stopping i g p ep) = False"
| "harmless (Pc_StopFailed i g) = False"
| "harmless (Pc_StopDone i g d r) = False"
| "harmless (Pc_Restarting i p spec) = False"
| "harmless pc = True"

definition latched :: "nat \<Rightarrow> 'u Supervisor \<Rightarrow> bool" where
  "latched g s = (sv_generation s = g \<and> sv_state s = Some Ms_SafeStop \<and> sv_process s = None \<and> safe_stop s)"

definition latched_world :: "nat \<Rightarrow> 'u runtime_world \<Rightarrow> bool" where
  "latched_world g w = (latched g (wd_supervisor w) \<and> (\<forall>t pc k. hm_get (wd_threads w) t = Some (pc, k) \<longrightarrow> harmless pc))"

definition observing_step ::
  "file_system \<Rightarrow> 'u url_api \<Rightarrow> 'u runtime_world \<Rightarrow> runtime_event \<Rightarrow> 'u runtime_world \<Rightarrow> bool" where
  "observing_step F U w e w' = (runtime_step F U w e w' \<and> observing e)"

lemma refresh_latched: "latched g s \<Longrightarrow> refresh_exit inp s = s"
  by (simp add: latched_def refresh_exit_def)

lemma harmless_answer: "harmless (answer_report inp i s)"
  by (simp add: answer_report_def)

lemma enter_latched:
  assumes "latched g s" and "observing (Ev_Enter t rq inp)" and "enter F inp rq s = ((pc, k), s')"
  shows "s' = s \<and> harmless pc"
proof -
  have "\<not> auto_restart_eligible s" using assms(1) by (simp add: latched_def auto_restart_eligible_def)
  thus ?thesis using assms
    by (cases rq) (auto simp: get_managed_runtime_status_def verified_surface_binding_def refresh_latched Let_def split: if_splits)
qed

lemma while_alive_latched:
  assumes "latched g s" and "while_alive inp i g' nxt s = (pc, s')"
  shows "latched g s' \<and> harmless pc"
proof -
  have "sv_process s = None" using assms(1) by (simp add: latched_def)
  thus ?thesis using assms by (auto simp: while_alive_def generation_is_alive_def refresh_latched [OF assms(1)] Let_def)
qed

lemma fail_start_latched:
  assumes "latched g s" and "fail_start inp i g' x own s = (pc, s')"
  shows "latched g s' \<and> harmless pc"
proof -
  have "sv_process s = None" "safe_stop s" using assms(1) by (simp_all add: latched_def)
  thus ?thesis using assms by (auto simp: fail_start_def latched_def safe_stop_def Let_def split: if_splits)
qed

lemma resume_latched:
  assumes "latched g s" and "harmless old" and "resume U inp old s = (pc, s')"
  shows "latched g s' \<and> harmless pc"
proof (cases old)
  case (Pc_Await i g' expected)
  show ?thesis by (rule while_alive_latched [OF assms(1)]) (use assms(3) Pc_Await in simp)
next
  case (Pc_Fixed i g' port)
  show ?thesis
  proof (cases "si_marker inp")
    case None
    show ?thesis by (rule while_alive_latched [OF assms(1)]) (use assms(3) Pc_Fixed None in simp)
  next
    case (Some v)
    thus ?thesis using assms Pc_Fixed by (auto split: result.splits)
  qed
next
  case (Pc_Grace i g' port)
  show ?thesis
  proof (cases "si_grace_over inp")
    case True
    thus ?thesis using assms Pc_Grace by auto
  next
    case False
    show ?thesis
    proof (cases "case si_marker inp of None \<Rightarrow> Err CandidateInvalid | Some v \<Rightarrow> parse_candidate U v (Some port)")
      case (Ok c)
      thus ?thesis using assms Pc_Grace False by auto
    next
      case (Err x)
      show ?thesis by (rule while_alive_latched [OF assms(1)]) (use assms(3) Pc_Grace False Err in simp)
    qed
  qed
next
  case (Pc_Confirm i g' c)
  show ?thesis by (rule while_alive_latched [OF assms(1)]) (use assms(3) Pc_Confirm in simp)
next
  case (Pc_Publish i g' c)
  thus ?thesis using assms by (auto simp: publish_endpoint_def refresh_latched [OF assms(1)] Let_def latched_def split: if_splits)
next
  case (Pc_Fail i g' x own)
  thus ?thesis using fail_start_latched [OF assms(1)] assms(3) by simp
next
  case (Pc_Report i)
  thus ?thesis using assms harmless_answer by auto
next
  case (Pc_Binding i g')
  thus ?thesis using assms
    by (auto simp: resolve_binding_def refresh_latched [OF assms(1)] Let_def split: if_splits option.splits)
qed (use assms in auto)

lemma latched_advance:
  assumes "latched_world g w" and "latched g s'" and "harmless (fst th)"
  shows "latched_world g (advance t inp old th s' w)"
  using assms by (auto simp: latched_world_def advance_def Let_def hm_get_insert split: if_splits)

lemma observing_step_latched:
  assumes "observing_step F U w e w'" and "latched_world g w"
  shows "latched_world g w'"
proof (cases e)
  case (Ev_Enter t rq inp)
  obtain pc k s' where x: "enter F inp rq (wd_supervisor w) = ((pc, k), s')" by (metis prod.collapse)
  have l: "latched g (wd_supervisor w)" using assms(2) by (simp add: latched_world_def)
  have "observing (Ev_Enter t rq inp)" using assms(1) Ev_Enter by (simp add: observing_step_def)
  from enter_latched [OF l this x] l have "latched g s'" "harmless (fst (pc, k))" by simp_all
  from latched_advance [OF assms(2) this] show ?thesis
    using assms(1) Ev_Enter x by (simp add: observing_step_def runtime_step_def)
next
  case (Ev_Resume t inp)
  obtain pc k where t: "hm_get (wd_threads w) t = Some (pc, k)"
    using assms(1) Ev_Resume by (auto simp: observing_step_def runtime_step_def)
  obtain pc' s' where x: "resume U inp pc (wd_supervisor w) = (pc', s')" by fastforce
  have l: "latched g (wd_supervisor w)" and h: "harmless pc" using assms(2) t by (auto simp: latched_world_def)
  have r: "latched g s'" "harmless pc'" using resume_latched [OF l h x] by simp_all
  have "harmless (fst (settle (pc', k)))" using settle_cases [of pc' k] r(2) by auto
  from latched_advance [OF assms(2) r(1) this] show ?thesis
    using assms(1) Ev_Resume x t by (simp add: observing_step_def runtime_step_def)
next
  case (Ev_Exit p)
  thus ?thesis using assms by (simp add: observing_step_def runtime_step_def latched_world_def)
qed

interpretation latched: preserved "observing_step F U" "latched_world g" for F U g
  by unfold_locales (rule observing_step_latched)

lemma third_crash:
  assumes "sv_process s = Some p" and "sv_recovery s = Some r" and "2 \<le> rv_crash_count r"
    and "si_exited inp" and "si_crash_ms inp = Some now" and "now - rv_window_start r \<le> 60000"
  shows "latched (sv_generation s) (refresh_exit inp s)"
  using assms
  by (simp add: latched_def refresh_exit_def record_crash_def safe_stop_def RECOVERY_WINDOW_def RECOVERY_BUDGET_def Let_def)

section \<open>Progress\<close>

text \<open>How many steps a thread is from its answer once its deadlines have passed.\<close>

fun pc_rank :: "'u pc \<Rightarrow> nat" where
  "pc_rank (Pc_Restarting i p spec) = 10"
| "pc_rank (Pc_Spawn i spec) = 9"
| "pc_rank (Pc_Await i g expected) = 8"
| "pc_rank (Pc_Fixed i g port) = 7"
| "pc_rank (Pc_Grace i g port) = 6"
| "pc_rank (Pc_Confirm i g c) = 5"
| "pc_rank (Pc_Publish i g c) = 4"
| "pc_rank (Pc_Fail i g x own) = 4"
| "pc_rank (Pc_Stopping i g p ep) = 4"
| "pc_rank (Pc_Reap p x) = 3"
| "pc_rank (Pc_StopDone i g d released) = 3"
| "pc_rank (Pc_StopFailed i g) = 3"
| "pc_rank (Pc_Report i) = 3"
| "pc_rank (Pc_Binding i g) = 1"
| "pc_rank (Pc_Done r) = 0"

definition thread_rank :: "'u runtime_thread \<Rightarrow> nat" where
  "thread_rank th = pc_rank (fst th) + (if snd th = None then 0 else 2)"

lemma rank_answer [simp]: "pc_rank (answer_report inp i s) = 0"
  by (simp add: answer_report_def)

lemma while_alive_rank:
  assumes "while_alive inp i g nxt s = (pc', s')"
  shows "pc' = nxt \<or> pc_rank pc' = 4"
  using assms by (auto simp: while_alive_def generation_is_alive_def Let_def split: if_splits)

lemma rank_sections:
  "pc_rank (fst (spawn_generation inp i spec s)) \<le> 8" "pc_rank (fst (publish_endpoint inp i g c s)) = 0"
  "pc_rank (fst (fail_start inp i g x own s)) \<le> 3" "pc_rank (fst (stop_failed i g s)) = 0"
  "pc_rank (fst (stop_done inp i g d released s)) = 0" "pc_rank (fst (resolve_binding inp i g s)) = 0"
proof -
  show "pc_rank (fst (spawn_generation inp i spec s)) \<le> 8"
    by (simp add: spawn_generation_def Let_def split: option.splits)
  show "pc_rank (fst (fail_start inp i g x own s)) \<le> 3"
    by (simp add: fail_start_def Let_def split: option.splits)
  show "pc_rank (fst (resolve_binding inp i g s)) = 0"
    by (simp add: resolve_binding_def Let_def split: option.splits)
  show "pc_rank (fst (stop_done inp i g d released s)) = 0"
    by (simp add: stop_done_def Let_def split: result.splits)
qed (simp_all add: publish_endpoint_def stop_failed_def Let_def)

text \<open>The steps of the waiting loops, where a deadline decides.\<close>

lemma loop_rank:
  assumes "resume U inp pc s = (pc', s')" and "pc_rank pc \<in> {5, 6, 7, 8}"
  shows "pc_rank pc' \<le> pc_rank pc" and "si_deadline inp \<Longrightarrow> si_grace_over inp \<Longrightarrow> pc_rank pc' < pc_rank pc"
proof -
  have "pc_rank pc' \<le> pc_rank pc \<and> (si_deadline inp \<and> si_grace_over inp \<longrightarrow> pc_rank pc' < pc_rank pc)"
  proof (cases pc)
    case (Pc_Await i g expected)
    thus ?thesis using assms(1) by (auto dest!: while_alive_rank split: option.splits result.splits)
  next
    case (Pc_Fixed i g port)
    thus ?thesis using assms(1) by (auto dest!: while_alive_rank split: option.splits result.splits)
  next
    case (Pc_Grace i g port)
    thus ?thesis using assms(1) by (auto dest!: while_alive_rank split: option.splits result.splits if_splits)
  next
    case (Pc_Confirm i g c)
    thus ?thesis using assms(1) by (auto dest!: while_alive_rank)
  qed (use assms(2) in simp_all)
  thus "pc_rank pc' \<le> pc_rank pc" and "si_deadline inp \<Longrightarrow> si_grace_over inp \<Longrightarrow> pc_rank pc' < pc_rank pc" by simp_all
qed

lemma resume_rank:
  assumes "resume U inp pc s = (pc', s')"
  shows "pc_rank pc' \<le> pc_rank pc" and "si_deadline inp \<Longrightarrow> si_grace_over inp \<Longrightarrow> 0 < pc_rank pc \<Longrightarrow> pc_rank pc' < pc_rank pc"
proof -
  have "pc_rank pc' \<le> pc_rank pc \<and> (si_deadline inp \<and> si_grace_over inp \<and> 0 < pc_rank pc \<longrightarrow> pc_rank pc' < pc_rank pc)"
  proof (cases "pc_rank pc \<in> {5, 6, 7, 8}")
    case True
    thus ?thesis using loop_rank [OF assms] by simp
  next
    case False
    have "pc' = fst (resume U inp pc s)" by (simp add: assms)
    thus ?thesis
    proof (cases pc)
      case (Pc_Spawn i spec)
      thus ?thesis using rank_sections(1) [of inp i spec s] assms by simp
    next
      case (Pc_Fail i g x own)
      thus ?thesis using rank_sections(3) [of inp i g x own s] assms by simp
    qed (use False in \<open>auto simp: rank_sections split: result.splits option.splits\<close>)
  qed
  thus "pc_rank pc' \<le> pc_rank pc"
    and "si_deadline inp \<Longrightarrow> si_grace_over inp \<Longrightarrow> 0 < pc_rank pc \<Longrightarrow> pc_rank pc' < pc_rank pc" by simp_all
qed

lemma rank_0: "pc_rank pc = 0 \<longleftrightarrow> (\<exists>r. pc = Pc_Done r)"
  by (cases pc) simp_all

lemma thread_rank_0: "thread_rank th = 0 \<longleftrightarrow> (\<exists>r. th = (Pc_Done r, None))"
  by (cases th) (auto simp: thread_rank_def rank_0)

lemma settle_rank:
  "thread_rank (settle (pc, k)) \<le> thread_rank (pc, k)" "0 < pc_rank pc \<Longrightarrow> settle (pc, k) = (pc, k)"
  "k \<noteq> None \<Longrightarrow> pc_rank pc = 0 \<Longrightarrow> thread_rank (settle (pc, k)) < thread_rank (pc, k)"
  by (cases "(pc, k)" rule: settle.cases; simp add: thread_rank_def)+

lemma thread_rank_step:
  assumes "resume U inp pc s = (pc', s')"
  shows "thread_rank (settle (pc', k)) \<le> thread_rank (pc, k)"
    and "si_deadline inp \<Longrightarrow> si_grace_over inp \<Longrightarrow> 0 < thread_rank (pc, k) \<Longrightarrow> thread_rank (settle (pc', k)) < thread_rank (pc, k)"
proof -
  have le: "thread_rank (pc', k) \<le> thread_rank (pc, k)" using resume_rank(1) [OF assms] by (simp add: thread_rank_def)
  show "thread_rank (settle (pc', k)) \<le> thread_rank (pc, k)" using settle_rank(1) [of pc' k] le by linarith
  assume d: "si_deadline inp" "si_grace_over inp" and pos: "0 < thread_rank (pc, k)"
  show "thread_rank (settle (pc', k)) < thread_rank (pc, k)"
  proof (cases "pc_rank pc = 0")
    case True
    hence "pc_rank pc' = 0" "k \<noteq> None" using resume_rank(1) [OF assms] pos by (simp_all add: thread_rank_def split: if_splits)
    from settle_rank(3) [OF this(2,1)] le show ?thesis by linarith
  next
    case False
    hence "thread_rank (pc', k) < thread_rank (pc, k)" using resume_rank(2) [OF assms d] by (simp add: thread_rank_def)
    thus ?thesis using settle_rank(1) [of pc' k] by linarith
  qed
qed

text \<open>The steps of the thread \<open>t\<close> in an execution, and that they find its deadlines passed.\<close>

fun resumes :: "nat \<Rightarrow> runtime_event \<Rightarrow> bool" where
  "resumes t (Ev_Resume u inp) = (u = t)"
| "resumes t e = False"

fun in_time :: "runtime_event \<Rightarrow> bool" where
  "in_time (Ev_Resume u inp) = (\<not> (si_deadline inp \<and> si_grace_over inp))"
| "in_time e = True"

lemma advance_thread [simp]: "hm_get (wd_threads (advance u inp old th s' w)) t = (if t = u then Some th else hm_get (wd_threads w) t)"
  by (simp add: advance_def Let_def)

lemma runtime_step_thread:
  assumes "runtime_step F U w e w'" and "hm_get (wd_threads w) t = Some th"
  shows "\<exists>th'. hm_get (wd_threads w') t = Some th' \<and> thread_rank th' \<le> thread_rank th \<and>
    (resumes t e \<and> \<not> in_time e \<and> 0 < thread_rank th \<longrightarrow> thread_rank th' < thread_rank th)"
proof (cases e)
  case (Ev_Enter u rq inp)
  hence "u \<noteq> t" using assms by (auto simp: runtime_step_def)
  hence "hm_get (wd_threads w') t = Some th" using assms Ev_Enter by (auto simp: runtime_step_def split: prod.splits)
  thus ?thesis using Ev_Enter by simp
next
  case (Ev_Resume u inp)
  then obtain pc k where u: "hm_get (wd_threads w) u = Some (pc, k)" using assms(1) by (auto simp: runtime_step_def)
  obtain pc' s' where x: "resume U inp pc (wd_supervisor w) = (pc', s')" by fastforce
  have w': "w' = advance u inp pc (settle (pc', k)) s' w" using assms(1) Ev_Resume u x by (simp add: runtime_step_def)
  show ?thesis
  proof (cases "u = t")
    case True
    hence "th = (pc, k)" using u assms(2) by simp
    thus ?thesis using thread_rank_step [OF x, of k] True Ev_Resume w' by simp
  qed (use assms(2) w' Ev_Resume in simp)
qed (use assms in \<open>simp add: runtime_step_def\<close>)

lemma run_thread_rank:
  assumes "run (runtime_step F U) w es w'" and "hm_get (wd_threads w) t = Some th" and "\<forall>e \<in> set es. resumes t e \<longrightarrow> \<not> in_time e"
  shows "\<exists>th'. hm_get (wd_threads w') t = Some th' \<and> thread_rank th' \<le> thread_rank th - length (filter (resumes t) es)"
  using assms
proof (induction arbitrary: th rule: run.induct)
  case (run_nil w)
  thus ?case by simp
next
  case (run_cons w e w1 es w2)
  obtain th1 where t1: "hm_get (wd_threads w1) t = Some th1" "thread_rank th1 \<le> thread_rank th"
    "resumes t e \<and> \<not> in_time e \<and> 0 < thread_rank th \<longrightarrow> thread_rank th1 < thread_rank th"
    using runtime_step_thread [OF run_cons(1) run_cons.prems(1)] by blast
  obtain th2 where t2: "hm_get (wd_threads w2) t = Some th2" "thread_rank th2 \<le> thread_rank th1 - length (filter (resumes t) es)"
    using run_cons.IH [OF t1(1)] run_cons.prems(2) by auto
  have "thread_rank th2 \<le> thread_rank th - length (filter (resumes t) (e # es))"
    using t1(2,3) t2(2) run_cons.prems(2) by (cases "resumes t e") auto
  thus ?case using t2(1) by blast
qed

lemma pc_rank_le: "pc_rank pc \<le> 10"
  by (cases pc) simp_all

section \<open>Executions for the examples\<close>

fun runtime_run :: "file_system \<Rightarrow> 'u url_api \<Rightarrow> runtime_event list \<Rightarrow> 'u runtime_world \<Rightarrow> 'u runtime_world option" where
  "runtime_run F U [] w = Some w"
| "runtime_run F U (e # es) w = (if runtime_enabled e w then runtime_run F U es (runtime_exec F U e w) else None)"

lemma runtime_run_run: "runtime_run F U es w = Some w' \<Longrightarrow> run (runtime_step F U) w es w'"
proof (induction es arbitrary: w)
  case (Cons e es)
  hence "runtime_step F U w e (runtime_exec F U e w)" "runtime_run F U es (runtime_exec F U e w) = Some w'"
    by (simp_all add: runtime_step_def split: if_splits)
  thus ?case using Cons.IH run_cons [where step = "runtime_step F U"] by blast
qed (simp add: run_nil)

definition calm :: step_inputs where
  "calm = \<lparr>si_exited = False, si_crash_ms = Some 5, si_launch_ms = Some 5, si_report_ms = Some 5, si_spawn = None,
     si_marker = None, si_probe = True, si_deadline = False, si_grace_over = True, si_stop = Some Graceful, si_kill_ok = True,
     si_released = True\<rparr>"

definition calm_exited :: step_inputs where
  "calm_exited = calm\<lparr>si_exited := True\<rparr>"

definition announced :: step_inputs where
  "announced = calm\<lparr>si_marker := Some ''http://127.0.0.1:2048/''\<rparr>"

lemma calm_sel [simp]:
  "si_exited calm = False" "si_crash_ms calm = Some 5" "si_launch_ms calm = Some 5" "si_report_ms calm = Some 5"
  "si_spawn calm = None" "si_probe calm = True" "si_stop calm = Some Graceful" "si_kill_ok calm = True" "si_marker calm = None"
  "si_exited calm_exited = True" "si_crash_ms calm_exited = Some 5" "si_report_ms calm_exited = Some 5" "si_kill_ok calm_exited = True"
  "si_exited announced = False" "si_marker announced = Some ''http://127.0.0.1:2048/''" "si_kill_ok announced = True"
  by (simp_all add: calm_def calm_exited_def announced_def)

lemma sample_env_sel [simp]:
  "me_id sample_environment = ''managed-local''" "is_managed sample_environment" "auto_restart_policy sample_environment"
  by (simp_all add: sample_environment_def is_managed_def auto_restart_policy_def)

lemma checked_add_small: "checked_add 0 (Suc 0) = Some (Suc 0)" "checked_add (Suc 0) (Suc 0) = Some 2"
  by (simp_all add: checked_add_def u64_max_def)

lemmas runtime_eval = checked_add_small start_managed_environment_def get_managed_runtime_status_def stop_managed_environment_def
  verified_surface_binding_def sees_def refresh_exit_def advance_def spawn_generation_def killed_def Let_def hm_insert_def hm_get_def
  other_environment_def while_alive_def generation_is_alive_def publish_endpoint_def resolve_binding_def answer_report_def
  supervisor_report_def

definition started :: "LaunchSpec \<Rightarrow> 'u runtime_world" where
  "started spec = \<lparr>wd_supervisor = \<lparr>sv_environment_id = Some ''managed-local'', sv_state = Some Ms_Starting, sv_generation = 1,
       sv_instance_id = Some (''managed-'' @ show_nat 1 @ ''-'' @ show_nat 5), sv_endpoint = None, sv_bootstrap_url = None,
       sv_stop_disposition = Some NotRequested,
       sv_evidence = [evidence ''MANAGED_PROCESS_SPAWNED'' ''info'' ''A new Managed generation was created with a retained process-tree handle.''],
       sv_process = Some 1, sv_retained_spec = Some spec, sv_auto_restart = True, sv_recovery = None\<rparr>,
     wd_threads = [(1, (Pc_Await ''managed-local'' 1 (Some 2048), None))], wd_live = {1}, wd_lost = {}\<rparr>"

definition start_events :: "runtime_event list" where
  "start_events = [Ev_Enter 1 (Rq_Start sample_environment) calm, Ev_Resume 1 calm]"

lemma runtime_start_run:
  assumes "build_launch_spec sample_files sample_environment = Ok spec" "ls_expected_port spec = Some 2048"
  shows "runtime_run sample_files U start_events new_world = Some (started spec)"
  by (simp add: assms runtime_eval new_world_def new_supervisor_def started_def start_events_def)

lemma runtime_run_append:
  "runtime_run F U es w = Some w1 \<Longrightarrow> runtime_run F U (es @ es') w = runtime_run F U es' w1"
  by (induction es arbitrary: w) (auto split: if_splits)

text \<open>A start whose endpoint is announced and published, followed by a request for its binding.\<close>

definition binding_events :: "runtime_event list" where
  "binding_events = [Ev_Resume 1 calm, Ev_Resume 1 announced, Ev_Resume 1 calm, Ev_Resume 1 calm,
     Ev_Enter 2 (Rq_Binding sample_environment 1) calm]"

definition sample_candidate :: "string ParsedCandidate" where
  "sample_candidate = \<lparr>pc_endpoint = \<lparr>en_scheme = ''http'', en_host = ''127.0.0.1'', en_port = 2048,
       en_source = ''managed_process_output'', en_verification = ''owned_generation_output_and_tcp''\<rparr>,
     pc_bootstrap_url = Some ''http://127.0.0.1:2048/''\<rparr>"

lemma sample_candidate_parse: "parse_candidate sample_urls ''http://127.0.0.1:2048/'' (Some 2048) = Ok sample_candidate"
proof -
  have "show_nat 2048 = ''2048''" "raw_authority ''http://127.0.0.1:2048/'' = Some ''127.0.0.1:2048''" by code_simp+
  thus ?thesis by (simp add: parse_candidate_def sample_urls_def MAX_OUTPUT_LINE_BYTES_def token_ok_def sample_candidate_def)
qed

lemma runtime_run_step:
  assumes "runtime_enabled e w" and "runtime_exec F U e w = w1" and "runtime_run F U es w1 = r"
  shows "runtime_run F U (e # es) w = r"
  using assms by simp

definition waiting :: "LaunchSpec \<Rightarrow> string pc \<Rightarrow> string runtime_world" where
  "waiting spec pc = (started spec)\<lparr>wd_threads := [(1, (pc, None))]\<rparr>"

lemma waiting_sel:
  "wd_threads (waiting spec pc) = [(1, (pc, None))]" "wd_live (waiting spec pc) = {1}" "wd_lost (waiting spec pc) = {}"
  "sv_process (wd_supervisor (waiting spec pc)) = Some 1" "sv_generation (wd_supervisor (waiting spec pc)) = 1"
  "sv_environment_id (wd_supervisor (waiting spec pc)) = Some ''managed-local''"
  by (simp_all add: waiting_def started_def)

lemma waiting_step:
  assumes "\<not> si_exited inp" and "resume sample_urls inp pc (wd_supervisor (waiting spec pc)) = (pc', wd_supervisor (waiting spec pc))"
    and "held_trees pc = {}" and "held_trees pc' = {}"
  shows "runtime_enabled (Ev_Resume 1 inp) (waiting spec pc)"
    and "runtime_exec sample_files sample_urls (Ev_Resume 1 inp) (waiting spec pc) = waiting spec pc'"
proof -
  show "runtime_enabled (Ev_Resume 1 inp) (waiting spec pc)" by (simp add: sees_def waiting_sel hm_get_def)
  have "advance 1 inp pc (pc', None) (wd_supervisor (waiting spec pc)) (waiting spec pc) = waiting spec pc'"
    by (simp add: advance_def waiting_sel assms(3,4) Let_def hm_insert_def) (simp add: waiting_def started_def)
  thus "runtime_exec sample_files sample_urls (Ev_Resume 1 inp) (waiting spec pc) = waiting spec pc'"
    by (simp add: waiting_sel hm_get_def assms(2))
qed

lemma while_alive_waiting:
  "\<not> si_exited inp \<Longrightarrow> while_alive inp ''managed-local'' 1 nxt (wd_supervisor (waiting spec pc)) = (nxt, wd_supervisor (waiting spec pc))"
  by (simp add: while_alive_def generation_is_alive_def refresh_exit_def waiting_sel Let_def)

definition published :: "LaunchSpec \<Rightarrow> string Supervisor" where
  "published spec = (wd_supervisor (started spec))\<lparr>sv_state := Some Ms_Healthy, sv_endpoint := Some (pc_endpoint sample_candidate),
     sv_bootstrap_url := pc_bootstrap_url sample_candidate, sv_evidence := [evidence ''MANAGED_ENDPOINT_VERIFIED'' ''info''
       ''The owned generation emitted an exact loopback endpoint and accepted a bounded TCP connection.'']\<rparr>"

lemma published_sel:
  "sv_process (published spec) = Some 1" "sv_generation (published spec) = 1" "sv_state (published spec) = Some Ms_Healthy"
  "sv_environment_id (published spec) = Some ''managed-local''" "sv_endpoint (published spec) = Some (pc_endpoint sample_candidate)"
  "sv_bootstrap_url (published spec) = pc_bootstrap_url sample_candidate"
  by (simp_all add: published_def started_def)

lemma published_refresh: "refresh_exit calm (published spec) = published spec"
  by (simp add: refresh_exit_def)

definition bound :: "LaunchSpec \<Rightarrow> string runtime_world" where
  "bound spec = (started spec)\<lparr>wd_supervisor := published spec,
     wd_threads := [(1, (answer_report calm ''managed-local'' (published spec), None)), (2, (Pc_Binding ''managed-local'' 1, None))]\<rparr>"

lemma runtime_binding_run: "runtime_run sample_files sample_urls binding_events (waiting spec (Pc_Await ''managed-local'' 1 (Some 2048))) = Some (bound spec)"
proof -
  note One_nat_def [simp del]
  let ?i = "''managed-local''"
  let ?w4 = "(started spec)\<lparr>wd_supervisor := published spec, wd_threads := [(1, (answer_report calm ?i (published spec), None))]\<rparr>"
  have s1: "resume sample_urls calm (Pc_Await ?i 1 (Some 2048)) s = while_alive calm ?i 1 (Pc_Fixed ?i 1 2048) s" for s by simp
  have s2: "resume sample_urls announced (Pc_Fixed ?i 1 2048) s = (Pc_Confirm ?i 1 sample_candidate, s)" for s
    by (simp add: sample_candidate_parse)
  have s3: "resume sample_urls calm (Pc_Confirm ?i 1 sample_candidate) s = while_alive calm ?i 1 (Pc_Publish ?i 1 sample_candidate) s" for s
    by simp
  have "refresh_exit calm (wd_supervisor (waiting spec pc)) = wd_supervisor (started spec)" for pc
    by (simp add: refresh_exit_def waiting_def)
  hence p4: "publish_endpoint calm ?i 1 sample_candidate (wd_supervisor (waiting spec pc)) =
      (answer_report calm ?i (published spec), published spec)" for pc
    by (simp add: publish_endpoint_def Let_def published_def) (simp add: started_def sample_candidate_def)
  have d: "held_trees (answer_report inp i s) = {}" "settle (answer_report inp i s, None) = (answer_report inp i s, None)" for inp i and s :: "string Supervisor"
    by (simp_all add: answer_report_def)
  have e4: "runtime_exec sample_files sample_urls (Ev_Resume 1 calm) (waiting spec (Pc_Publish ?i 1 sample_candidate)) = ?w4"
    by (simp add: waiting_sel hm_get_def p4 d advance_def published_sel hm_insert_def Let_def) (simp add: waiting_def started_def)
  have e5: "runtime_exec sample_files sample_urls (Ev_Enter 2 (Rq_Binding sample_environment 1) calm) ?w4 = bound spec"
    by (simp add: verified_surface_binding_def published_refresh other_environment_def published_sel auto_restart_eligible_def
        advance_def hm_insert_def Let_def bound_def)
  have n5: "runtime_enabled (Ev_Enter 2 (Rq_Binding sample_environment 1) calm) ?w4"
    by (simp add: hm_get_def sees_def published_sel) (simp add: started_def)
  have n4: "runtime_enabled (Ev_Resume 1 calm) (waiting spec (Pc_Publish ?i 1 sample_candidate))"
    by (simp add: sees_def waiting_sel hm_get_def)
  have w: "resume sample_urls inp pc (wd_supervisor (waiting spec pc)) = (pc', wd_supervisor (waiting spec pc))"
    if "resume sample_urls inp pc (wd_supervisor (waiting spec pc)) = while_alive inp ?i 1 pc' (wd_supervisor (waiting spec pc))"
      "\<not> si_exited inp" for inp pc pc'
    using that(1) while_alive_waiting [OF that(2)] by simp
  note w1 = waiting_step [OF _ w [OF s1]] and w2 = waiting_step [OF _ s2] and w3 = waiting_step [OF _ w [OF s3]]
  show ?thesis
    unfolding binding_events_def
    by (intro runtime_run_step [OF w1] runtime_run_step [OF w2] runtime_run_step [OF w3] runtime_run_step [OF n4 e4]
        runtime_run_step [OF n5 e5]) simp_all
qed

definition crashed_twice :: "string runtime_world" where
  "crashed_twice = (started \<lparr>ls_executable = [], ls_args = [], ls_cwd = None, ls_environment = [], ls_expected_port = None\<rparr>)
     \<lparr>wd_threads := [], wd_supervisor := (wd_supervisor (started \<lparr>ls_executable = [], ls_args = [], ls_cwd = None,
        ls_environment = [], ls_expected_port = None\<rparr>))\<lparr>sv_recovery :=
          Some \<lparr>rv_crash_count = 2, rv_window_start = 5, rv_last_crash = Some 5, rv_safe_stop = False\<rparr>\<rparr>\<rparr>"

text \<open>The retained process exits, a status request decides to restart it, and a stop is answered before the restart.\<close>

definition undo_events :: "runtime_event list" where
  "undo_events = [Ev_Exit 1, Ev_Enter 2 (Rq_Status sample_environment) calm_exited, Ev_Enter 3 (Rq_Stop sample_environment 1) calm,
     Ev_Resume 2 calm]"

lemma runtime_undo_run:
  "\<exists>w r. runtime_run sample_files U undo_events (started spec) = Some w \<and>
     hm_get (wd_threads w) 3 = Some (Pc_Done (Ok (An_Report r)), None) \<and> mr_state r = Ms_Stopped \<and>
     sv_process (wd_supervisor w) = Some 2 \<and> wd_live w = {2}"
proof -
  let ?i = "''managed-local''"
  define w1 where "w1 = (started spec :: 'a runtime_world)\<lparr>wd_live := {}\<rparr>"
  define c where "c = refresh_exit calm_exited (wd_supervisor w1)"
  have c: "sv_process c = None" "sv_generation c = 1" "sv_environment_id c = Some ?i" "sv_state c = Some Ms_Crashed"
      "auto_restart_eligible c" "sv_retained_spec c = Some spec"
    by (simp_all add: c_def w1_def refresh_exit_def started_def record_crash_def safe_stop_def RECOVERY_WINDOW_def RECOVERY_BUDGET_def
        auto_restart_eligible_def Let_def)
  have w1: "sv_process (wd_supervisor w1) = Some 1" "wd_lost w1 = {}" "wd_live w1 = {}"
      "wd_threads w1 = [(1, (Pc_Await ?i 1 (Some 2048), None))]"
    by (simp_all add: w1_def started_def)
  define w2 where "w2 = w1\<lparr>wd_supervisor := c, wd_threads := [(1, (Pc_Await ?i 1 (Some 2048), None)), (2, (Pc_Spawn ?i spec, None))]\<rparr>"
  note c0 = c_def [symmetric]
  have e2: "runtime_exec sample_files U (Ev_Enter 2 (Rq_Status sample_environment) calm_exited) w1 = w2"
    by (simp add: get_managed_runtime_status_def c0 other_environment_def c advance_def w1 killed_def hm_insert_def w2_def Let_def)
  have fresh: "refresh_exit inp c = c" for inp by (simp add: refresh_exit_def c)
  define s3 where "s3 = snd (stop_managed_environment calm sample_environment 1 c)"
  have s3: "sv_process s3 = None" "sv_generation s3 = 1" "sv_environment_id s3 = Some ?i" "sv_retained_spec s3 = Some spec"
    by (simp_all add: s3_def stop_managed_environment_def fresh other_environment_def c Let_def)
  obtain r where r: "stop_managed_environment calm sample_environment 1 c = ((Pc_Done (Ok (An_Report r)), None), s3)" "mr_state r = Ms_Stopped"
    by (simp add: s3_def stop_managed_environment_def fresh other_environment_def c answer_report_def supervisor_report_def Let_def)
  define w3 where "w3 = w2\<lparr>wd_supervisor := s3, wd_threads := wd_threads w2 @ [(3, (Pc_Done (Ok (An_Report r)), None))]\<rparr>"
  have e3: "runtime_exec sample_files U (Ev_Enter 3 (Rq_Stop sample_environment 1) calm) w2 = w3"
    using r(1) by (simp add: advance_def w2_def w1 c s3 hm_insert_def w3_def Let_def)
  obtain s4 where s4: "spawn_generation calm ?i spec s3 = (Pc_Await ?i 2 (ls_expected_port spec), s4)" "sv_process s4 = Some 2"
    by (simp add: spawn_generation_def refresh_exit_def s3 checked_add_small Let_def)
  have n: "runtime_enabled (Ev_Exit 1) (started spec)" "runtime_enabled (Ev_Enter 2 (Rq_Status sample_environment) calm_exited) w1"
      "runtime_enabled (Ev_Enter 3 (Rq_Stop sample_environment 1) calm) w2" "runtime_enabled (Ev_Resume 2 calm) w3"
    by (simp_all add: sees_def w1 w2_def w3_def c s3 hm_get_def)
  have e1: "runtime_exec sample_files U (Ev_Exit 1) (started spec) = w1" by (simp add: w1_def started_def)
  let ?w4 = "runtime_exec sample_files U (Ev_Resume 2 calm) w3"
  have w4: "hm_get (wd_threads ?w4) 3 = Some (Pc_Done (Ok (An_Report r)), None)" "sv_process (wd_supervisor ?w4) = Some 2"
      "wd_live ?w4 = {2}"
    by (simp_all add: w3_def w2_def hm_get_def s4 advance_def s3 w1 hm_insert_def Let_def)
  have "runtime_run sample_files U undo_events (started spec) = Some ?w4"
    unfolding undo_events_def
    by (intro runtime_run_step [OF n(1) e1] runtime_run_step [OF n(2) e2] runtime_run_step [OF n(3) e3]
        runtime_run_step [OF n(4) refl]) simp
  thus ?thesis using w4 r(2) by blast
qed

text \<open>A start while the stop of the previous generation is still waiting for its tree.\<close>

definition overlap_events :: "runtime_event list" where
  "overlap_events = [Ev_Enter 2 (Rq_Stop sample_environment 1) calm, Ev_Enter 3 (Rq_Start sample_environment) calm, Ev_Resume 3 calm]"

lemma runtime_overlap_run:
  assumes "build_launch_spec sample_files sample_environment = Ok spec"
  shows "\<exists>w. runtime_run sample_files U overlap_events (started spec) = Some w \<and> wd_live w = {1, 2} \<and> wd_lost w = {}"
proof -
  let ?i = "''managed-local''"
  let ?w0 = "started spec :: 'a runtime_world"
  define s2 where "s2 = snd (stop_managed_environment calm sample_environment 1 (wd_supervisor ?w0))"
  have w0: "sv_process (wd_supervisor ?w0) = Some 1" "wd_lost ?w0 = {}" "wd_live ?w0 = {1}" "sv_generation (wd_supervisor ?w0) = 1"
      "sv_environment_id (wd_supervisor ?w0) = Some ?i" "sv_endpoint (wd_supervisor ?w0) = None"
      "wd_threads ?w0 = [(1, (Pc_Await ?i 1 (Some 2048), None))]"
    by (simp_all add: started_def)
  have r0: "refresh_exit calm (wd_supervisor ?w0) = wd_supervisor ?w0" by (simp add: refresh_exit_def)
  have st: "stop_managed_environment calm sample_environment 1 (wd_supervisor ?w0) = ((Pc_Stopping ?i 1 1 None, None), s2)"
    by (simp add: s2_def stop_managed_environment_def r0 other_environment_def w0 Let_def)
  have s2: "sv_process s2 = None" "sv_generation s2 = 1" "sv_environment_id s2 = Some ?i"
    by (simp_all add: s2_def stop_managed_environment_def r0 other_environment_def w0 Let_def)
  define w2 where "w2 = ?w0\<lparr>wd_supervisor := s2, wd_threads := wd_threads ?w0 @ [(2, (Pc_Stopping ?i 1 1 None, None))]\<rparr>"
  have e2: "runtime_exec sample_files U (Ev_Enter 2 (Rq_Stop sample_environment 1) calm) ?w0 = w2"
    using st by (simp add: advance_def w0 s2 hm_insert_def w2_def Let_def)
  define s3 where "s3 = s2\<lparr>sv_auto_restart := True, sv_retained_spec := Some spec, sv_recovery := None\<rparr>"
  define w3 where "w3 = w2\<lparr>wd_supervisor := s3, wd_threads := wd_threads w2 @ [(3, (Pc_Spawn ?i spec, None))]\<rparr>"
  have r2: "refresh_exit calm s2 = s2" "refresh_exit calm s3 = s3" by (simp_all add: refresh_exit_def s2 s3_def)
  have e3: "runtime_exec sample_files U (Ev_Enter 3 (Rq_Start sample_environment) calm) w2 = w3"
    by (simp add: start_managed_environment_def assms w2_def r2 s2 advance_def w0 hm_insert_def w3_def s3_def Let_def)
  obtain s4 where s4: "spawn_generation calm ?i spec s3 = (Pc_Await ?i 2 (ls_expected_port spec), s4)" "sv_process s4 = Some 2"
    by (simp add: spawn_generation_def r2 checked_add_small Let_def) (simp add: s3_def s2 checked_add_small)
  have n: "runtime_enabled (Ev_Enter 2 (Rq_Stop sample_environment 1) calm) ?w0"
      "runtime_enabled (Ev_Enter 3 (Rq_Start sample_environment) calm) w2" "runtime_enabled (Ev_Resume 3 calm) w3"
    by (simp_all add: sees_def w0 w2_def w3_def s2 s3_def hm_get_def)
  have p3: "sv_process s3 = None" by (simp add: s3_def s2)
  let ?w4 = "runtime_exec sample_files U (Ev_Resume 3 calm) w3"
  have "wd_live ?w4 = {1, 2}" "wd_lost ?w4 = {}"
    by (simp_all add: w3_def w2_def hm_get_def s4 advance_def p3 w0 killed_def hm_insert_def Let_def)
  moreover have "runtime_run sample_files U overlap_events ?w0 = Some ?w4"
    unfolding overlap_events_def
    by (intro runtime_run_step [OF n(1) e2] runtime_run_step [OF n(2) e3] runtime_run_step [OF n(3) refl]) simp
  ultimately show ?thesis by blast
qed

text \<open>A start whose process has exited and whose deadline has passed.\<close>

definition late :: step_inputs where
  "late = calm_exited\<lparr>si_deadline := True\<rparr>"

lemma late_run: "hm_get (wd_threads w) t \<noteq> None \<Longrightarrow> \<exists>w'. run (runtime_step F U) w (replicate n (Ev_Resume t late)) w'"
proof (induction n arbitrary: w)
  case 0
  show ?case by (auto intro: run_nil)
next
  case (Suc n)
  have "sees late w" by (simp add: sees_def late_def split: option.splits)
  hence s: "runtime_step F U w (Ev_Resume t late) (runtime_exec F U (Ev_Resume t late) w)" using Suc.prems by (simp add: runtime_step_def)
  obtain th where "hm_get (wd_threads w) t = Some th" using Suc.prems by blast
  from runtime_step_thread [OF s this] have "hm_get (wd_threads (runtime_exec F U (Ev_Resume t late) w)) t \<noteq> None" by blast
  from Suc.IH [OF this] show ?case using run_cons [where step = "runtime_step F U", OF s] by (auto simp: replicate_Suc)
qed

section \<open>Properties\<close>



text \<open>
  C34. A surface binding is handed out only for a verified endpoint: if a binding request for the generation \<open>g\<close> of an
  environment is answered with a binding, in whatever interleaving, then at that moment \<open>g\<close> is the current generation of that
  environment, its process tree is retained and running, and port and bootstrap URL come from one candidate that the
  publication policy accepted.
\<close>

theorem surface_binding_verified:
  assumes "run (runtime_step F U) new_world es w" and "sees inp w"
    and "hm_get (wd_threads w) t = Some (Pc_Binding i g, k)"
    and "resume U inp (Pc_Binding i g) (wd_supervisor w) = (Pc_Done (Ok (An_Binding b)), s')"
  shows "vb_generation b = g \<and> sv_environment_id (wd_supervisor w) = Some i \<and> sv_process (wd_supervisor w) = Some g \<and> g \<in> wd_live w \<and>
    (\<exists>v expected c. parse_candidate U v expected = Ok c \<and> vb_port b = en_port (pc_endpoint c) \<and>
       pc_bootstrap_url c = Some (vb_bootstrap_url b))"
proof -
  have ok: "sup_ok U (wd_supervisor w)" using world_okD(1) [OF runtime.run_inv [OF assms(1) new_world_ok]] .
  let ?s = "refresh_exit inp (wd_supervisor w)"
  obtain ep url where b: "sv_generation ?s = g" "sv_environment_id ?s = Some i" "sv_process ?s \<noteq> None" "sv_endpoint ?s = Some ep"
      "sv_bootstrap_url ?s = Some url" "b = \<lparr>vb_generation = g, vb_port = en_port ep, vb_bootstrap_url = url\<rparr>"
    using assms(4) by (auto simp: resolve_binding_def Let_def split: if_splits option.splits)
  have x: "\<not> si_exited inp" "sv_process (wd_supervisor w) \<noteq> None" using b(3) by (auto simp: refresh_exit_frame split: if_splits)
  then obtain p where p: "sv_process (wd_supervisor w) = Some p" by blast
  have "p = g" using ok p b(1) by (simp add: sup_ok_def refresh_exit_frame)
  moreover have "p \<in> wd_live w" using assms(2) x(1) p by (simp add: sees_def)
  moreover obtain v expected where "parse_candidate U v expected = Ok \<lparr>pc_endpoint = ep, pc_bootstrap_url = Some url\<rparr>"
    using refresh_exit_ok(1) [OF ok, of inp] b(4,5) unfolding sup_ok_def by auto
  ultimately show ?thesis using p b(2,6) by (auto simp: refresh_exit_frame intro!: exI)
qed

theorem surface_binding_verified_witness:
  "\<exists>w b s'. run (runtime_step sample_files sample_urls) new_world (start_events @ binding_events) w \<and>
     resume sample_urls calm (Pc_Binding ''managed-local'' 1) (wd_supervisor w) = (Pc_Done (Ok (An_Binding b)), s') \<and>
     sv_process (wd_supervisor w) = Some 1 \<and> 1 \<in> wd_live w \<and> vb_port b = 2048"
proof -
  obtain spec where spec: "build_launch_spec sample_files sample_environment = Ok spec" "ls_expected_port spec = Some 2048"
    using sample_environment_spec by blast
  have "started spec = waiting spec (Pc_Await ''managed-local'' 1 (Some 2048))" by (simp add: waiting_def started_def)
  with runtime_run_append [OF runtime_start_run [OF spec]] runtime_binding_run
  have r: "run (runtime_step sample_files sample_urls) new_world (start_events @ binding_events) (bound spec)"
    by (metis runtime_run_run)
  have sup: "wd_supervisor (bound spec) = published spec" by (simp add: bound_def)
  have sees: "sees calm (bound spec)" by (simp add: sees_def sup published_sel) (simp add: bound_def started_def)
  have t: "hm_get (wd_threads (bound spec)) 2 = Some (Pc_Binding ''managed-local'' 1, None)" by (simp add: bound_def hm_get_def)
  let ?b = "\<lparr>vb_generation = 1, vb_port = 2048, vb_bootstrap_url = ''http://127.0.0.1:2048/''\<rparr>"
  have "sv_endpoint (published spec) = Some (pc_endpoint sample_candidate)" "en_port (pc_endpoint sample_candidate) = 2048"
      "sv_bootstrap_url (published spec) = Some ''http://127.0.0.1:2048/''"
    by (simp_all add: published_sel sample_candidate_def)
  hence b: "resume sample_urls calm (Pc_Binding ''managed-local'' 1) (wd_supervisor (bound spec)) =
      (Pc_Done (Ok (An_Binding ?b)), published spec)"
    unfolding sup resume.simps by (simp add: resolve_binding_def published_refresh published_sel(1-4) Let_def)
  have "sv_process (wd_supervisor (bound spec)) = Some 1 \<and> 1 \<in> wd_live (bound spec)"
    using surface_binding_verified [OF r sees t b] by blast
  thus ?thesis using r b by (intro exI [of _ "bound spec"] exI [of _ ?b] exI [of _ "published spec"] conjI) (auto simp del: resume.simps)
qed



text \<open>
  C36. An acknowledged stop can be undone: there is an execution in which the child exits, a status request decides on an
  automatic restart and waits for its backoff, a stop of the current generation is answered with the state stopped, and then
  the waiting thread starts a new generation, although no start or restart was requested after the stop.
\<close>

theorem stop_undone_by_pending_restart:
  "\<exists>w r. run (runtime_step sample_files U) new_world (start_events @ undo_events) w \<and>
     undo_events = [Ev_Exit 1, Ev_Enter 2 (Rq_Status sample_environment) calm_exited,
       Ev_Enter 3 (Rq_Stop sample_environment 1) calm, Ev_Resume 2 calm] \<and>
     hm_get (wd_threads w) 3 = Some (Pc_Done (Ok (An_Report r)), None) \<and> mr_state r = Ms_Stopped \<and>
     sv_process (wd_supervisor w) = Some 2 \<and> wd_live w = {2}"
proof -
  obtain spec where spec: "build_launch_spec sample_files sample_environment = Ok spec" "ls_expected_port spec = Some 2048"
    using sample_environment_spec by blast
  obtain w r where w: "runtime_run sample_files U undo_events (started spec) = Some w"
      "hm_get (wd_threads w) 3 = Some (Pc_Done (Ok (An_Report r)), None)" "mr_state r = Ms_Stopped"
      "sv_process (wd_supervisor w) = Some 2" "wd_live w = {2}"
    using runtime_undo_run [of U spec] by (elim exE conjE)
  have "run (runtime_step sample_files U) new_world (start_events @ undo_events) w"
    using runtime_run_append [OF runtime_start_run [OF spec]] w(1) runtime_run_run by metis
  thus ?thesis using w undo_events_def by (intro exI conjI)
qed

text \<open>
  The supervisor is meant to own one process tree at a time, but a start that arrives while a stop is waiting for its tree
  to end spawns the next generation at once: there is an execution with two running trees, none of which escaped a kill.
\<close>

lemma start_overlaps_stop:
  "\<exists>w. run (runtime_step sample_files U) new_world (start_events @ overlap_events) w \<and> wd_live w = {1, 2} \<and> wd_lost w = {}"
proof -
  obtain spec where spec: "build_launch_spec sample_files sample_environment = Ok spec" "ls_expected_port spec = Some 2048"
    using sample_environment_spec by blast
  obtain w where w: "runtime_run sample_files U overlap_events (started spec) = Some w" "wd_live w = {1, 2}" "wd_lost w = {}"
    using runtime_overlap_run [OF spec(1), of U] by (elim exE conjE)
  have "run (runtime_step sample_files U) new_world (start_events @ overlap_events) w"
    using runtime_run_append [OF runtime_start_run [OF spec]] w(1) runtime_run_run by metis
  thus ?thesis using w by (intro exI conjI)
qed

text \<open>
  C38. Every lifecycle request comes to its answer: whatever the other threads, the process trees and the operating system
  do, a thread that has been given twelve steps after its start timeout and grace period have passed has finished.
\<close>

theorem lifecycle_completes:
  assumes "run (runtime_step F U) w es w'" and "hm_get (wd_threads w) t \<noteq> None"
    and "\<forall>e \<in> set es. resumes t e \<longrightarrow> \<not> in_time e" and "12 \<le> length (filter (resumes t) es)"
  shows "\<exists>r. hm_get (wd_threads w') t = Some (Pc_Done r, None)"
proof -
  obtain th where th: "hm_get (wd_threads w) t = Some th" using assms(2) by blast
  have "thread_rank th \<le> 12" using pc_rank_le [of "fst th"] by (simp add: thread_rank_def)
  with run_thread_rank [OF assms(1) th assms(3)] assms(4) obtain th'
    where "hm_get (wd_threads w') t = Some th'" "thread_rank th' = 0" by force
  thus ?thesis using thread_rank_0 [of th'] by auto
qed

theorem lifecycle_completes_witness:
  "\<exists>w w' r. run (runtime_step sample_files sample_urls) new_world start_events w \<and>
     run (runtime_step sample_files sample_urls) w (replicate 12 (Ev_Resume 1 late)) w' \<and>
     hm_get (wd_threads w') 1 = Some (Pc_Done r, None)"
proof -
  obtain spec where "build_launch_spec sample_files sample_environment = Ok spec" "ls_expected_port spec = Some 2048"
    using sample_environment_spec by blast
  from runtime_run_run [OF runtime_start_run [OF this]]
  have r: "run (runtime_step sample_files sample_urls) new_world start_events (started spec)" .
  have t: "hm_get (wd_threads (started spec :: string runtime_world)) 1 \<noteq> None" by (simp add: started_def hm_get_def)
  from late_run [OF t] obtain w' where l: "run (runtime_step sample_files sample_urls) (started spec) (replicate 12 (Ev_Resume 1 late)) w'"
    by blast
  have "\<not> in_time (Ev_Resume 1 late)" by (simp add: late_def calm_exited_def calm_def)
  hence "\<forall>e \<in> set (replicate 12 (Ev_Resume 1 late)). resumes 1 e \<longrightarrow> \<not> in_time e" by simp
  moreover have "12 \<le> length (filter (resumes 1) (replicate 12 (Ev_Resume 1 late)))" by simp
  ultimately show ?thesis using lifecycle_completes [OF l t] r l by blast
qed

end
