(* ===== verification/Capabilities.thy ===== *)
theory Capabilities
  imports Daemon_Authority Scheduler Managed_Runtime
begin

text \<open>
  The capability surface of the daemon (\<open>crates/daemon/src/capabilities.rs\<close>) with the runtime capability (\<open>runtime.rs\<close>): the
  catalog, the dispatch of a method to the terminal, browser, runtime and scheduler hosts, and the state these hosts share.
  This is the instance of the interface \<open>host_ops\<close> that the envelope server of \<open>Daemon_Server\<close> is run with. A lifecycle request
  runs here without interruption; its interleavings are the subject of \<open>Managed_Runtime\<close>.
\<close>

section \<open>Coordinates\<close>

definition SYSTEM_API_VERSION :: string where
  "SYSTEM_API_VERSION = ''system.dsh-desktop.local/v1alpha1''"

definition DAEMON_API_VERSION :: string where
  "DAEMON_API_VERSION = ''daemon.dsh-desktop.local/v1alpha1''"

definition BROWSER_API_VERSION :: string where
  "BROWSER_API_VERSION = ''browser.dsh-desktop.local/v1alpha1''"

definition RUNTIME_API_VERSION :: string where
  "RUNTIME_API_VERSION = ''runtime.dsh-desktop.local/v1alpha1''"

definition SCHEDULER_API_VERSION :: string where
  "SCHEDULER_API_VERSION = ''scheduler.dsh-desktop.local/v1alpha1''"

datatype capability = System | Daemon | Browser | Terminal | Runtime | Timer

text \<open>The coordinate of each capability: its version and its kind constant.\<close>

fun coordinate_of :: "capability \<Rightarrow> ProtocolCoordinate" where
  "coordinate_of System = \<lparr>pc_api_version = SYSTEM_API_VERSION, pc_kind = ''System''\<rparr>"
| "coordinate_of Daemon = \<lparr>pc_api_version = DAEMON_API_VERSION, pc_kind = ''Daemon''\<rparr>"
| "coordinate_of Browser = \<lparr>pc_api_version = BROWSER_API_VERSION, pc_kind = ''Browser''\<rparr>"
| "coordinate_of Terminal = \<lparr>pc_api_version = TERMINAL_API_VERSION, pc_kind = TERMINAL_KIND\<rparr>"
| "coordinate_of Runtime = \<lparr>pc_api_version = RUNTIME_API_VERSION, pc_kind = ''Runtime''\<rparr>"
| "coordinate_of Timer = \<lparr>pc_api_version = SCHEDULER_API_VERSION, pc_kind = ''Scheduler''\<rparr>"

definition all_coordinates :: "ProtocolCoordinate list" where
  "all_coordinates = map coordinate_of [System, Daemon, Browser, Terminal, Runtime, Timer]"

definition supports_coordinate :: "ProtocolCoordinate \<Rightarrow> bool" where
  "supports_coordinate c = (c \<in> set all_coordinates)"

section \<open>The runtime capability\<close>

record ManagedRuntimeStartRequest =
  mq_schema_version :: nat
  mq_environment_id :: string

record ManagedRuntimeStopRequest = ManagedRuntimeStartRequest +
  mq_expected_generation :: nat

type_synonym ManagedRuntimeStatusRequest = ManagedRuntimeStartRequest
type_synonym ManagedRuntimeRestartRequest = ManagedRuntimeStopRequest
type_synonym ManagedRuntimeBindingRequest = ManagedRuntimeStopRequest

datatype RuntimeHostError = CatalogCorrupt | CatalogUnavailable | EnvironmentNotFound string | Managed ManagedRuntimeError

text \<open>Decoding of the requests, and the encoding of a report and of a binding (generation, port and URL).\<close>

record ('v, 'u) runtime_codec =
  rc_start :: "'v \<Rightarrow> (ManagedRuntimeStartRequest, string) result"
  rc_status :: "'v \<Rightarrow> (ManagedRuntimeStatusRequest, string) result"
  rc_stop :: "'v \<Rightarrow> (ManagedRuntimeStopRequest, string) result"
  rc_restart :: "'v \<Rightarrow> (ManagedRuntimeRestartRequest, string) result"
  rc_binding :: "'v \<Rightarrow> (ManagedRuntimeBindingRequest, string) result"
  rc_of_report :: "ManagedRuntimeReport \<Rightarrow> 'v"
  rc_of_binding :: "nat \<Rightarrow> nat \<Rightarrow> 'u \<Rightarrow> 'v"

text \<open>
  What a lifecycle request meets: the file system, the content of the catalog file, the readings and outcomes of its first
  critical section and of each further one, and the number of polls after which its deadlines have passed.
\<close>

record runtime_inputs =
  ri_files :: file_system
  ri_catalog :: catalog_file
  ri_enter :: step_inputs
  ri_steps :: "nat \<Rightarrow> step_inputs"
  ri_patience :: nat

definition overdue :: "step_inputs \<Rightarrow> step_inputs" where
  "overdue inp = inp\<lparr>si_deadline := True, si_grace_over := True\<rparr>"

definition poll :: "runtime_inputs \<Rightarrow> nat \<Rightarrow> step_inputs" where
  "poll inp n = (if n < ri_patience inp then ri_steps inp n else overdue (ri_steps inp n))"

fun answered :: "'u pc \<Rightarrow> ('u answer, ManagedRuntimeError) result option" where
  "answered (Pc_Done r) = Some r"
| "answered pc = None"

lemma answered_None: "answered pc = None \<longleftrightarrow> 0 < pc_rank pc"
  by (cases pc) simp_all

lemma drive_decreases:
  assumes "answered (fst th) = None" and "(pc', s') = resume U (poll inp n) (fst th) s"
  shows "thread_rank (settle (pc', snd th)) + (ri_patience inp - Suc n) < thread_rank th + (ri_patience inp - n)"
proof (cases "n < ri_patience inp")
  case True
  thus ?thesis using thread_rank_step(1) [OF assms(2) [symmetric], of "snd th"] by simp
next
  case False
  hence "si_deadline (poll inp n)" "si_grace_over (poll inp n)" by (simp_all add: poll_def overdue_def)
  moreover have "0 < thread_rank (fst th, snd th)" using assms(1) by (simp add: answered_None thread_rank_def)
  ultimately show ?thesis using thread_rank_step(2) [OF assms(2) [symmetric], of "snd th"] False by simp
qed

function drive ::
  "'u url_api \<Rightarrow> runtime_inputs \<Rightarrow> nat \<Rightarrow> 'u runtime_thread \<Rightarrow> 'u Supervisor \<Rightarrow> ('u answer, ManagedRuntimeError) result \<times> 'u Supervisor" where
  "drive U inp n th s =
     (case answered (fst th) of
        Some r \<Rightarrow> (r, s)
      | None \<Rightarrow> (case resume U (poll inp n) (fst th) s of (pc', s') \<Rightarrow> drive U inp (Suc n) (settle (pc', snd th)) s'))"
  by pat_completeness auto

termination
  by (relation "measure (\<lambda>(U, inp, n, th, s). thread_rank th + (ri_patience inp - n))") 
    (simp, simp only: in_measure prod.case, rule drive_decreases)

declare drive.simps [simp del]

text \<open>One operation of the supervisor, from its first critical section to its answer.\<close>

definition lifecycle ::
  "'u url_api \<Rightarrow> runtime_inputs \<Rightarrow> lifecycle_request \<Rightarrow> 'u Supervisor \<Rightarrow> ('u answer, ManagedRuntimeError) result \<times> 'u Supervisor" where
  "lifecycle U inp rq s = (case enter (ri_files inp) (ri_enter inp) rq s of (th, s') \<Rightarrow> drive U inp 0 th s')"

definition validate_runtime_request :: "nat \<Rightarrow> string \<Rightarrow> (unit, DaemonMethodError) result" where
  "validate_runtime_request version i =
     (if version \<noteq> 1 \<or> \<not> is_valid_id i then
        Err (failed EC_MalformedMessage ''runtime request requires schemaVersion 1 and a valid environmentId'' False)
      else Ok ())"

definition host_environment :: "catalog_file \<Rightarrow> string \<Rightarrow> (ManagedEnvironment, RuntimeHostError) result" where
  "host_environment f i =
     (case load_catalog f of
        Err Catalog_Corrupt \<Rightarrow> Err CatalogCorrupt
      | Err Catalog_Unavailable \<Rightarrow> Err CatalogUnavailable
      | Ok c \<Rightarrow> (case catalog_environment i c of Some e \<Rightarrow> Ok e | None \<Rightarrow> Err (EnvironmentNotFound i)))"

fun managed_error :: "ManagedRuntimeError \<Rightarrow> DaemonMethodError" where
  "managed_error NotManaged = failed EC_Conflict ''the catalog environment is not Managed'' False"
| "managed_error InvalidEnvironment = failed EC_MalformedMessage ''the catalog environment failed validation'' False"
| "managed_error UnsupportedSource = failed EC_MalformedMessage
     ''Managed start source is missing or is not a deepseek-harness checkout (entry or TS loader not found)'' False"
| "managed_error NodeOverrideUnsupported = failed EC_MalformedMessage
     ''Managed start needs an absolute existing Node executable (set nodePath or add node to PATH)'' False"
| "managed_error Rt_Conflict = failed EC_Conflict ''another Managed environment or lifecycle transition is active'' True"
| "managed_error StaleGeneration = failed EC_StaleGeneration ''the Managed lifecycle request targets a stale generation'' False"
| "managed_error CandidateInvalid = failed EC_Unavailable ''Managed endpoint candidate failed publication policy'' False"
| "managed_error CandidatePortMismatch = failed EC_Unavailable ''Managed endpoint candidate failed publication policy'' False"
| "managed_error ProcessExited = failed EC_Unavailable ''Managed process exited before readiness'' True"
| "managed_error ReadinessTimeout = failed EC_Unavailable ''Managed readiness timed out'' True"
| "managed_error EndpointStillReachable =
     failed EC_Unavailable ''Managed process stopped, but the previous endpoint remains reachable'' True"
| "managed_error SurfaceBindingUnavailable =
     failed EC_Unavailable ''Managed endpoint is not a verified current-generation binding'' True"
| "managed_error (SpawnFailed reason) = failed EC_Unavailable (''Managed process could not be started: '' @ reason) True"
| "managed_error (ProcessTreeFailed reason) =
     failed EC_Unavailable (''Managed process tree could not be attached: '' @ reason) True"
| "managed_error (RuntimeUnavailable reason) = failed EC_Unavailable reason True"
| "managed_error StopFailed = failed EC_Unavailable ''Managed runtime is unavailable'' True"
| "managed_error Rt_StateUnavailable = failed EC_Unavailable ''Managed runtime is unavailable'' True"
| "managed_error ClockUnavailable = failed EC_Unavailable ''Managed runtime is unavailable'' True"

fun runtime_host_error :: "RuntimeHostError \<Rightarrow> DaemonMethodError" where
  "runtime_host_error CatalogCorrupt =
     failed EC_Unavailable ''the environment catalog is corrupt; re-save an environment from the Shell'' False"
| "runtime_host_error CatalogUnavailable = failed EC_Unavailable ''the environment catalog is unavailable'' True"
| "runtime_host_error (EnvironmentNotFound i) =
     failed EC_Unavailable (''environment \"'' @ i @ ''\" is not in the catalog; save it from the Shell first'') False"
| "runtime_host_error (Managed e) = managed_error e"

fun answer_value :: "('v, 'u) runtime_codec \<Rightarrow> ('u answer, ManagedRuntimeError) result \<Rightarrow> ('v, DaemonMethodError) result" where
  "answer_value C (Ok (An_Report r)) = Ok (rc_of_report C r)"
| "answer_value C (Ok (An_Binding b)) = Ok (rc_of_binding C (vb_generation b) (vb_port b) (vb_bootstrap_url b))"
| "answer_value C (Err e) = Err (managed_error e)"

text \<open>The common end of the handlers: resolve the environment and run the operation on it.\<close>

definition run_request ::
  "('v, 'u) runtime_codec \<Rightarrow> 'u url_api \<Rightarrow> runtime_inputs \<Rightarrow> string \<Rightarrow> (ManagedEnvironment \<Rightarrow> lifecycle_request) \<Rightarrow> 'u Supervisor \<Rightarrow>
   ('v, DaemonMethodError) result \<times> 'u Supervisor" where
  "run_request C U inp i rq s =
     (case host_environment (ri_catalog inp) i of
        Err e \<Rightarrow> (Err (runtime_host_error e), s)
      | Ok env \<Rightarrow> (case lifecycle U inp (rq env) s of (r, s') \<Rightarrow> (answer_value C r, s')))"

definition handle_runtime_start ::
  "('v, 'u) runtime_codec \<Rightarrow> 'u url_api \<Rightarrow> runtime_inputs \<Rightarrow> 'v \<Rightarrow> 'u Supervisor \<Rightarrow> ('v, DaemonMethodError) result \<times> 'u Supervisor" where
  "handle_runtime_start C U inp payload s =
     (case parse_request ''runtime.start'' (rc_start C) payload of
        Err e \<Rightarrow> (Err e, s)
      | Ok q \<Rightarrow>
          (case validate_runtime_request (mq_schema_version q) (mq_environment_id q) of
             Err e \<Rightarrow> (Err e, s)
           | Ok _ \<Rightarrow> run_request C U inp (mq_environment_id q) Rq_Start s))"

definition handle_runtime_status ::
  "('v, 'u) runtime_codec \<Rightarrow> 'u url_api \<Rightarrow> runtime_inputs \<Rightarrow> 'v \<Rightarrow> 'u Supervisor \<Rightarrow> ('v, DaemonMethodError) result \<times> 'u Supervisor" where
  "handle_runtime_status C U inp payload s =
     (case parse_request ''runtime.status'' (rc_status C) payload of
        Err e \<Rightarrow> (Err e, s)
      | Ok q \<Rightarrow>
          (case validate_runtime_request (mq_schema_version q) (mq_environment_id q) of
             Err e \<Rightarrow> (Err e, s)
           | Ok _ \<Rightarrow> run_request C U inp (mq_environment_id q) Rq_Status s))"

text \<open>The three requests that name a generation share their checks.\<close>

definition generation_request ::
  "string \<Rightarrow> ('v \<Rightarrow> (ManagedRuntimeStopRequest, string) result) \<Rightarrow> 'v \<Rightarrow> (ManagedRuntimeStopRequest, DaemonMethodError) result" where
  "generation_request mname decode payload =
     (case parse_request mname decode payload of
        Err e \<Rightarrow> Err e
      | Ok q \<Rightarrow>
          (case validate_runtime_request (mq_schema_version q) (mq_environment_id q) of
             Err e \<Rightarrow> Err e
           | Ok _ \<Rightarrow>
               if mq_expected_generation q = 0 then
                 Err (failed EC_MalformedMessage (mname @ '' requires expectedGeneration >= 1'') False)
               else Ok q))"

definition handle_runtime_stop ::
  "('v, 'u) runtime_codec \<Rightarrow> 'u url_api \<Rightarrow> runtime_inputs \<Rightarrow> 'v \<Rightarrow> 'u Supervisor \<Rightarrow> ('v, DaemonMethodError) result \<times> 'u Supervisor" where
  "handle_runtime_stop C U inp payload s =
     (case generation_request ''runtime.stop'' (rc_stop C) payload of
        Err e \<Rightarrow> (Err e, s)
      | Ok q \<Rightarrow> run_request C U inp (mq_environment_id q) (\<lambda>e. Rq_Stop e (mq_expected_generation q)) s)"

definition handle_runtime_restart ::
  "('v, 'u) runtime_codec \<Rightarrow> 'u url_api \<Rightarrow> runtime_inputs \<Rightarrow> 'v \<Rightarrow> 'u Supervisor \<Rightarrow> ('v, DaemonMethodError) result \<times> 'u Supervisor" where
  "handle_runtime_restart C U inp payload s =
     (case generation_request ''runtime.restart'' (rc_restart C) payload of
        Err e \<Rightarrow> (Err e, s)
      | Ok q \<Rightarrow> run_request C U inp (mq_environment_id q) (\<lambda>e. Rq_Restart e (mq_expected_generation q)) s)"

definition handle_runtime_binding ::
  "('v, 'u) runtime_codec \<Rightarrow> 'u url_api \<Rightarrow> runtime_inputs \<Rightarrow> 'v \<Rightarrow> 'u Supervisor \<Rightarrow> ('v, DaemonMethodError) result \<times> 'u Supervisor" where
  "handle_runtime_binding C U inp payload s =
     (case generation_request ''runtime.binding'' (rc_binding C) payload of
        Err e \<Rightarrow> (Err e, s)
      | Ok q \<Rightarrow> run_request C U inp (mq_environment_id q) (\<lambda>e. Rq_Binding e (mq_expected_generation q)) s)"

section \<open>The host\<close>

text \<open>What the server knows of itself and of its transport when it takes a snapshot.\<close>

record server_facts =
  sf_version :: string
  sf_pid :: nat
  sf_started_at :: string
  sf_uptime_seconds :: nat
  sf_claim_port :: nat
  sf_port :: nat
  sf_connections :: nat
  sf_credentials_issued :: nat

record DaemonStatusSnapshot = server_facts +
  sn_activations :: nat
  sn_scheduler :: SchedulerStats
  sn_terminals :: nat
  sn_browsers :: nat
  sn_managed_runtimes :: nat

record ('v, 'u) capability_codec =
  cc_terminal :: "'v terminal_codec"
  cc_browser :: "'v browser_codec"
  cc_runtime :: "('v, 'u) runtime_codec"
  cc_wake :: "'v \<Rightarrow> (WakeRequestPayload, string) result"
  cc_cancel :: "'v \<Rightarrow> (CancelRequestPayload, string) result"
  cc_of_wake :: "WakeAccepted \<Rightarrow> 'v"
  cc_of_cancelled :: "WakeCancelled \<Rightarrow> 'v"
  cc_of_pong :: "'v \<Rightarrow> 'v"
  cc_of_status :: "DaemonStatusSnapshot \<Rightarrow> 'v"

text \<open>The readings and outcomes one invocation may meet.\<close>

record call_inputs =
  ci_pty :: pty_inputs
  ci_brw :: brw_inputs
  ci_runtime :: runtime_inputs
  ci_mono :: nat
  ci_wall :: nat
  ci_facts :: server_facts

text \<open>The hosts behind the handlers, the fires of the scheduler so far, and the inputs of the invocations to come.\<close>

record 'u daemon_host =
  dh_terminal :: TerminalHost
  dh_browser :: BrowserHost
  dh_events :: EventRouter
  dh_scheduler :: scheduler
  dh_supervisor :: "'u Supervisor"
  dh_inputs :: "nat \<Rightarrow> call_inputs"
  dh_calls :: nat

definition new_daemon_host :: "(nat \<Rightarrow> call_inputs) \<Rightarrow> 'u daemon_host" where
  "new_daemon_host inps = \<lparr>dh_terminal = new_terminal_host, dh_browser = new_browser_host, dh_events = spawn_router,
     dh_scheduler = (default_inner, []), dh_supervisor = new_supervisor, dh_inputs = inps, dh_calls = 0\<rparr>"

definition managed_runtimes :: "'u Supervisor \<Rightarrow> nat" where
  "managed_runtimes s = (if sv_process s \<noteq> None then 1 else 0)"

definition status_snapshot :: "server_facts \<Rightarrow> 'v Broker \<Rightarrow> 'u daemon_host \<Rightarrow> DaemonStatusSnapshot" where
  "status_snapshot facts b h = server_facts.extend facts
     \<lparr>sn_activations = agent_activation_count b, sn_scheduler = scheduler_stats (fst (dh_scheduler h)),
      sn_terminals = terminal_session_count (dh_terminal h), sn_browsers = browser_session_count (dh_browser h),
      sn_managed_runtimes = managed_runtimes (dh_supervisor h)\<rparr>"

text \<open>The methods of each capability, in the order of the match.\<close>

fun daemon_methods :: "capability \<Rightarrow> string list" where
  "daemon_methods System = [''ping'']"
| "daemon_methods Daemon = [''status'']"
| "daemon_methods Browser =
     [''browser.create'', ''browser.list'', ''browser.status'', ''browser.close'', ''browser.navigate'', ''browser.load-failed'']"
| "daemon_methods Terminal = [''terminal.create'', ''terminal.write'', ''terminal.resize'', ''terminal.close'', ''terminal.status'']"
| "daemon_methods Runtime = [''runtime.start'', ''runtime.status'', ''runtime.stop'', ''runtime.restart'', ''runtime.binding'']"
| "daemon_methods Timer = [''wake'', ''cancel'']"

section \<open>Dispatch\<close>

fun scheduler_error :: "ProtocolCoordinate \<Rightarrow> string \<Rightarrow> SchedulerError \<Rightarrow> DaemonMethodError" where
  "scheduler_error cap mname (Wake_InvalidPayload message) = InvalidPayload cap mname message"
| "scheduler_error cap mname (Wake_Conflict message) = MethodConflict cap mname message"

definition dispatch_browser ::
  "'v browser_codec \<Rightarrow> brw_inputs \<Rightarrow> nat \<Rightarrow> string \<Rightarrow> 'v \<Rightarrow> BrowserHost \<Rightarrow> EventRouter \<Rightarrow>
   (('v, DaemonMethodError) result \<times> BrowserHost \<times> EventRouter) option" where
  "dispatch_browser C inp key mname payload h ev =
     (if mname = ''browser.create'' then Some (handle_browser_create C inp key payload h ev)
      else if mname = ''browser.list'' then Some (handle_browser_list C h, h, ev)
      else if mname = ''browser.status'' then Some (handle_browser_status C h, h, ev)
      else if mname = ''browser.close'' then Some (handle_browser_close C inp key payload h ev)
      else if mname = ''browser.navigate'' then
        Some (case handle_browser_navigate C inp key payload h of (r, h') \<Rightarrow> (r, h', ev))
      else if mname = ''browser.load-failed'' then
        Some (case handle_browser_load_failed C inp key payload h of (r, h') \<Rightarrow> (r, h', ev))
      else None)"

definition dispatch_terminal ::
  "'v terminal_codec \<Rightarrow> pty_inputs \<Rightarrow> 'v Broker \<Rightarrow> nat \<Rightarrow> string \<Rightarrow> 'v \<Rightarrow> TerminalHost \<Rightarrow> EventRouter \<Rightarrow>
   (('v, DaemonMethodError) result \<times> TerminalHost \<times> EventRouter) option" where
  "dispatch_terminal C inp b key mname payload h ev =
     (if mname = ''terminal.create'' then Some (handle_terminal_create C inp b key payload h ev)
      else if mname = ''terminal.write'' then
        Some (case handle_terminal_write C inp b key payload h of (r, h') \<Rightarrow> (r, h', ev))
      else if mname = ''terminal.resize'' then
        Some (case handle_terminal_resize C inp b key payload h of (r, h') \<Rightarrow> (r, h', ev))
      else if mname = ''terminal.close'' then Some (handle_terminal_close C inp b key payload h ev)
      else if mname = ''terminal.status'' then Some (handle_terminal_status C h, h, ev)
      else None)"

definition dispatch_runtime ::
  "('v, 'u) runtime_codec \<Rightarrow> 'u url_api \<Rightarrow> runtime_inputs \<Rightarrow> string \<Rightarrow> 'v \<Rightarrow> 'u Supervisor \<Rightarrow>
   (('v, DaemonMethodError) result \<times> 'u Supervisor) option" where
  "dispatch_runtime C U inp mname payload s =
     (if mname = ''runtime.start'' then Some (handle_runtime_start C U inp payload s)
      else if mname = ''runtime.status'' then Some (handle_runtime_status C U inp payload s)
      else if mname = ''runtime.stop'' then Some (handle_runtime_stop C U inp payload s)
      else if mname = ''runtime.restart'' then Some (handle_runtime_restart C U inp payload s)
      else if mname = ''runtime.binding'' then Some (handle_runtime_binding C U inp payload s)
      else None)"

definition dispatch_scheduler ::
  "('v, 'u) capability_codec \<Rightarrow> nat \<Rightarrow> nat \<Rightarrow> ProtocolCoordinate \<Rightarrow> string \<Rightarrow> 'v \<Rightarrow> Inner \<Rightarrow>
   (('v, DaemonMethodError) result \<times> Inner) option" where
  "dispatch_scheduler C instant today cap mname payload inner =
     (if mname = ''wake'' then
        Some (case register instant today (cc_wake C payload) inner of
                (Ok a, inner') \<Rightarrow> (Ok (cc_of_wake C a), inner')
              | (Err e, inner') \<Rightarrow> (Err (scheduler_error cap mname e), inner'))
      else if mname = ''cancel'' then
        Some (case cancel (cc_cancel C payload) inner of
                (Ok a, inner') \<Rightarrow> (Ok (cc_of_cancelled C a), inner')
              | (Err e, inner') \<Rightarrow> (Err (scheduler_error cap mname e), inner'))
      else None)"

text \<open>The arms of the match: \<open>None\<close> is the arm that knows no such method.\<close>

definition dispatch_method ::
  "('v, 'u) capability_codec \<Rightarrow> 'u url_api \<Rightarrow> call_inputs \<Rightarrow> 'v Broker \<Rightarrow> nat \<Rightarrow> ProtocolCoordinate \<Rightarrow> string \<Rightarrow> 'v \<Rightarrow> 'u daemon_host \<Rightarrow>
   (('v, DaemonMethodError) result \<times> 'u daemon_host) option" where
  "dispatch_method C U inp b key cap mname payload h =
     (if cap = coordinate_of System then
        (if mname = ''ping'' then Some (Ok (cc_of_pong C payload), h) else None)
      else if cap = coordinate_of Daemon then
        (if mname = ''status'' then Some (Ok (cc_of_status C (status_snapshot (ci_facts inp) b h)), h) else None)
      else if cap = coordinate_of Browser then
        map_option (\<lambda>(r, bh, ev). (r, h\<lparr>dh_browser := bh, dh_events := ev\<rparr>))
          (dispatch_browser (cc_browser C) (ci_brw inp) key mname payload (dh_browser h) (dh_events h))
      else if cap = coordinate_of Terminal then
        map_option (\<lambda>(r, th, ev). (r, h\<lparr>dh_terminal := th, dh_events := ev\<rparr>))
          (dispatch_terminal (cc_terminal C) (ci_pty inp) b key mname payload (dh_terminal h) (dh_events h))
      else if cap = coordinate_of Runtime then
        map_option (\<lambda>(r, s). (r, h\<lparr>dh_supervisor := s\<rparr>))
          (dispatch_runtime (cc_runtime C) U (ci_runtime inp) mname payload (dh_supervisor h))
      else if cap = coordinate_of Timer then
        map_option (\<lambda>(r, inner). (r, h\<lparr>dh_scheduler := (inner, snd (dh_scheduler h))\<rparr>))
          (dispatch_scheduler C (ci_mono inp) (ci_wall inp) cap mname payload (fst (dh_scheduler h)))
      else None)"

definition dispatch_capability ::
  "('v, 'u) capability_codec \<Rightarrow> 'u url_api \<Rightarrow> call_inputs \<Rightarrow> 'v Broker \<Rightarrow> nat \<Rightarrow> ProtocolCoordinate \<Rightarrow> string \<Rightarrow> 'v \<Rightarrow> 'u daemon_host \<Rightarrow>
   ('v, DaemonMethodError) result \<times> 'u daemon_host" where
  "dispatch_capability C U inp b key cap mname payload h =
     (case dispatch_method C U inp b key cap mname payload h of
        Some out \<Rightarrow> out
      | None \<Rightarrow> (Err (MethodNotFound cap mname), h))"

text \<open>What the end of a connection releases: its event subscriptions and its browser sessions.\<close>

definition release_host :: "nat \<Rightarrow> 'u daemon_host \<Rightarrow> 'u daemon_host" where
  "release_host key h = h\<lparr>dh_events := drop_subscriber key (unsubscribe_all key (dh_events h)),
     dh_browser := release_connection_ownership key (dh_browser h)\<rparr>"

text \<open>The capability layer of the daemon: an instance of the interface of its envelope server.\<close>

definition daemon_ops :: "('v, 'u) capability_codec \<Rightarrow> 'u url_api \<Rightarrow> 'v \<Rightarrow> ('v, 'u daemon_host) host_ops" where
  "daemon_ops C U null = \<lparr>ho_catalog = all_coordinates,
     ho_dispatch = (\<lambda>b rd key cap mname payload h.
       dispatch_capability C U (dh_inputs h (dh_calls h)) b key cap mname payload (h\<lparr>dh_calls := dh_calls h + 1\<rparr>)),
     ho_release = release_host, ho_null = null\<rparr>"

section \<open>What one invocation does\<close>

lemma coordinate_inj [simp]: "coordinate_of a = coordinate_of b \<longleftrightarrow> a = b"
proof -
  have "pc_kind (coordinate_of a) = pc_kind (coordinate_of b) \<longleftrightarrow> a = b"
    by (cases a; cases b) (simp_all add: TERMINAL_KIND_def)
  thus ?thesis by metis
qed

lemma drive_ok:
  assumes "sup_ok U s" and "pc_ok U s (fst th)"
  shows "sup_ok U (snd (drive U inp n th s))"
  using assms
proof (induction U inp n th s rule: drive.induct)
  case (1 U inp n th s)
  show ?case
  proof (cases "answered (fst th)")
    case None
    obtain pc' s' where x: "resume U (poll inp n) (fst th) s = (pc', s')" by fastforce
    have "section_ok U s pc' s'" using resume_ok [OF "1.prems" x] .
    hence "sup_ok U s'" "pc_ok U s' (fst (settle (pc', snd th)))"
      using settle_cases [of pc' "snd th"] by (auto simp: section_ok_def)
    from "1.IH" [OF None x [symmetric] this] show ?thesis using None x by (simp add: drive.simps [of U inp n th s])
  qed (use 1 in \<open>simp add: drive.simps [of U inp n th s]\<close>)
qed

lemma lifecycle_ok:
  assumes "sup_ok U s"
  shows "sup_ok U (snd (lifecycle U inp rq s))"
proof -
  obtain pc k s' where x: "enter (ri_files inp) (ri_enter inp) rq s = ((pc, k), s')" by (metis prod.collapse)
  have "section_ok U s pc s'" using enter_ok [OF assms x] .
  thus ?thesis using drive_ok [of U s' "(pc, k)"] x by (simp add: lifecycle_def section_ok_def)
qed

lemma run_request_ok: "sup_ok U s \<Longrightarrow> sup_ok U (snd (run_request C U inp i rq s))"
  using lifecycle_ok [of U s inp] by (auto simp: run_request_def split: result.splits prod.splits) (metis snd_conv)

lemma dispatch_runtime_ok:
  assumes "dispatch_runtime C U inp mname payload s = Some (r, s')" and "sup_ok U s"
  shows "sup_ok U s'"
proof -
  note ok = run_request_ok [OF assms(2), of C inp]
  have "sup_ok U (snd (handle_runtime_start C U inp payload s))" "sup_ok U (snd (handle_runtime_status C U inp payload s))"
    "sup_ok U (snd (handle_runtime_stop C U inp payload s))" "sup_ok U (snd (handle_runtime_restart C U inp payload s))"
    "sup_ok U (snd (handle_runtime_binding C U inp payload s))"
    using ok assms(2)
    by (simp_all add: handle_runtime_start_def handle_runtime_status_def handle_runtime_stop_def handle_runtime_restart_def
        handle_runtime_binding_def split: result.splits)
  thus ?thesis using assms(1) by (auto simp: dispatch_runtime_def split: if_splits)
qed

text \<open>A dispatch to the terminals or to the browsers is a request of the history these components are proved for, or changes nothing.\<close>

lemma dispatch_terminal_exec:
  fixes C :: "'v terminal_codec"
  assumes "dispatch_terminal C inp b key mname payload h ev = Some (r, h', ev')"
  shows "(h', ev') = (h, ev) \<or> (\<exists>e :: ('v, 'v) terminal_call. call_key e = key \<and> terminal_exec C e (h, ev) = (h', ev') \<and>
    (\<forall>bd. call_dispatch e bd =
       enforce_dispatch (pi_gate_ms inp) terminal_capability (sb_agent_id bd) (sb_generation bd) (sb_scope bd) b))"
proof -
  consider (create) "handle_terminal_create C inp b key payload h ev = (r, h', ev')" |
    (written) "handle_terminal_write C inp b key payload h = (r, h')" "ev' = ev" |
    (resize) "handle_terminal_resize C inp b key payload h = (r, h')" "ev' = ev" |
    (close) "handle_terminal_close C inp b key payload h ev = (r, h', ev')" | (same) "(h', ev') = (h, ev)"
    using assms by (auto simp: dispatch_terminal_def split: if_splits prod.splits)
  thus ?thesis
  proof cases
    case create
    thus ?thesis by (intro disjI2 exI [of _ "Call_Create inp b key payload"]) simp
  next
    case written
    thus ?thesis by (intro disjI2 exI [of _ "Call_Write inp b key payload"]) simp
  next
    case resize
    thus ?thesis by (intro disjI2 exI [of _ "Call_Resize inp b key payload"]) simp
  next
    case close
    thus ?thesis by (intro disjI2 exI [of _ "Call_Close inp b key payload"]) simp
  qed simp
qed

lemma dispatch_browser_exec:
  assumes "dispatch_browser C inp key mname payload h ev = Some (r, h', ev')"
  shows "(h', ev') = (h, ev) \<or> (\<exists>e. browser_key e = key \<and> browser_exec C e (h, ev) = (h', ev'))"
proof -
  consider (create) "handle_browser_create C inp key payload h ev = (r, h', ev')" |
    (navigate) "handle_browser_navigate C inp key payload h = (r, h')" "ev' = ev" |
    (failed) "handle_browser_load_failed C inp key payload h = (r, h')" "ev' = ev" |
    (close) "handle_browser_close C inp key payload h ev = (r, h', ev')" | (same) "(h', ev') = (h, ev)"
    using assms by (auto simp: dispatch_browser_def split: if_splits prod.splits)
  thus ?thesis
  proof cases
    case create
    thus ?thesis by (intro disjI2 exI [of _ "B_Create inp key payload"]) simp
  next
    case navigate
    thus ?thesis by (intro disjI2 exI [of _ "B_Navigate inp key payload"]) simp
  next
    case failed
    thus ?thesis by (intro disjI2 exI [of _ "B_LoadFailed inp key payload"]) simp
  next
    case close
    thus ?thesis by (intro disjI2 exI [of _ "B_Close inp key payload"]) simp
  qed simp
qed

lemma dispatch_scheduler_step:
  assumes "dispatch_scheduler C instant today cap mname payload inner = Some (r, inner')"
  shows "\<exists>e. scheduler_step (inner, fs) e (inner', fs)"
proof -
  consider (wake) r where "register instant today (cc_wake C payload) inner = (r, inner')" |
    (cancel) r where "cancel (cc_cancel C payload) inner = (r, inner')"
    using assms by (auto simp: dispatch_scheduler_def split: if_splits prod.splits result.splits)
  thus ?thesis by cases (blast intro: scheduler_step.intros)+
qed

text \<open>The effect of one dispatch: nothing, or one step of exactly one of the hosts, for the calling connection.\<close>

lemma dispatch_cases:
  fixes C :: "('v, 'u) capability_codec"
  assumes "dispatch_capability C U inp b key cap mname payload h = (r, h')"
  obtains (same) "h' = h"
  | (terminal) e :: "('v, 'v) terminal_call" and th ev where "cap = coordinate_of Terminal" "h' = h\<lparr>dh_terminal := th, dh_events := ev\<rparr>" "call_key e = key"
      "terminal_exec (cc_terminal C) e (dh_terminal h, dh_events h) = (th, ev)"
      "\<forall>bd. call_dispatch e bd =
         enforce_dispatch (pi_gate_ms (ci_pty inp)) terminal_capability (sb_agent_id bd) (sb_generation bd) (sb_scope bd) b"
  | (browser) e bh ev where "cap = coordinate_of Browser" "h' = h\<lparr>dh_browser := bh, dh_events := ev\<rparr>" "browser_key e = key"
      "browser_exec (cc_browser C) e (dh_browser h, dh_events h) = (bh, ev)"
  | (runtime) s where "cap = coordinate_of Runtime" "h' = h\<lparr>dh_supervisor := s\<rparr>" "sup_ok U (dh_supervisor h) \<Longrightarrow> sup_ok U s"
  | (timer) e s where "cap = coordinate_of Timer" "h' = h\<lparr>dh_scheduler := s\<rparr>" "scheduler_step (dh_scheduler h) e s"
proof (cases "dispatch_method C U inp b key cap mname payload h")
  case None
  thus thesis using assms same by (simp add: dispatch_capability_def)
next
  case (Some out)
  hence m: "dispatch_method C U inp b key cap mname payload h = Some (r, h')" using assms by (simp add: dispatch_capability_def)
  consider "h' = h" |
    (browser) bh ev where "cap = coordinate_of Browser" "h' = h\<lparr>dh_browser := bh, dh_events := ev\<rparr>"
      "dispatch_browser (cc_browser C) (ci_brw inp) key mname payload (dh_browser h) (dh_events h) = Some (r, bh, ev)" |
    (terminal) th ev where "cap = coordinate_of Terminal" "h' = h\<lparr>dh_terminal := th, dh_events := ev\<rparr>"
      "dispatch_terminal (cc_terminal C) (ci_pty inp) b key mname payload (dh_terminal h) (dh_events h) = Some (r, th, ev)" |
    (runtime) s where "cap = coordinate_of Runtime" "h' = h\<lparr>dh_supervisor := s\<rparr>"
      "dispatch_runtime (cc_runtime C) U (ci_runtime inp) mname payload (dh_supervisor h) = Some (r, s)" |
    (timer) inner where "cap = coordinate_of Timer" "h' = h\<lparr>dh_scheduler := (inner, snd (dh_scheduler h))\<rparr>"
      "dispatch_scheduler C (ci_mono inp) (ci_wall inp) cap mname payload (fst (dh_scheduler h)) = Some (r, inner)"
    using m unfolding dispatch_method_def by (auto split: if_splits)
  thus thesis
  proof cases
    case browser
    from dispatch_browser_exec [OF browser(3)] show thesis
    proof
      assume "(bh, ev) = (dh_browser h, dh_events h)"
      thus thesis using same browser(2) by simp
    qed (use that(3) browser(1,2) in blast)
  next
    case terminal
    from dispatch_terminal_exec [OF terminal(3)] show thesis
    proof
      assume "(th, ev) = (dh_terminal h, dh_events h)"
      thus thesis using same terminal(2) by simp
    qed (use that(2) terminal(1,2) in blast)
  next
    case runtime
    show thesis by (rule that(4) [OF runtime(1,2)]) (rule dispatch_runtime_ok [OF runtime(3)])
  next
    case timer
    from dispatch_scheduler_step [OF timer(3), of "snd (dh_scheduler h)"] show thesis using timer(1,2) that(5) by auto
  qed (use same in blast)
qed

section \<open>Results of the handlers\<close>

text \<open>A result of a method that exists: a payload with \<open>P\<close>, or an error other than that the method is unknown.\<close>

fun proper :: "('v \<Rightarrow> bool) \<Rightarrow> ('v, DaemonMethodError) result \<Rightarrow> bool" where
  "proper P (Ok v) = P v"
| "proper P (Err (MethodNotFound c m)) = False"
| "proper P (Err e) = True"

definition encodes :: "('v \<Rightarrow> bool) \<Rightarrow> ('v, 'u) capability_codec \<Rightarrow> bool" where
  "encodes P C =
     ((\<forall>r. P (tc_of_report (cc_terminal C) r)) \<and> (\<forall>rs n. P (tc_of_status (cc_terminal C) rs n)) \<and> P (tc_unit (cc_terminal C)) \<and>
      (\<forall>r. P (bd_of_report (cc_browser C) r)) \<and> (\<forall>rs. P (bd_of_list (cc_browser C) rs)) \<and>
      (\<forall>rs n. P (bd_of_status (cc_browser C) rs n)) \<and>
      (\<forall>r. P (rc_of_report (cc_runtime C) r)) \<and> (\<forall>g p u. P (rc_of_binding (cc_runtime C) g p u)) \<and>
      (\<forall>a. P (cc_of_wake C a)) \<and> (\<forall>a. P (cc_of_cancelled C a)) \<and> (\<forall>v. P (cc_of_pong C v)) \<and> (\<forall>s. P (cc_of_status C s)))"

lemma proper_errors [simp]:
  "proper P (Err (failed code message retry))" "proper P (Err (map_pty_error x))" "proper P (Err (map_browser_error y))"
  "proper P (Err (managed_error z))" "proper P (Err (runtime_host_error w))" "proper P (Err (scheduler_error c m v))"
  "proper P (Err (terminal_broker_error u))"
proof -
  have m: "proper P (Err (managed_error z))" for z by (cases z) (simp_all add: failed_def)
  thus "proper P (Err (managed_error z))" .
  show "proper P (Err (runtime_host_error w))" by (cases w) (simp_all add: failed_def m)
  show "proper P (Err (failed code message retry))" by (simp add: failed_def)
  show "proper P (Err (map_pty_error x))" by (cases x) (simp_all add: failed_def)
  show "proper P (Err (map_browser_error y))" by (cases y) (simp_all add: failed_def)
  show "proper P (Err (scheduler_error c m v))" by (cases v) simp_all
  show "proper P (Err (terminal_broker_error u))" by (cases u) (simp_all add: failed_def)
qed

lemma gates_proper:
  "parse_request m d p = Err e \<Longrightarrow> proper P (Err e)" "gate_agent inp b bd = Err e \<Longrightarrow> proper P (Err e)"
  "terminal_check_owner key i h = Err e \<Longrightarrow> proper P (Err e)" "terminal_gate inp b key i h = Err e \<Longrightarrow> proper P (Err e)"
  "browser_check_owner key i bh = Err e \<Longrightarrow> proper P (Err e)" "validate_runtime_request n i = Err e \<Longrightarrow> proper P (Err e)"
  "generation_request m d' p = Err e \<Longrightarrow> proper P (Err e)"
proof -
  have g: "gate_agent inp b bd = Err e \<Longrightarrow> proper P (Err e)" for inp bd by (auto simp: gate_agent_def split: result.splits)
  have c: "terminal_check_owner key i h = Err e \<Longrightarrow> proper P (Err e)"
    by (auto simp: terminal_check_owner_def split: option.splits if_splits)
  have p: "parse_request m d p = Err e \<Longrightarrow> proper P (Err e)" for d :: "'f \<Rightarrow> ('g, string) result" and p
    by (auto simp: parse_request_def split: result.splits)
  have v: "validate_runtime_request n i = Err e \<Longrightarrow> proper P (Err e)" for n i
    by (auto simp: validate_runtime_request_def split: if_splits)
  show "gate_agent inp b bd = Err e \<Longrightarrow> proper P (Err e)" by (rule g)
  show "terminal_check_owner key i h = Err e \<Longrightarrow> proper P (Err e)" by (rule c)
  show "parse_request m d p = Err e \<Longrightarrow> proper P (Err e)" by (rule p)
  show "validate_runtime_request n i = Err e \<Longrightarrow> proper P (Err e)" by (rule v)
  show "terminal_gate inp b key i h = Err e \<Longrightarrow> proper P (Err e)"
    using g c by (auto simp: terminal_gate_def split: result.splits option.splits)
  show "browser_check_owner key i bh = Err e \<Longrightarrow> proper P (Err e)"
    by (auto simp: browser_check_owner_def split: option.splits if_splits result.splits)
  show "generation_request m d' p = Err e \<Longrightarrow> proper P (Err e)"
    using v by (auto simp: generation_request_def parse_request_def split: result.splits if_splits)
qed

lemma terminal_proper:
  assumes "encodes P C" and "dispatch_terminal (cc_terminal C) inp b key mname payload h ev = Some (r, h', ev')"
  shows "proper P r"
proof -
  note splits = result.splits option.splits prod.splits if_splits
  have "proper P (fst (handle_terminal_create (cc_terminal C) inp b key payload h ev))"
    using assms(1) by (auto simp: handle_terminal_create_def encodes_def Let_def gates_proper split: splits)
  moreover have "proper P (fst (handle_terminal_write (cc_terminal C) inp b key payload h))"
    using assms(1) by (auto simp: handle_terminal_write_def encodes_def gates_proper split: splits)
  moreover have "proper P (fst (handle_terminal_resize (cc_terminal C) inp b key payload h))"
    using assms(1) by (auto simp: handle_terminal_resize_def encodes_def gates_proper split: splits)
  moreover have "proper P (fst (handle_terminal_close (cc_terminal C) inp b key payload h ev))"
    using assms(1) by (auto simp: handle_terminal_close_def encodes_def Let_def gates_proper split: splits)
  moreover have "proper P (handle_terminal_status (cc_terminal C) h)"
    using assms(1) by (simp add: handle_terminal_status_def encodes_def Let_def)
  ultimately show ?thesis using assms(2) by (auto simp: dispatch_terminal_def split: if_splits prod.splits)
qed

lemma browser_proper:
  assumes "encodes P C" and "dispatch_browser (cc_browser C) inp key mname payload h ev = Some (r, h', ev')"
  shows "proper P r"
proof -
  note splits = result.splits option.splits prod.splits if_splits
  have "proper P (fst (handle_browser_create (cc_browser C) inp key payload h ev))"
    using assms(1) by (auto simp: handle_browser_create_def encodes_def gates_proper split: splits)
  moreover have "proper P (fst (handle_browser_close (cc_browser C) inp key payload h ev))"
    using assms(1) by (auto simp: handle_browser_close_def encodes_def gates_proper split: splits)
  moreover have "proper P (fst (handle_browser_navigate (cc_browser C) inp key payload h))"
    using assms(1) by (auto simp: handle_browser_navigate_def encodes_def gates_proper split: splits)
  moreover have "proper P (fst (handle_browser_load_failed (cc_browser C) inp key payload h))"
    using assms(1) by (auto simp: handle_browser_load_failed_def encodes_def gates_proper split: splits)
  moreover have "proper P (handle_browser_list (cc_browser C) h)" "proper P (handle_browser_status (cc_browser C) h)"
    using assms(1) by (simp_all add: handle_browser_list_def handle_browser_status_def encodes_def Let_def)
  ultimately show ?thesis using assms(2) by (auto simp: dispatch_browser_def split: if_splits prod.splits)
qed

lemma run_request_proper:
  assumes "encodes P C"
  shows "proper P (fst (run_request (cc_runtime C) U inp i rq s))"
proof -
  have "proper P (answer_value (cc_runtime C) r)" for r
    using assms by (cases "(cc_runtime C, r)" rule: answer_value.cases) (auto simp: encodes_def)
  thus ?thesis by (auto simp: run_request_def split: result.splits prod.splits)
qed

lemma runtime_proper:
  assumes "encodes P C" and "dispatch_runtime (cc_runtime C) U inp mname payload s = Some (r, s')"
  shows "proper P r"
proof -
  note ok = run_request_proper [OF assms(1)]
  have "proper P (fst (handle_runtime_start (cc_runtime C) U inp payload s))" "proper P (fst (handle_runtime_status (cc_runtime C) U inp payload s))"
    using ok by (auto simp: handle_runtime_start_def handle_runtime_status_def gates_proper split: result.splits)
  moreover have "proper P (fst (handle_runtime_stop (cc_runtime C) U inp payload s))"
    "proper P (fst (handle_runtime_restart (cc_runtime C) U inp payload s))"
    "proper P (fst (handle_runtime_binding (cc_runtime C) U inp payload s))"
    using ok by (auto simp: handle_runtime_stop_def handle_runtime_restart_def handle_runtime_binding_def gates_proper split: result.splits)
  ultimately show ?thesis using assms(2) by (auto simp: dispatch_runtime_def split: if_splits)
qed

lemma scheduler_proper:
  assumes "encodes P C" and "dispatch_scheduler C instant today cap mname payload inner = Some (r, inner')"
  shows "proper P r"
  using assms by (auto simp: dispatch_scheduler_def encodes_def split: if_splits prod.splits result.splits)

lemma dispatch_method_proper:
  assumes "encodes P C" and "dispatch_method C U inp b key cap mname payload h = Some (r, h')"
  shows "proper P r"
  using assms(2) unfolding dispatch_method_def
  by (auto split: if_splits
      dest: terminal_proper [OF assms(1)] browser_proper [OF assms(1)] runtime_proper [OF assms(1)] scheduler_proper [OF assms(1)])
    (use assms(1) in \<open>simp_all add: encodes_def\<close>)

text \<open>The capability layer meets what the envelope server asks of its handlers.\<close>

lemma daemon_handlers_ok:
  assumes "encodes (jc_is_object J) C"
  shows "handlers_ok J (daemon_ops C U null)"
proof -
  have "handler_result_ok J cap mname (fst (dispatch_capability C U inp b key cap mname payload h))" for inp b key cap mname payload h
  proof (cases "dispatch_method C U inp b key cap mname payload h")
    case (Some out)
    hence "proper (jc_is_object J) (fst out)" using dispatch_method_proper [OF assms] by (metis prod.collapse)
    hence "handler_result_ok J cap mname (fst out)"
      by (cases "(jc_is_object J, fst out)" rule: proper.cases) auto
    thus ?thesis using Some by (simp add: dispatch_capability_def)
  qed (simp add: dispatch_capability_def)
  thus ?thesis by (simp add: handlers_ok_def daemon_ops_def)
qed

section \<open>Properties\<close>

lemma supports_iff: "supports_coordinate cap \<longleftrightarrow> (\<exists>c. cap = coordinate_of c)"
proof -
  have "c \<in> set [System, Daemon, Browser, Terminal, Runtime, Timer]" for c by (cases c) simp_all
  thus ?thesis unfolding supports_coordinate_def all_coordinates_def set_map by blast
qed

lemma dispatch_method_None:
  "dispatch_method C U inp b key cap mname payload h = None \<longleftrightarrow> \<not> (\<exists>c. cap = coordinate_of c \<and> mname \<in> set (daemon_methods c))"
proof (cases "\<exists>c. cap = coordinate_of c")
  case True
  then obtain c where c: "cap = coordinate_of c" by blast
  have "dispatch_method C U inp b key cap mname payload h = None \<longleftrightarrow> mname \<notin> set (daemon_methods c)"
    by (cases c) (simp_all add: c dispatch_method_def dispatch_browser_def dispatch_terminal_def dispatch_runtime_def dispatch_scheduler_def
      del: coordinate_of.simps)
  thus ?thesis using c by auto
next
  case False
  hence "cap \<noteq> coordinate_of c" for c by blast
  thus ?thesis by (simp add: dispatch_method_def del: coordinate_of.simps)
qed


end
