(* ===== verification/Daemon_System.thy ===== *)
theory Daemon_System
  imports Capabilities
begin

text \<open>
  The daemon as a whole: the envelope server of \<open>Daemon_Server\<close> over the capability layer of \<open>Capabilities\<close>, together with the
  threads that act on the same hosts, that is the scheduler's worker, the bridge that publishes terminal output, and the
  writer of each connection (\<open>serve_connection\<close> and \<open>start_terminal_event_bridge\<close> of \<open>crates/daemon/src/server.rs\<close>).
\<close>

section \<open>Hosts behind the envelope server\<close>

lemma malformed_reply_host:
  assumes "malformed_reply J rd bytes x srv st = (replies, srv', st')"
  shows "ds_host srv' = ds_host srv"
proof (cases "\<exists>i. jc_frame_id J bytes = Some i \<and> id_length_ok i")
  case True
  then obtain i where i: "jc_frame_id J bytes = Some i" "id_length_ok i" by blast
  show ?thesis using assms i by (intro conjunct2 [OF single_reply_quiet]) (simp add: malformed_reply_def)
qed (use assms in \<open>auto simp: malformed_reply_def split: option.splits\<close>)

text \<open>What a step of the envelope server does to the host: nothing, one authorized dispatch, or the release of a connection.\<close>

lemma daemon_step_host:
  assumes "codec_ok (payload_codec.truncate J)" and "daemon_step J H (srv, ss) e (srv', ss')"
  obtains (same) "ds_host srv' = ds_host srv"
  | (invoked) key bytes rd env st where "e = D_Frame key bytes rd" "hm_get ss key = Some st" "jc_envelope J bytes = Ok env"
      "invocation_authorized (payload_codec.truncate J) rd env srv st"
      "ds_host srv' = snd (ho_dispatch H (ds_broker srv) rd key (the (env_capability env)) (the (env_method env))
         (the (env_payload env)) (ds_host srv))"
  | (released) key i at where "e = D_Close key i at" "ds_host srv' = ho_release H key (ds_host srv)"
  using assms(2)
proof (cases rule: daemon_step.cases)
  case (frame key st rd bytes replies st')
  show thesis
  proof (cases "jc_envelope J bytes")
    case (Ok env)
    hence h: "handle_envelope (payload_codec.truncate J) H rd env key srv st = (replies, srv', st')"
      using frame by (simp add: handle_frame_def)
    show thesis
      using handle_envelope_host [OF assms(1) h] that(1) that(2) [OF frame(1) frame(3) Ok] by (cases "invocation_authorized (payload_codec.truncate J) rd env srv st") simp_all
  next
    case (Err x)
    hence "malformed_reply J rd bytes x srv st = (replies, srv', st')" using frame by (simp add: handle_frame_def)
    thus thesis by (rule that(1) [OF malformed_reply_host])
  qed
next
  case (close key st i at)
  thus thesis using that(3) by (simp add: teardown_def)
qed (use that(1) in simp_all)

text \<open>
  The contract of a capability layer with an invariant: dispatch and release keep it. Then every step of the envelope server
  keeps it.
\<close>

locale hosting =
  fixes H :: "('v, 'h) host_ops" and I :: "'h \<Rightarrow> bool"
  assumes dispatch_keeps: "I h \<Longrightarrow> I (snd (ho_dispatch H b rd key cap mname payload h))"
    and release_keeps: "I h \<Longrightarrow> I (ho_release H key h)"
begin

lemma step_keeps:
  assumes "codec_ok (payload_codec.truncate J)" and "daemon_step J H (srv, ss) e (srv', ss')" and "I (ds_host srv)"
  shows "I (ds_host srv')"
  using assms(1,2) by (cases rule: daemon_step_host) (use assms(3) dispatch_keeps release_keeps in simp_all)

end

definition host_ok :: "'u url_api \<Rightarrow> 'u daemon_host \<Rightarrow> bool" where
  "host_ok U h = (terminal_inv (dh_terminal h) \<and> browser_inv (dh_browser h) \<and> scheduler_inv (fst (dh_scheduler h)) \<and>
     sup_ok U (dh_supervisor h))"

lemma dispatch_host_ok:
  assumes "dispatch_capability C U inp b key cap mname payload h = (r, h')" and "host_ok U h"
  shows "host_ok U h'"
  using assms(1)
proof (cases rule: dispatch_cases)
  case (terminal e th ev)
  thus ?thesis using assms(2) terminal_exec_inv [OF terminal(4)] by (simp add: host_ok_def)
next
  case (browser e bh ev)
  thus ?thesis using assms(2) browser_exec_inv [OF browser(4)] by (simp add: host_ok_def)
next
  case (timer e s)
  thus ?thesis using assms(2) scheduler_step_inv [OF timer(3)] by (simp add: host_ok_def)
qed (use assms(2) in \<open>simp_all add: host_ok_def\<close>)

lemma release_host_exec:
  "(dh_browser (release_host key h), unsubscribe_all key (dh_events h)) =
     browser_exec C (B_Disconnect key) (dh_browser h, dh_events h)"
  by (simp add: release_host_def)

lemma release_host_ok:
  assumes "host_ok U h"
  shows "host_ok U (release_host key h)"
proof -
  have "browser_inv (dh_browser (release_host key h))"
    using browser_exec_inv [OF release_host_exec [of key h, symmetric]] assms unfolding host_ok_def by blast
  thus ?thesis using assms by (simp add: host_ok_def release_host_def)
qed

interpretation capabilities: hosting "daemon_ops C U null" "host_ok U" for C :: "('v, 'u) capability_codec" and U null
proof
  fix h :: "'u daemon_host" and b :: "'v Broker" and rd key cap mname payload
  let ?h = "h\<lparr>dh_calls := dh_calls h + 1\<rparr>"
  assume "host_ok U h"
  hence "host_ok U ?h" by (simp add: host_ok_def)
  thus "host_ok U (snd (ho_dispatch (daemon_ops C U null) b rd key cap mname payload h))"
    by (simp add: daemon_ops_def) (metis dispatch_host_ok prod.collapse)
  show "host_ok U (ho_release (daemon_ops C U null) key h)" by (simp add: daemon_ops_def release_host_ok \<open>host_ok U h\<close>)
qed

section \<open>The whole daemon\<close>

type_synonym ('v, 'u) shell = "('v, 'u daemon_host) daemon"

text \<open>
  A connection is registered with the event router before it is served and takes the router's key. Its writer thread delivers
  events; it ends with the connection, also when a reply cannot be sent (\<open>Sh_Abort\<close>). The scheduler's worker and the bridge of
  the terminal output run on their own.
\<close>

datatype shell_event =
    Sh_Connect "PeerIdentity option"
  | Sh_Serve daemon_event
  | Sh_Abort nat
  | Sh_Worker nat "nat \<Rightarrow> nat" "nat \<Rightarrow> nat"
  | Sh_Publish RouterEvent
  | Sh_Deliver nat

fun served :: "daemon_event \<Rightarrow> bool" where
  "served (D_Connect key identity) = False"
| "served (D_Abort key) = False"
| "served e = True"

definition on_events :: "(EventRouter \<Rightarrow> EventRouter) \<Rightarrow> ('v, 'u daemon_host) DaemonServer \<Rightarrow> ('v, 'u daemon_host) DaemonServer" where
  "on_events f srv = srv\<lparr>ds_host := (ds_host srv)\<lparr>dh_events := f (dh_events (ds_host srv))\<rparr>\<rparr>"

inductive shell_step ::
  "'v frame_codec \<Rightarrow> ('v, 'u daemon_host) host_ops \<Rightarrow> ('v, 'u) shell \<Rightarrow> shell_event \<Rightarrow> ('v, 'u) shell \<Rightarrow> bool" for J H where
  connect: "register_connection (dh_events (ds_host srv)) = (key, ev) \<Longrightarrow>
    daemon_step J H (on_events (\<lambda>_. ev) srv, ss) (D_Connect key identity) w' \<Longrightarrow>
    shell_step J H (srv, ss) (Sh_Connect identity) w'"
| serve: "served e \<Longrightarrow> daemon_step J H w e w' \<Longrightarrow> shell_step J H w (Sh_Serve e) w'"
| abort: "daemon_step J H (srv, ss) (D_Abort key) (srv', ss') \<Longrightarrow>
    shell_step J H (srv, ss) (Sh_Abort key) (on_events (\<lambda>ev. drop_subscriber key (unsubscribe_all key ev)) srv', ss')"
| worker: "scheduler_step (dh_scheduler (ds_host srv)) (S_Pass now insts days) s \<Longrightarrow>
    shell_step J H (srv, ss) (Sh_Worker now insts days) (srv\<lparr>ds_host := (ds_host srv)\<lparr>dh_scheduler := s\<rparr>\<rparr>, ss)"
| publish: "shell_step J H (srv, ss) (Sh_Publish e) (on_events (publish e) srv, ss)"
| deliver: "shell_step J H (srv, ss) (Sh_Deliver key) (on_events (\<lambda>ev. snd (recv_event key ev)) srv, ss)"

inductive_cases shell_stepE: "shell_step J H w e w'"

text \<open>The hosts apart from the event router and the inputs.\<close>

definition same_hosts :: "'u daemon_host \<Rightarrow> 'u daemon_host \<Rightarrow> bool" where
  "same_hosts h h' = (dh_terminal h' = dh_terminal h \<and> dh_browser h' = dh_browser h \<and> dh_scheduler h' = dh_scheduler h \<and>
     dh_supervisor h' = dh_supervisor h)"

lemma same_hosts_ok: "same_hosts h h' \<Longrightarrow> host_ok U h \<Longrightarrow> host_ok U h'"
  by (simp add: same_hosts_def host_ok_def)

lemma on_events_same [simp]: "same_hosts (ds_host srv) (ds_host (on_events f srv))"
  by (simp add: same_hosts_def on_events_def)

text \<open>What a step of the daemon does to its hosts.\<close>

lemma shell_step_host:
  assumes "codec_ok (payload_codec.truncate J)" and "shell_step J H (srv, ss) e (srv', ss')"
  obtains (same) "same_hosts (ds_host srv) (ds_host srv')"
  | (invoked) key bytes rd env st where "e = Sh_Serve (D_Frame key bytes rd)" "hm_get ss key = Some st" "jc_envelope J bytes = Ok env"
      "invocation_authorized (payload_codec.truncate J) rd env srv st"
      "ds_host srv' = snd (ho_dispatch H (ds_broker srv) rd key (the (env_capability env)) (the (env_method env))
         (the (env_payload env)) (ds_host srv))"
  | (released) key i at where "e = Sh_Serve (D_Close key i at)" "ds_host srv' = ho_release H key (ds_host srv)"
  | (worker) now insts days s where "e = Sh_Worker now insts days" "scheduler_step (dh_scheduler (ds_host srv)) (S_Pass now insts days) s"
      "ds_host srv' = (ds_host srv)\<lparr>dh_scheduler := s\<rparr>"
  using assms(2)
proof (cases rule: shell_step.cases)
  case (connect key ev identity)
  from connect(3) have "ds_host srv' = ds_host (on_events (\<lambda>_. ev) srv)" by (cases rule: daemon_step.cases) simp_all
  thus thesis using that(1) by simp
next
  case (serve d)
  from assms(1) serve(3) show thesis
  proof (cases rule: daemon_step_host)
    case same
    thus thesis using that(1) by (simp add: same_hosts_def)
  qed (use that serve(1) in blast)+
next
  case (abort key srv1)
  from abort(3) have "ds_host srv1 = ds_host srv" by (cases rule: daemon_step.cases) simp_all
  thus thesis using that(1) abort(2) by (simp add: same_hosts_def on_events_def)
next
  case (worker now insts days s)
  thus thesis using that(4) by simp
qed (use that(1) in simp_all)

lemma system_step_ok:
  assumes "codec_ok (payload_codec.truncate J)" and "shell_step J (daemon_ops C U null) (srv, ss) e (srv', ss')"
    and "host_ok U (ds_host srv)"
  shows "host_ok U (ds_host srv')"
  using assms(1,2)
proof (cases rule: shell_step_host)
  case same
  thus ?thesis using assms(3) same_hosts_ok by blast
next
  case (worker now insts days s)
  thus ?thesis using assms(3) scheduler_step_inv [OF worker(2)] by (simp add: host_ok_def)
qed (use assms(3) capabilities.dispatch_keeps capabilities.release_keeps in simp_all)

text \<open>The invariant of the daemon, for a JSON codec with the documented behaviour.\<close>

definition system_inv :: "'v frame_codec \<Rightarrow> 'u url_api \<Rightarrow> ('v, 'u) shell \<Rightarrow> bool" where
  "system_inv J U w = (codec_ok (payload_codec.truncate J) \<and> host_ok U (ds_host (fst w)))"

interpretation system: preserved "shell_step J (daemon_ops C U null)" "system_inv J U" for J C U null
  by unfold_locales (metis system_inv_def system_step_ok prod.collapse)

lemma new_host_ok: "host_ok U (new_daemon_host inps)"
  by (simp add: host_ok_def new_daemon_host_def new_terminal_inv new_browser_inv default_inner_inv)
    (simp add: new_supervisor_def sup_ok_def)

lemma reachable_host_ok:
  assumes "codec_ok (payload_codec.truncate J)" and "ds_host srv0 = new_daemon_host inps"
    and "run (shell_step J (daemon_ops C U null)) (srv0, []) es (srv, ss)"
  shows "host_ok U (ds_host srv)"
proof -
  have "system_inv J U (srv0, [])" using assms(1,2) new_host_ok [of U inps] by (simp add: system_inv_def)
  from system.run_inv [OF assms(3) this] show ?thesis by (simp add: system_inv_def)
qed

text \<open>A frame that carries an authorized invocation of the capability \<open>c\<close> on the connection \<open>key\<close>.\<close>

definition admitted ::
  "'v frame_codec \<Rightarrow> ('v, 'h) daemon \<Rightarrow> nat \<Rightarrow> u8 list \<Rightarrow> Readings \<Rightarrow> capability \<Rightarrow> bool" where
  "admitted J w key bytes rd c =
     (\<exists>st env. hm_get (snd w) key = Some st \<and> jc_envelope J bytes = Ok env \<and> env_capability env = Some (coordinate_of c) \<and>
        invocation_authorized (payload_codec.truncate J) rd env (fst w) st)"

lemma admittedI:
  assumes "hm_get ss key = Some st" "jc_envelope J bytes = Ok env" "invocation_authorized (payload_codec.truncate J) rd env srv st"
    and "the (env_capability env) = coordinate_of c"
  shows "admitted J (srv, ss) key bytes rd c"
  using assms unfolding admitted_def invocation_authorized_def by fastforce

lemma terminal_step_authorized:
  assumes "codec_ok (payload_codec.truncate J)" and "shell_step J (daemon_ops C U null) (srv, ss) e (srv', ss')"
    and "terminal_inv (dh_terminal (ds_host srv))" and "hm_get (py_sessions (th_registry (dh_terminal (ds_host srv)))) i \<noteq> None"
    and "session_view i (dh_terminal (ds_host srv')) \<noteq> session_view i (dh_terminal (ds_host srv))"
  shows "\<exists>key bytes rd. e = Sh_Serve (D_Frame key bytes rd) \<and> admitted J (srv, ss) key bytes rd Terminal \<and>
    terminal_owner i (dh_terminal (ds_host srv)) = Some key \<and>
    (\<forall>bd. terminal_binding i (dh_terminal (ds_host srv)) = Some bd \<longrightarrow>
       (\<exists>ms. enforce_dispatch ms terminal_capability (sb_agent_id bd) (sb_generation bd) (sb_scope bd) (ds_broker srv) = Ok ()))"
  using assms(1,2)
proof (cases rule: shell_step_host)
  case (invoked key bytes rd env st)
  let ?h = "ds_host srv" and ?h1 = "(ds_host srv)\<lparr>dh_calls := dh_calls (ds_host srv) + 1\<rparr>"
  obtain r where d: "dispatch_capability C U (dh_inputs ?h (dh_calls ?h)) (ds_broker srv) key (the (env_capability env)) (the (env_method env))
      (the (env_payload env)) ?h1 = (r, ds_host srv')"
    using invoked(5) by (simp add: daemon_ops_def) (metis prod.collapse)
  thus ?thesis
  proof (cases rule: dispatch_cases)
    case (terminal call th ev)
    have "call_gate call i (dh_terminal ?h) = Ok ()"
      using terminal_exec_keeps [OF terminal(4)] assms(3,4,5) terminal(2) by auto
    thus ?thesis unfolding call_gate_Ok using terminal(3,5) invoked(1) admittedI [OF invoked(2-4) terminal(1)] by auto
  qed (use assms(5) in simp_all)
qed (use assms(5) in \<open>simp_all add: same_hosts_def daemon_ops_def release_host_def\<close>)

lemma browser_step_authorized:
  assumes "codec_ok (payload_codec.truncate J)" and "shell_step J (daemon_ops C U null) (srv, ss) e (srv', ss')"
    and "browser_inv (dh_browser (ds_host srv))" and "browser_owner i (dh_browser (ds_host srv)) = Some key"
    and "browser_view i (dh_browser (ds_host srv')) \<noteq> browser_view i (dh_browser (ds_host srv))"
  shows "(\<exists>bytes rd. e = Sh_Serve (D_Frame key bytes rd) \<and> admitted J (srv, ss) key bytes rd Browser) \<or>
    (\<exists>issue at. e = Sh_Serve (D_Close key issue at))"
proof -
  obtain s where s: "hm_get (sr_sessions (bh_registry (dh_browser (ds_host srv)))) i = Some s"
    using browser_invD(3) [OF assms(3)] assms(4) unfolding browser_owner_def by blast
  show ?thesis
    using assms(1,2)
  proof (cases rule: shell_step_host)
    case (invoked k bytes rd env st)
    let ?h = "ds_host srv" and ?h1 = "(ds_host srv)\<lparr>dh_calls := dh_calls (ds_host srv) + 1\<rparr>"
    obtain r where d: "dispatch_capability C U (dh_inputs ?h (dh_calls ?h)) (ds_broker srv) k (the (env_capability env)) (the (env_method env))
        (the (env_payload env)) ?h1 = (r, ds_host srv')"
      using invoked(5) by (simp add: daemon_ops_def) (metis prod.collapse)
    thus ?thesis
    proof (cases rule: dispatch_cases)
      case (browser call bh ev)
      have "browser_key call = key"
        using browser_exec_keeps [OF browser(4) _ _ _, of i s key] assms(3,4,5) s browser(2) by auto
      thus ?thesis using browser(3) invoked(1) admittedI [OF invoked(2-4) browser(1)] by blast
    qed (use assms(5) in simp_all)
  next
    case (released k issue at)
    have x: "browser_exec undefined (B_Disconnect k) (dh_browser (ds_host srv), dh_events (ds_host srv)) =
        (dh_browser (ds_host srv'), unsubscribe_all k (dh_events (ds_host srv)))"
      using released(2) by (simp add: daemon_ops_def release_host_def)
    have "k = key" using browser_exec_keeps [OF x assms(3) s assms(4)] assms(5) by auto
    thus ?thesis using released(1) by blast
  qed (use assms(5) in \<open>simp_all add: same_hosts_def\<close>)
qed

section \<open>An execution for the examples\<close>

lemma capability_inj [simp]: "coordinate_to_capability c = coordinate_to_capability d \<longleftrightarrow> c = d"
  by (cases c; cases d) (simp add: coordinate_to_capability_def)

lemma handle_invocation_seen:
  assumes "handle_invocation H rd env key srv st = (replies, srv', st')"
  shows "ss_seen_ids st' = ss_seen_ids st"
  using assms
  by (auto simp: handle_invocation_def Let_def method_reply_def invocation_error_def error_result_def
      split: result.splits prod.splits DaemonMethodError.splits)

text \<open>An authorized invocation takes effect.\<close>

lemma serve_invocation:
  assumes "codec_ok (payload_codec.truncate J)" and "hm_get ss key = Some st" and "jc_envelope J bytes = Ok env"
    and "invocation_authorized (payload_codec.truncate J) rd env srv st"
  obtains srv' st' where "shell_step J H (srv, ss) (Sh_Serve (D_Frame key bytes rd)) (srv', hm_insert key st' ss)"
    "ds_broker srv' = ds_broker srv" "ss_activations st' = ss_activations st" "ss_seen_ids st' = env_id env # ss_seen_ids st"
    "ds_host srv' = snd (ho_dispatch H (ds_broker srv) rd key (the (env_capability env)) (the (env_method env))
       (the (env_payload env)) (ds_host srv))"
proof -
  let ?J = "payload_codec.truncate J" and ?st = "st\<lparr>ss_seen_ids := env_id env # ss_seen_ids st\<rparr>"
  obtain replies srv' st' where h: "handle_envelope ?J H rd env key srv st = (replies, srv', st')" by (metis prod.collapse)
  have "validate_envelope ?J env = Ok ()" "env_id env \<notin> set (ss_seen_ids st)" "env_kind env = Kind_Invocation"
    using assms(4) validate_envelope_iff [OF assms(1)] by (simp_all add: invocation_authorized_def)
  hence i: "handle_invocation H rd env key srv ?st = (replies, srv', st')" using h by (simp add: handle_envelope_def)
  have f: "handle_frame J H rd bytes key srv st = (replies, srv', st')" using h assms(3) by (simp add: handle_frame_def)
  have "shell_step J H (srv, ss) (Sh_Serve (D_Frame key bytes rd)) (srv', hm_insert key st' ss)"
    by (rule shell_step.serve [OF _ daemon_step.frame [OF assms(2) f]]) simp
  thus thesis
    using that handle_invocation_quiet [OF i] handle_invocation_seen [OF i] handle_envelope_host [OF assms(1) h] assms(4)
    by (simp add: quiet_def)
qed

definition sys_coordinates :: "ProtocolCoordinate list" where
  "sys_coordinates = [coordinate_of Terminal, coordinate_of Browser]"

definition sys_hello :: "(HelloPayload + AgreementPayload) Envelope" where
  "sys_hello = sample_hello\<lparr>env_payload := Some (Inl \<lparr>hp_instance_id = ''instance'', hp_supports = sys_coordinates, hp_requires = []\<rparr>)\<rparr>"

definition sys_call :: "string \<Rightarrow> capability \<Rightarrow> string \<Rightarrow> (HelloPayload + AgreementPayload) Envelope" where
  "sys_call i c mname = sample_hello\<lparr>env_id := i, env_kind := Kind_Invocation, env_capability := Some (coordinate_of c),
     env_method := Some mname,
     env_participant := \<lparr>pa_component = ''agent'', pa_facet = ''tool'', pa_activation_id = Some (new_activation_id 1 0)\<rparr>\<rparr>"

definition sys_envelope :: "u8 list \<Rightarrow> (HelloPayload + AgreementPayload) Envelope" where
  "sys_envelope bytes =
     (if bytes = [] then sys_hello
      else if bytes = [1] then sys_call ''msg-0002'' Terminal ''terminal.create''
      else if bytes = [2] then sys_call ''msg-0003'' Browser ''browser.create''
      else sys_call ''msg-0004'' Terminal ''terminal.write'')"

definition sys_frames :: "(HelloPayload + AgreementPayload) frame_codec" where
  "sys_frames = payload_codec.extend sample_codec \<lparr>jc_envelope = (\<lambda>bytes. Ok (sys_envelope bytes)), jc_frame_id = (\<lambda>_. None)\<rparr>"

definition sys_null :: "HelloPayload + AgreementPayload" where
  "sys_null = Inl \<lparr>hp_instance_id = [], hp_supports = [], hp_requires = []\<rparr>"

definition sys_terminal_codec :: "(HelloPayload + AgreementPayload) terminal_codec" where
  "sys_terminal_codec = \<lparr>tc_create = (\<lambda>_. tc_create sample_terminal_codec ()), tc_write = (\<lambda>_. tc_write sample_terminal_codec ()),
     tc_resize = (\<lambda>_. Err []), tc_close = (\<lambda>_. Err []), tc_of_report = (\<lambda>_. sys_null), tc_of_status = (\<lambda>_ _. sys_null), tc_unit = sys_null\<rparr>"

definition sys_browser_codec :: "(HelloPayload + AgreementPayload) browser_codec" where
  "sys_browser_codec = \<lparr>bd_create = (\<lambda>_. bd_create sample_browser_codec ()), bd_close = (\<lambda>_. Err []), bd_navigate = (\<lambda>_. Err []),
     bd_load_failed = (\<lambda>_. Err []), bd_of_report = (\<lambda>_. sys_null), bd_of_list = (\<lambda>_. sys_null), bd_of_status = (\<lambda>_ _. sys_null)\<rparr>"

definition sys_codec :: "(HelloPayload + AgreementPayload, string) capability_codec" where
  "sys_codec = \<lparr>cc_terminal = sys_terminal_codec, cc_browser = sys_browser_codec,
     cc_runtime = \<lparr>rc_start = (\<lambda>_. Err []), rc_status = (\<lambda>_. Err []), rc_stop = (\<lambda>_. Err []), rc_restart = (\<lambda>_. Err []),
       rc_binding = (\<lambda>_. Err []), rc_of_report = (\<lambda>_. sys_null), rc_of_binding = (\<lambda>_ _ _. sys_null)\<rparr>,
     cc_wake = (\<lambda>_. Err []), cc_cancel = (\<lambda>_. Err []), cc_of_wake = (\<lambda>_. sys_null), cc_of_cancelled = (\<lambda>_. sys_null),
     cc_of_pong = (\<lambda>_. sys_null), cc_of_status = (\<lambda>_. sys_null)\<rparr>"

definition sys_inputs :: call_inputs where
  "sys_inputs = \<lparr>ci_pty = sample_pty_inputs, ci_brw = sample_brw_inputs,
     ci_runtime = \<lparr>ri_files = sample_files, ri_catalog = No_File, ri_enter = calm, ri_steps = (\<lambda>_. calm), ri_patience = 0\<rparr>,
     ci_mono = 0, ci_wall = 0, ci_facts = \<lparr>sf_version = [], sf_pid = 1, sf_started_at = [], sf_uptime_seconds = 0, sf_claim_port = 1,
       sf_port = 1, sf_connections = 1, sf_credentials_issued = 1\<rparr>\<rparr>"

definition sys_server :: "(HelloPayload + AgreementPayload, string daemon_host) DaemonServer" where
  "sys_server = \<lparr>ds_broker = new_broker, ds_policy = Policy_Off, ds_folds_case = False, ds_id_counter = 0,
     ds_bootstrap = sample_bootstrap, ds_host = new_daemon_host (\<lambda>_. sys_inputs)\<rparr>"

definition sys_ops :: "(HelloPayload + AgreementPayload, string daemon_host) host_ops" where
  "sys_ops = daemon_ops sys_codec sample_urls sys_null"

lemma sys_codec_ok: "codec_ok (payload_codec.truncate sys_frames)" "payload_codec.truncate sys_frames = sample_codec"
proof -
  show "payload_codec.truncate sys_frames = sample_codec" by (simp add: sys_frames_def payload_codec.defs frame_codec.defs)
  thus "codec_ok (payload_codec.truncate sys_frames)" using sample_codec_ok by simp
qed

lemma sys_valid:
  "validate_envelope sample_codec sys_hello = Ok ()"
  "validate_envelope sample_codec (sys_call ''msg-0002'' Terminal ''terminal.create'') = Ok ()"
  "validate_envelope sample_codec (sys_call ''msg-0003'' Browser ''browser.create'') = Ok ()"
  "validate_envelope sample_codec (sys_call ''msg-0004'' Terminal ''terminal.write'') = Ok ()"
  by code_simp+

definition sys_broker :: "(HelloPayload + AgreementPayload) Broker" where
  "sys_broker = snd (snd (snd (negotiate sample_readings ParticipantAuthority ''agent-tool'' (new_activation_id 1 0) sys_coordinates []
     new_broker)))"

declare coordinate_of.simps [simp del]

lemma sys_names:
  "cap_api_version (coordinate_to_capability (coordinate_of Browser)) @ CHR ''-'' # cap_kind (coordinate_to_capability (coordinate_of Browser))
     \<noteq> cap_api_version (coordinate_to_capability (coordinate_of Terminal)) @ CHR ''-'' # cap_kind (coordinate_to_capability (coordinate_of Terminal))"
  by (simp add: coordinate_to_capability_def coordinate_of.simps BROWSER_API_VERSION_def TERMINAL_API_VERSION_def)

lemma sys_negotiation:
  "negotiate sample_readings ParticipantAuthority ''agent-tool'' (new_activation_id 1 0) sys_coordinates [] new_broker =
     (sys_coordinates, [], 1, sys_broker)"
  unfolding sys_broker_def sys_coordinates_def
  by (simp add: negotiate_eval sys_names)

lemma sys_dispatch:
  "enforce_dispatch 4 (coordinate_to_capability (coordinate_of Terminal)) ''agent-tool'' 1 default_scope sys_broker = Ok ()"
  "enforce_dispatch 4 (coordinate_to_capability (coordinate_of Browser)) ''agent-tool'' 1 default_scope sys_broker = Ok ()"
  unfolding sys_broker_def sys_coordinates_def
  by (simp_all add: negotiate_eval sys_names sys_names [THEN not_sym] enforce_dispatch_def enforce_valid_lease_def hm_values_def covers_def is_revoked_def is_expired_def default_scope_def)

text \<open>The session of the connection 1 after the Hello.\<close>

definition sys_activation :: Activation where
  "sys_activation = \<lparr>av_activation_id = new_activation_id 1 0, av_authority = ParticipantAuthority, av_agent_id = ''agent-tool'',
     av_generation = 1, av_granted = sys_coordinates, av_hello_id = ''msg-0001''\<rparr>"

definition greeted_by :: "SessionState \<Rightarrow> string list \<Rightarrow> bool" where
  "greeted_by st ids = (ss_activations st = [(new_activation_id 1 0, sys_activation)] \<and> ss_seen_ids st = ids)"

lemma sys_authorized:
  assumes "greeted_by st ids" and "i \<notin> set ids" and "ds_broker srv = sys_broker" and "coordinate_of c \<in> set sys_coordinates"
    and "validate_envelope sample_codec (sys_call i c mname) = Ok ()"
  shows "invocation_authorized sample_codec sample_readings (sys_call i c mname) srv st"
proof -
  have e: "env_id (sys_call i c mname) = i" "env_kind (sys_call i c mname) = Kind_Invocation"
    "pa_activation_id (env_participant (sys_call i c mname)) = Some (new_activation_id 1 0)"
    "env_capability (sys_call i c mname) = Some (coordinate_of c)"
    by (simp_all add: sys_call_def)
  have a: "hm_get (ss_activations st) (new_activation_id 1 0) = Some sys_activation" "ss_seen_ids st = ids"
    using assms(1) by (simp_all add: greeted_by_def hm_get_def)
  have f: "frame_ok sample_codec (sys_call i c mname)" using validate_envelope_iff [OF sample_codec_ok] assms(5) by simp
  have d: "enforce_dispatch 4 (coordinate_to_capability (coordinate_of c)) ''agent-tool'' 1 default_scope (ds_broker srv) = Ok ()"
    using sys_dispatch assms(3,4) by (auto simp: sys_coordinates_def)
  have r: "rd_broker_ms sample_readings = 4" by (simp add: sample_readings_def)
  have v: "av_generation sys_activation = 1" "av_granted sys_activation = sys_coordinates" "av_agent_id sys_activation = ''agent-tool''"
    by (simp_all add: sys_activation_def)
  show ?thesis unfolding invocation_authorized_def using e a f d r v assms(2,4) by auto
qed

lemma sys_connected:
  "shell_step sys_frames sys_ops (sys_server, []) (Sh_Connect None)
     (on_events (\<lambda>_. snd (register_connection spawn_router)) sys_server, [(1, new_session None)])"
proof -
  have r: "register_connection (dh_events (ds_host sys_server)) = (1, snd (register_connection spawn_router))"
    by (simp add: sys_server_def new_daemon_host_def register_connection_def spawn_router_def Let_def)
  show ?thesis
    by (rule shell_step.connect [OF r])
      (use daemon_step.connect [of sys_frames sys_ops _ "[]" 1 None] in \<open>simp add: hm_insert_def\<close>)
qed

lemma sys_greeted:
  assumes "ds_broker srv = new_broker" "ds_id_counter srv = 0" "ds_policy srv = Policy_Off"
  obtains srv' st where
    "shell_step sys_frames sys_ops (srv, [(1, new_session None)]) (Sh_Serve (D_Frame 1 [] sample_readings)) (srv', [(1, st)])"
    "greeted_by st [''msg-0001'']" "ds_broker srv' = sys_broker" "ds_host srv' = ds_host srv"
proof -
  obtain replies srv' st where h: "handle_frame sys_frames sys_ops sample_readings [] 1 srv (new_session None) = (replies, srv', st)"
    by (metis prod.collapse)
  have s: "shell_step sys_frames sys_ops (srv, [(1, new_session None)]) (Sh_Serve (D_Frame 1 [] sample_readings)) (srv', [(1, st)])"
    using shell_step.serve [OF _ daemon_step.frame [of "[(1, new_session None)]" 1 "new_session None", OF _ h]]
    by (simp add: hm_get_def hm_insert_def)
  have a: "hello_authority srv st0 \<lparr>pa_component = ''agent'', pa_facet = ''tool'', pa_activation_id = None\<rparr> = ParticipantAuthority" for st0
    by (simp add: hello_authority_def SHELL_COMPONENT_def)
  have f: "filter (catalog_supports sys_ops) sys_coordinates = sys_coordinates" "filter (\<lambda>c. \<not> catalog_supports sys_ops c) sys_coordinates = []"
    by (simp_all add: catalog_supports_def sys_ops_def daemon_ops_def all_coordinates_def sys_coordinates_def)
  have e: "env_payload sys_hello = Some (Inl \<lparr>hp_instance_id = ''instance'', hp_supports = sys_coordinates, hp_requires = []\<rparr>)"
      "env_id sys_hello = ''msg-0001''" "env_kind sys_hello = Kind_Hello"
      "env_participant sys_hello = \<lparr>pa_component = ''agent'', pa_facet = ''tool'', pa_activation_id = None\<rparr>"
    by (simp_all add: sys_hello_def sample_hello_def)
  have j: "jc_envelope sys_frames [] = Ok sys_hello" "jc_hello sample_codec (Inl x) = Ok x" for x
    by (simp_all add: sys_frames_def payload_codec.defs frame_codec.defs sys_envelope_def sample_codec_def)
  have r: "rd_act_nanos sample_readings = 1" by (simp add: sample_readings_def)
  note eqs = handle_frame_def handle_envelope_def new_session_def sys_codec_ok(2) sys_valid(1) handle_hello_def a f e j r assms
    sys_negotiation [unfolded One_nat_def] Let_def hm_insert_def agent_id_of_def
  have "greeted_by st [''msg-0001'']" "ds_broker srv' = sys_broker" "ds_host srv' = ds_host srv"
    using h by (auto simp: eqs greeted_by_def sys_activation_def)
  with s that show thesis by blast
qed

text \<open>The three invocations.\<close>

lemma sys_ops_dispatch:
  "dh_inputs h = (\<lambda>_. sys_inputs) \<Longrightarrow> ho_dispatch sys_ops b rd key cap mname p h =
     dispatch_capability sys_codec sample_urls sys_inputs b key cap mname p (h\<lparr>dh_calls := dh_calls h + 1\<rparr>)"
  by (simp add: sys_ops_def daemon_ops_def)

lemma sys_codec_sel [simp]:
  "cc_terminal sys_codec = sys_terminal_codec" "cc_browser sys_codec = sys_browser_codec" "ci_pty sys_inputs = sample_pty_inputs"
  "ci_brw sys_inputs = sample_brw_inputs"
  by (simp_all add: sys_codec_def sys_inputs_def)

lemma sys_create:
  assumes "dh_inputs h = (\<lambda>_. sys_inputs)" and "dh_terminal h = new_terminal_host"
    and "h' = snd (ho_dispatch sys_ops b rd key (coordinate_of Terminal) ''terminal.create'' p h)"
  shows "session_view ''pty-7-1'' (dh_terminal h') =
     (Some \<lparr>pt_id = ''pty-7-1'', pt_cols = 80, pt_rows = 24, pt_created_at = 7, pt_last_activity = None, pt_closed = False,
        pt_error = None, pt_input = []\<rparr>, Some key, None)"
    and "dh_browser h' = dh_browser h" "dh_inputs h' = (\<lambda>_. sys_inputs)"
proof -
  let ?x = "handle_terminal_create sys_terminal_codec sample_pty_inputs b key p new_terminal_host (dh_events h)"
  have h': "h' = h\<lparr>dh_calls := dh_calls h + 1, dh_terminal := fst (snd ?x), dh_events := snd (snd ?x)\<rparr>"
    using assms by (simp add: sys_ops_dispatch dispatch_capability_def dispatch_method_def dispatch_terminal_def split: prod.splits)
  have "show_nat 7 = ''7''" "show_nat 1 = ''1''" by code_simp+
  hence "session_view ''pty-7-1'' (fst (snd ?x)) =
     (Some \<lparr>pt_id = ''pty-7-1'', pt_cols = 80, pt_rows = 24, pt_created_at = 7, pt_last_activity = None, pt_closed = False,
        pt_error = None, pt_input = []\<rparr>, Some key, None)"
    by (simp add: sys_terminal_codec_def sample_terminal_codec_def sample_pty_inputs_def handle_terminal_create_def parse_request_def
        create_request_valid_def TERMINAL_SCHEMA_VERSION_def terminal_create_def pty_create_def geometry_ok_def MIN_COLS_def
        MAX_COLS_def MIN_ROWS_def MAX_ROWS_def resolve_shell_def terminal_record_def pty_report_def terminal_public_report_def
        new_terminal_host_def new_pty_registry_def session_view_def hm_get_insert hm_empty Let_def)
  thus "session_view ''pty-7-1'' (dh_terminal h') =
     (Some \<lparr>pt_id = ''pty-7-1'', pt_cols = 80, pt_rows = 24, pt_created_at = 7, pt_last_activity = None, pt_closed = False,
        pt_error = None, pt_input = []\<rparr>, Some key, None)" using h' by simp
  show "dh_browser h' = dh_browser h" "dh_inputs h' = (\<lambda>_. sys_inputs)" using h' assms(1) by simp_all
qed

lemma sys_browse:
  assumes "dh_inputs h = (\<lambda>_. sys_inputs)" and "dh_browser h = new_browser_host"
    and "h' = snd (ho_dispatch sys_ops b rd key (coordinate_of Browser) ''browser.create'' p h)"
  shows "browser_owner ''brw-7-1'' (dh_browser h') = Some key" and "dh_terminal h' = dh_terminal h" "dh_inputs h' = (\<lambda>_. sys_inputs)"
proof -
  let ?x = "handle_browser_create sys_browser_codec sample_brw_inputs key p new_browser_host (dh_events h)"
  have h': "h' = h\<lparr>dh_calls := dh_calls h + 1, dh_browser := fst (snd ?x), dh_events := snd (snd ?x)\<rparr>"
    using assms by (simp add: sys_ops_dispatch dispatch_capability_def dispatch_method_def dispatch_browser_def split: prod.splits)
  have "browser_id 7 1 = ''brw-7-1''" by code_simp
  hence "browser_owner ''brw-7-1'' (fst (snd ?x)) = Some key"
    by (simp add: sys_browser_codec_def sample_browser_codec_def sample_brw_inputs_def handle_browser_create_def parse_request_def
        browser_create_valid_def BROWSER_SCHEMA_VERSION_def host_create_def browser_create_def report_def BrowserSession.truncate_def
        new_browser_host_def new_registry_def browser_owner_def hm_get_insert hm_empty Let_def browser_public_report_def)
  thus "browser_owner ''brw-7-1'' (dh_browser h') = Some key" using h' by simp
  show "dh_terminal h' = dh_terminal h" "dh_inputs h' = (\<lambda>_. sys_inputs)" using h' assms(1) by simp_all
qed

lemma sys_write:
  assumes "dh_inputs h = (\<lambda>_. sys_inputs)" and "session_view ''pty-7-1'' (dh_terminal h) = (Some v, Some key, None)"
    and "pt_closed v = False" "pt_input v = []" "h' = snd (ho_dispatch sys_ops b rd key (coordinate_of Terminal) ''terminal.write'' p h)"
  shows "session_view ''pty-7-1'' (dh_terminal h') \<noteq> session_view ''pty-7-1'' (dh_terminal h)"
proof -
  let ?x = "handle_terminal_write sys_terminal_codec sample_pty_inputs b key p (dh_terminal h)"
  have h': "h' = h\<lparr>dh_calls := dh_calls h + 1, dh_terminal := snd ?x\<rparr>"
    using assms(1,5) by (simp add: sys_ops_dispatch dispatch_capability_def dispatch_method_def dispatch_terminal_def split: prod.splits)
  have id: "valid_pty_session_id ''pty-7-1''" by code_simp
  note view = assms(2) [unfolded session_view_def prod.inject]
  have "session_view ''pty-7-1'' (snd ?x) \<noteq> session_view ''pty-7-1'' (dh_terminal h)"
    using view id assms(3,4)
    by (cases v) (auto simp: handle_terminal_write_def parse_request_def sys_terminal_codec_def sample_terminal_codec_def TERMINAL_SCHEMA_VERSION_def
        terminal_gate_def terminal_check_owner_def terminal_owner_def terminal_binding_def pty_write_def MAX_WRITE_BYTES_def
        sample_pty_inputs_def session_view_def hm_get_insert Let_def)
  thus ?thesis using h' by simp
qed

definition sys_events :: "shell_event list" where
  "sys_events = [Sh_Connect None, Sh_Serve (D_Frame 1 [] sample_readings), Sh_Serve (D_Frame 1 [1] sample_readings),
     Sh_Serve (D_Frame 1 [2] sample_readings)]"

definition sys_state :: "(HelloPayload + AgreementPayload, string daemon_host) DaemonServer \<Rightarrow> SessionState \<Rightarrow> bool" where
  "sys_state srv st = (greeted_by st [''msg-0003'', ''msg-0002'', ''msg-0001''] \<and> ds_broker srv = sys_broker \<and>
     dh_inputs (ds_host srv) = (\<lambda>_. sys_inputs) \<and> browser_owner ''brw-7-1'' (dh_browser (ds_host srv)) = Some 1 \<and>
     session_view ''pty-7-1'' (dh_terminal (ds_host srv)) =
       (Some \<lparr>pt_id = ''pty-7-1'', pt_cols = 80, pt_rows = 24, pt_created_at = 7, pt_last_activity = None, pt_closed = False,
          pt_error = None, pt_input = []\<rparr>, Some 1, None))"

lemma sys_call_sel [simp]:
  "env_id (sys_call i c mname) = i" "env_capability (sys_call i c mname) = Some (coordinate_of c)"
  "env_method (sys_call i c mname) = Some mname"
  by (simp_all add: sys_call_def)

lemma sys_serve:
  assumes "jc_envelope sys_frames bytes = Ok (sys_call i c mname)" and "greeted_by st ids" and "i \<notin> set ids"
    and "ds_broker srv = sys_broker" and "coordinate_of c \<in> set sys_coordinates"
    and "validate_envelope sample_codec (sys_call i c mname) = Ok ()"
  obtains srv' st' where "shell_step sys_frames sys_ops (srv, [(1, st)]) (Sh_Serve (D_Frame 1 bytes sample_readings)) (srv', [(1, st')])"
    "greeted_by st' (i # ids)" "ds_broker srv' = sys_broker"
    "ds_host srv' = snd (ho_dispatch sys_ops (ds_broker srv) sample_readings 1 (coordinate_of c) mname
       (the (env_payload (sys_call i c mname))) (ds_host srv))"
proof -
  have g: "hm_get [(1 :: nat, st)] 1 = Some st" by (simp add: hm_get_def)
  have a: "invocation_authorized (payload_codec.truncate sys_frames) sample_readings (sys_call i c mname) srv st"
    using sys_authorized [OF assms(2-6)] by (simp add: sys_codec_ok(2))
  from serve_invocation [OF sys_codec_ok(1) g assms(1) a, of sys_ops] obtain srv' st' where
    "shell_step sys_frames sys_ops (srv, [(1, st)]) (Sh_Serve (D_Frame 1 bytes sample_readings)) (srv', hm_insert 1 st' [(1, st)])"
    "ds_broker srv' = ds_broker srv" "ss_activations st' = ss_activations st"
    "ss_seen_ids st' = env_id (sys_call i c mname) # ss_seen_ids st"
    "ds_host srv' = snd (ho_dispatch sys_ops (ds_broker srv) sample_readings 1 (the (env_capability (sys_call i c mname)))
       (the (env_method (sys_call i c mname))) (the (env_payload (sys_call i c mname))) (ds_host srv))" .
  thus thesis using that assms(2,4) by (simp add: greeted_by_def hm_insert_def)
qed

lemma sys_envelopes:
  "jc_envelope sys_frames [1] = Ok (sys_call ''msg-0002'' Terminal ''terminal.create'')"
  "jc_envelope sys_frames [2] = Ok (sys_call ''msg-0003'' Browser ''browser.create'')"
  "jc_envelope sys_frames [3] = Ok (sys_call ''msg-0004'' Terminal ''terminal.write'')"
  by (simp_all add: sys_frames_def payload_codec.defs frame_codec.defs sys_envelope_def)

lemma sys_run:
  obtains srv st where "run (shell_step sys_frames sys_ops) (sys_server, []) sys_events (srv, [(1, st)])" "sys_state srv st"
proof -
  note s1 = sys_connected
  let ?srv = "on_events (\<lambda>_. snd (register_connection spawn_router)) sys_server"
  have b: "ds_broker ?srv = new_broker" "ds_id_counter ?srv = 0" "ds_policy ?srv = Policy_Off"
    by (simp_all add: on_events_def sys_server_def)
  obtain srv2 st2 where s2: "shell_step sys_frames sys_ops (?srv, [(1, new_session None)]) (Sh_Serve (D_Frame 1 [] sample_readings)) (srv2, [(1, st2)])"
    and g2: "greeted_by st2 [''msg-0001'']" "ds_broker srv2 = sys_broker" "ds_host srv2 = ds_host ?srv"
    using sys_greeted [OF b] by blast
  have h2: "dh_inputs (ds_host srv2) = (\<lambda>_. sys_inputs)" "dh_terminal (ds_host srv2) = new_terminal_host"
    "dh_browser (ds_host srv2) = new_browser_host"
    using g2(3) by (simp_all add: on_events_def sys_server_def new_daemon_host_def)
  have c: "coordinate_of Terminal \<in> set sys_coordinates" "coordinate_of Browser \<in> set sys_coordinates"
    by (simp_all add: sys_coordinates_def)
  obtain srv3 st3 where s3: "shell_step sys_frames sys_ops (srv2, [(1, st2)]) (Sh_Serve (D_Frame 1 [1] sample_readings)) (srv3, [(1, st3)])"
    and g3: "greeted_by st3 [''msg-0002'', ''msg-0001'']" "ds_broker srv3 = sys_broker"
    and d3: "ds_host srv3 = snd (ho_dispatch sys_ops (ds_broker srv2) sample_readings 1 (coordinate_of Terminal) ''terminal.create''
       (the (env_payload (sys_call ''msg-0002'' Terminal ''terminal.create''))) (ds_host srv2))"
    using sys_serve [OF sys_envelopes(1) g2(1) _ g2(2) c(1) sys_valid(2)] by auto
  note h3 = sys_create [OF h2(1,2) d3]
  obtain srv4 st4 where s4: "shell_step sys_frames sys_ops (srv3, [(1, st3)]) (Sh_Serve (D_Frame 1 [2] sample_readings)) (srv4, [(1, st4)])"
    and g4: "greeted_by st4 [''msg-0003'', ''msg-0002'', ''msg-0001'']" "ds_broker srv4 = sys_broker"
    and d4: "ds_host srv4 = snd (ho_dispatch sys_ops (ds_broker srv3) sample_readings 1 (coordinate_of Browser) ''browser.create''
       (the (env_payload (sys_call ''msg-0003'' Browser ''browser.create''))) (ds_host srv3))"
    using sys_serve [OF sys_envelopes(2) g3(1) _ g3(2) c(2) sys_valid(3)] by auto
  note h4 = sys_browse [OF h3(3) h3(2) [unfolded h2(3)] d4]
  have "sys_state srv4 st4" using g4 h4 h3(1) by (simp add: sys_state_def)
  moreover note run_cons [where step = "shell_step sys_frames sys_ops"]
  from this [OF s1 this [OF s2 this [OF s3 this [OF s4 run_nil]]]]
  have "run (shell_step sys_frames sys_ops) (sys_server, []) sys_events (srv4, [(1, st4)])" by (simp add: sys_events_def)
  ultimately show thesis using that by blast
qed

text \<open>A write to the terminal session, and the end of the connection.\<close>

lemma sys_written:
  assumes "sys_state srv st"
  obtains srv' st' where "shell_step sys_frames sys_ops (srv, [(1, st)]) (Sh_Serve (D_Frame 1 [3] sample_readings)) (srv', [(1, st')])"
    "session_view ''pty-7-1'' (dh_terminal (ds_host srv')) \<noteq> session_view ''pty-7-1'' (dh_terminal (ds_host srv))"
proof -
  have s: "greeted_by st [''msg-0003'', ''msg-0002'', ''msg-0001'']" "ds_broker srv = sys_broker" "dh_inputs (ds_host srv) = (\<lambda>_. sys_inputs)"
    using assms by (simp_all add: sys_state_def)
  note v = assms [unfolded sys_state_def, THEN conjunct2, THEN conjunct2, THEN conjunct2, THEN conjunct2]
  have c: "coordinate_of Terminal \<in> set sys_coordinates" and n: "''msg-0004'' \<notin> set [''msg-0003'', ''msg-0002'', ''msg-0001'']"
    by (simp_all add: sys_coordinates_def)
  obtain srv' st' where x: "shell_step sys_frames sys_ops (srv, [(1, st)]) (Sh_Serve (D_Frame 1 [3] sample_readings)) (srv', [(1, st')])"
    and d: "ds_host srv' = snd (ho_dispatch sys_ops (ds_broker srv) sample_readings 1 (coordinate_of Terminal) ''terminal.write''
       (the (env_payload (sys_call ''msg-0004'' Terminal ''terminal.write''))) (ds_host srv))"
    using sys_serve [OF sys_envelopes(3) s(1) n s(2) c sys_valid(4)] by blast
  have "session_view ''pty-7-1'' (dh_terminal (ds_host srv')) \<noteq> session_view ''pty-7-1'' (dh_terminal (ds_host srv))"
    by (rule sys_write [OF s(3) v _ _ d]) simp_all
  thus thesis using that x by blast
qed

lemma sys_closed:
  assumes "sys_state srv st"
  obtains srv' ss' where "shell_step sys_frames sys_ops (srv, [(1, st)]) (Sh_Serve (D_Close 1 sample_inputs 9)) (srv', ss')"
    "browser_view ''brw-7-1'' (dh_browser (ds_host srv')) \<noteq> browser_view ''brw-7-1'' (dh_browser (ds_host srv))"
proof -
  have g: "hm_get [(1 :: nat, st)] 1 = Some st" by (simp add: hm_get_def)
  have x: "shell_step sys_frames sys_ops (srv, [(1, st)]) (Sh_Serve (D_Close 1 sample_inputs 9))
      (teardown sys_ops 1 sample_inputs 9 st srv, hm_remove 1 [(1, st)])"
    by (rule shell_step.serve [OF _ daemon_step.close [OF g]]) simp
  have "browser_owner ''brw-7-1'' (dh_browser (ds_host srv)) = Some 1" using assms by (simp add: sys_state_def)
  moreover have "hm_get (hm_retain (\<lambda>_ owner. owner \<noteq> 1) m) k \<noteq> Some (1 :: nat)" for k :: string and m
    by (auto simp: hm_get_def hm_retain_def dest: map_of_SomeD)
  ultimately have "browser_view ''brw-7-1'' (dh_browser (ds_host (teardown sys_ops 1 sample_inputs 9 st srv))) \<noteq>
      browser_view ''brw-7-1'' (dh_browser (ds_host srv))"
    by (simp add: teardown_def sys_ops_def daemon_ops_def release_host_def release_connection_ownership_def browser_view_def browser_owner_def)
  with x that show thesis by blast
qed

end
