(* ===== verification/Negotiation.thy ===== *)
theory Negotiation
  imports Envelope
begin

text \<open>
  The dsh-std adapter (\<open>crates/adapter-dsh-std\<close>): the negotiation session from Hello to activation, the conformance check of a
  declared dsh-std package, the degradation log and the facet catalog. The crate has its own copies of the wire types of
  \<open>Envelope\<close>; the records of that theory stand for both. Clock readings, already formatted, and the generated message id
  are arguments.
\<close>

section \<open>Negotiation\<close>

datatype NegotiationPhase = Proposed | Agreed | Phase_Active | Phase_Rejected

datatype RejectionReason = RR_Unavailable | RR_UnsupportedVersion | RR_PolicyDenied | RR_ProviderFailed | RR_PeerRejected

fun rejection_reason_str :: "RejectionReason \<Rightarrow> string" where
  "rejection_reason_str RR_Unavailable = ''unavailable''"
| "rejection_reason_str RR_UnsupportedVersion = ''unsupported_version''"
| "rejection_reason_str RR_PolicyDenied = ''policy_denied''"
| "rejection_reason_str RR_ProviderFailed = ''provider_failed''"
| "rejection_reason_str RR_PeerRejected = ''peer_rejected''"

datatype NegotiationErrorCode = Neg_Conflict | Neg_InvalidState | Neg_MalformedMessage

record NegotiationError =
  ne_code :: NegotiationErrorCode
  ne_message :: string

definition neg_conflict :: "string \<Rightarrow> NegotiationError" where
  "neg_conflict message = \<lparr>ne_code = Neg_Conflict, ne_message = message\<rparr>"

definition invalid_state :: "string \<Rightarrow> NegotiationError" where
  "invalid_state message = \<lparr>ne_code = Neg_InvalidState, ne_message = message\<rparr>"

definition malformed :: "string \<Rightarrow> NegotiationError" where
  "malformed message = \<lparr>ne_code = Neg_MalformedMessage, ne_message = message\<rparr>"

record HelloMessage =
  hl_id :: string
  hl_generation :: nat
  hl_participant :: Participant
  hl_payload :: HelloPayload

record AgreementMessage =
  am_id :: string
  am_reply_to :: string
  am_generation :: nat
  am_participant :: Participant
  am_payload :: AgreementPayload

record SessionActivation =
  na_activation_id :: string
  na_granted :: "ProtocolCoordinate list"
  na_unavailable :: "UnavailableCapability list"
  na_lease_constraints :: "LeaseConstraints option"
  na_created_at :: string
  na_degraded :: bool

record Rejection =
  rj_reason :: string
  rj_message :: "string option"
  rj_at :: string

datatype NegotiationEventKind = NE_Hello | NE_Agreement | NE_Activation | NE_Reject | NE_Degrade

record NegotiationEvent =
  nv_kind :: NegotiationEventKind
  nv_at :: string
  nv_detail :: string

record AgreementDecision =
  ad_activation_id :: string
  ad_granted :: "ProtocolCoordinate list"
  ad_unavailable :: "UnavailableCapability list"
  ad_lease_constraints :: "LeaseConstraints option"
  ad_id :: "string option"
  ad_generation :: "nat option"
  ad_timestamp :: "string option"
  ad_participant :: "Participant option"

record NegotiationSession =
  ns_session_id :: string
  ns_phase :: NegotiationPhase
  ns_hello :: "HelloMessage option"
  ns_agreement :: "AgreementMessage option"
  ns_activation :: "SessionActivation option"
  ns_rejection :: "Rejection option"
  ns_degraded :: bool
  ns_history :: "NegotiationEvent list"

definition begin_session :: "string \<Rightarrow> NegotiationSession" where
  "begin_session i = \<lparr>ns_session_id = i, ns_phase = Proposed, ns_hello = None, ns_agreement = None, ns_activation = None,
     ns_rejection = None, ns_degraded = False, ns_history = []\<rparr>"

text \<open>\<open>format!("msg-{nanos:x}-{n}")\<close>; a clock before the epoch reads as 0 nanoseconds.\<close>

definition adapter_message_id :: "nat \<Rightarrow> nat \<Rightarrow> string" where
  "adapter_message_id nanos n = ''msg-'' @ show_base 16 nanos @ ''-'' @ show_nat n"

definition includes_coordinate :: "ProtocolCoordinate list \<Rightarrow> ProtocolCoordinate \<Rightarrow> bool" where
  "includes_coordinate cs c = list_ex (\<lambda>d. d = c) cs"

text \<open>\<open>iter().all(|c| seen.insert(c))\<close>.\<close>

fun all_fresh :: "'a list \<Rightarrow> 'a list \<Rightarrow> bool" where
  "all_fresh seen [] = True"
| "all_fresh seen (x # xs) = (if x \<in> set seen then False else all_fresh (x # seen) xs)"

definition all_unique_coordinates :: "ProtocolCoordinate list \<Rightarrow> bool" where
  "all_unique_coordinates cs = all_fresh [] cs"

definition all_unique_unavailable :: "UnavailableCapability list \<Rightarrow> bool" where
  "all_unique_unavailable us = all_fresh [] (map uc_coordinate us)"

fun phase_debug :: "NegotiationPhase \<Rightarrow> string" where
  "phase_debug Proposed = ''Proposed''"
| "phase_debug Agreed = ''Agreed''"
| "phase_debug Phase_Active = ''Active''"
| "phase_debug Phase_Rejected = ''Rejected''"

definition receive_hello ::
  "string \<Rightarrow> HelloMessage \<Rightarrow> NegotiationSession \<Rightarrow> (HelloMessage, NegotiationError) result \<times> NegotiationSession" where
  "receive_hello now hello s =
     (if ns_phase s = Phase_Rejected then (Err (invalid_state ''session is rejected''), s)
      else if ns_phase s \<noteq> Proposed then (Err (neg_conflict (''cannot receive Hello in phase '' @ phase_debug (ns_phase s))), s)
      else case ns_hello s of
        Some existing \<Rightarrow>
          if hl_id existing = hl_id hello then (Ok existing, s) else (Err (neg_conflict ''Hello already received''), s)
      | None \<Rightarrow>
          if \<not> (8 \<le> length (hl_id hello) \<and> length (hl_id hello) \<le> 128) then (Err (malformed ''Hello id must be 8..128 chars''), s)
          else if \<not> (8 \<le> length (hp_instance_id (hl_payload hello)) \<and> length (hp_instance_id (hl_payload hello)) \<le> 128) then
            (Err (malformed ''Hello payload.instanceId must be 8..128 chars''), s)
          else if \<not> all_unique_coordinates (hp_supports (hl_payload hello)) then (Err (malformed ''Hello supports must be unique''), s)
          else if hp_requires (hl_payload hello) = [] \<and> hp_supports (hl_payload hello) = [] then
            (Err (malformed ''Hello must declare at least one support or requirement''), s)
          else
            (Ok hello, s\<lparr>ns_hello := Some hello,
               ns_history := ns_history s @ [\<lparr>nv_kind = NE_Hello, nv_at = now, nv_detail = hl_id hello\<rparr>]\<rparr>))"

definition coordinate_label :: "ProtocolCoordinate \<Rightarrow> string" where
  "coordinate_label c = pc_api_version c @ ''/'' @ pc_kind c"

text \<open>The checks of a decision against the Hello, in their order.\<close>

definition decision_error :: "HelloMessage \<Rightarrow> AgreementDecision \<Rightarrow> NegotiationError option" where
  "decision_error hello d =
     (case find (\<lambda>c. \<not> includes_coordinate (hp_supports (hl_payload hello)) c) (ad_granted d) of
        Some c \<Rightarrow> Some (neg_conflict (''granted capability '' @ coordinate_label c @ '' is not in Hello.supports''))
      | None \<Rightarrow>
          (case find (\<lambda>u. includes_coordinate (ad_granted d) (uc_coordinate u)) (ad_unavailable d) of
             Some u \<Rightarrow> Some (neg_conflict (''capability '' @ coordinate_label (uc_coordinate u) @ '' is both granted and unavailable''))
           | None \<Rightarrow>
               if ad_activation_id d = [] \<or> 128 < length (ad_activation_id d) then Some (malformed ''activationId must be 1..128 chars'')
               else if \<not> all_unique_coordinates (ad_granted d) then Some (malformed ''granted must be unique'')
               else if \<not> all_unique_unavailable (ad_unavailable d) then Some (malformed ''unavailable must be unique'')
               else None))"

definition agreement_of :: "string \<Rightarrow> HelloMessage \<Rightarrow> AgreementDecision \<Rightarrow> AgreementMessage" where
  "agreement_of fresh hello d =
     \<lparr>am_id = (case ad_id d of Some i \<Rightarrow> i | None \<Rightarrow> fresh), am_reply_to = hl_id hello,
      am_generation = (case ad_generation d of Some g \<Rightarrow> g | None \<Rightarrow> hl_generation hello),
      am_participant = (case ad_participant d of Some p \<Rightarrow> p | None \<Rightarrow> hl_participant hello),
      am_payload = \<lparr>ap_activation_id = ad_activation_id d, ap_granted = ad_granted d, ap_unavailable = ad_unavailable d,
        ap_lease_constraints = ad_lease_constraints d\<rparr>\<rparr>"

text \<open>\<open>fresh\<close> is the id that \<open>new_message_id\<close> makes; \<open>at1\<close> and \<open>at2\<close> are the two clock readings.\<close>

definition issue_agreement ::
  "string \<Rightarrow> string \<Rightarrow> string \<Rightarrow> AgreementDecision \<Rightarrow> NegotiationSession \<Rightarrow>
   (AgreementMessage, NegotiationError) result \<times> NegotiationSession" where
  "issue_agreement fresh at1 at2 d s =
     (if ns_phase s = Phase_Rejected then (Err (invalid_state ''session is rejected''), s)
      else if ns_phase s \<noteq> Proposed then (Err (neg_conflict (''cannot issue Agreement in phase '' @ phase_debug (ns_phase s))), s)
      else case ns_hello s of
        None \<Rightarrow> (Err (invalid_state ''no Hello received yet''), s)
      | Some hello \<Rightarrow>
          (case decision_error hello d of
             Some e \<Rightarrow> (Err e, s)
           | None \<Rightarrow>
               let a = agreement_of fresh hello d
               in if \<not> (8 \<le> length (am_id a) \<and> length (am_id a) \<le> 128) then
                    (Err (malformed ''constructed Agreement id must be 8..128 chars''), s)
                  else
                    let degrade = (if ad_unavailable d = [] then []
                          else [\<lparr>nv_kind = NE_Degrade, nv_at = at1,
                            nv_detail = show_nat (length (ad_unavailable d)) @ '' capability(ies) unavailable''\<rparr>])
                    in (Ok a, s\<lparr>ns_agreement := Some a, ns_phase := Agreed,
                          ns_degraded := (ns_degraded s \<or> ad_unavailable d \<noteq> []),
                          ns_history := ns_history s @ degrade @ [\<lparr>nv_kind = NE_Agreement, nv_at = at2, nv_detail = am_id a\<rparr>]\<rparr>)))"

definition activate_session :: "string \<Rightarrow> NegotiationSession \<Rightarrow> (SessionActivation, NegotiationError) result \<times> NegotiationSession" where
  "activate_session now s =
     (if ns_phase s = Phase_Rejected then (Err (invalid_state ''session is rejected''), s)
      else if ns_phase s = Phase_Active then
        (ok_or (invalid_state ''active session without activation record'') (ns_activation s), s)
      else if ns_phase s \<noteq> Agreed then (Err (invalid_state (''cannot activate from phase '' @ phase_debug (ns_phase s))), s)
      else case ns_agreement s of
        None \<Rightarrow> (Err (invalid_state ''agreed session without agreement record''), s)
      | Some a \<Rightarrow>
          let v = \<lparr>na_activation_id = ap_activation_id (am_payload a), na_granted = ap_granted (am_payload a),
                na_unavailable = ap_unavailable (am_payload a), na_lease_constraints = ap_lease_constraints (am_payload a),
                na_created_at = now, na_degraded = ns_degraded s\<rparr>
          in (Ok v, s\<lparr>ns_activation := Some v, ns_phase := Phase_Active,
                ns_history := ns_history s @ [\<lparr>nv_kind = NE_Activation, nv_at = now, nv_detail = na_activation_id v\<rparr>]\<rparr>))"

definition reject ::
  "string \<Rightarrow> RejectionReason \<Rightarrow> string option \<Rightarrow> NegotiationSession \<Rightarrow> (Rejection, NegotiationError) result \<times> NegotiationSession" where
  "reject now reason message s =
     (if ns_phase s = Phase_Rejected then
        (ok_or (invalid_state ''rejected session without rejection record'') (ns_rejection s), s)
      else if ns_phase s = Phase_Active then (Err (neg_conflict ''cannot reject an active session''), s)
      else
        let j = \<lparr>rj_reason = rejection_reason_str reason, rj_message = message, rj_at = now\<rparr>;
            detail = (case message of Some m \<Rightarrow> rejection_reason_str reason @ '': '' @ m | None \<Rightarrow> rejection_reason_str reason)
        in (Ok j, s\<lparr>ns_phase := Phase_Rejected, ns_rejection := Some j,
              ns_history := ns_history s @ [\<lparr>nv_kind = NE_Reject, nv_at = now, nv_detail = detail\<rparr>]\<rparr>))"

definition unsatisfied_requirements :: "ProtocolCoordinate list \<Rightarrow> NegotiationSession \<Rightarrow> ProtocolCoordinate list" where
  "unsatisfied_requirements granted s =
     (case ns_hello s of
        None \<Rightarrow> []
      | Some hello \<Rightarrow> filter (\<lambda>c. \<not> includes_coordinate granted c) (map rq_coordinate (filter rq_required (hp_requires (hl_payload hello)))))"

definition unsatisfied_after_agreement :: "NegotiationSession \<Rightarrow> ProtocolCoordinate list" where
  "unsatisfied_after_agreement s =
     unsatisfied_requirements (case ns_agreement s of Some a \<Rightarrow> ap_granted (am_payload a) | None \<Rightarrow> []) s"

section \<open>Conformance\<close>

definition KNOWN_PACKAGE :: string where
  "KNOWN_PACKAGE = ''@dsh-std/core''"

definition KNOWN_VERSION :: string where
  "KNOWN_VERSION = ''0.1.1-rc.1''"

definition KNOWN_COMMIT :: string where
  "KNOWN_COMMIT = ''3df0543''"

definition KNOWN_INTEGRITY :: string where
  "KNOWN_INTEGRITY = ''sha512-I2tZEYk0V5QjlvkLvqKkAj/Fsvz0bTe0oDF2YFzL8EpmOS9KNcILrLBGSdVrt1qZnlBZP+9Zzh2byJzG0dJiOQ==''"

record ConformanceRecord =
  cf_package :: string
  cf_version :: string
  cf_commit :: string
  cf_integrity :: string

definition known_baseline :: ConformanceRecord where
  "known_baseline = \<lparr>cf_package = KNOWN_PACKAGE, cf_version = KNOWN_VERSION, cf_commit = KNOWN_COMMIT, cf_integrity = KNOWN_INTEGRITY\<rparr>"

datatype ConformanceError = EmptyPackage | InvalidPackageName | EmptyVersion | InvalidVersion | InvalidCommit | InvalidIntegrity

fun conformance_error_text :: "ConformanceError \<Rightarrow> string" where
  "conformance_error_text EmptyPackage = ''package is empty''"
| "conformance_error_text InvalidPackageName = ''package is not a valid npm package name''"
| "conformance_error_text EmptyVersion = ''version is empty''"
| "conformance_error_text InvalidVersion = ''version is not a valid exact version''"
| "conformance_error_text InvalidCommit = ''commit is not 7..=40 hex characters''"
| "conformance_error_text InvalidIntegrity = ''integrity is not a valid SRI value (sha512-<base64>)''"

definition is_package_segment :: "string \<Rightarrow> bool" where
  "is_package_segment seg = (seg \<noteq> [] \<and>
     list_all (\<lambda>c. is_ascii_alphanumeric c \<or> c = CHR ''-'' \<or> c = CHR ''_'' \<or> c = CHR ''.'') seg)"

definition is_valid_package_name :: "string \<Rightarrow> bool" where
  "is_valid_package_name name =
     (if name = [] \<or> 128 < length name then False
      else case strip_prefix ''@'' name of
        Some rest \<Rightarrow>
          (case split_once CHR ''/'' rest of
             None \<Rightarrow> False
           | Some (scope, pkg) \<Rightarrow> is_package_segment scope \<and> is_package_segment pkg)
      | None \<Rightarrow> is_package_segment name)"

definition prerelease_ok :: "string \<Rightarrow> bool" where
  "prerelease_ok p = (\<not> (p = [] \<or> list_ex (\<lambda>s. s = []) (split_on CHR ''.'' p)) \<and>
     list_all (\<lambda>c. is_ascii_alphanumeric c \<or> c = CHR ''-'' \<or> c = CHR ''.'') p)"

definition is_valid_version :: "string \<Rightarrow> bool" where
  "is_valid_version v =
     (let core = (case split_once CHR ''+'' v of Some (c, b) \<Rightarrow> c | None \<Rightarrow> v);
          (core, prerelease) = (case split_once CHR ''-'' core of Some (c, p) \<Rightarrow> (c, Some p) | None \<Rightarrow> (core, None))
      in case split_on CHR ''.'' core of
           [major, minor, patch] \<Rightarrow>
             if \<not> list_all is_ascii_digit major \<or> \<not> list_all is_ascii_digit minor \<or> \<not> list_all is_ascii_digit patch then False
             else (case prerelease of None \<Rightarrow> True | Some p \<Rightarrow> prerelease_ok p)
         | _ \<Rightarrow> False)"

definition is_valid_commit :: "string \<Rightarrow> bool" where
  "is_valid_commit c = (7 \<le> length c \<and> length c \<le> 40 \<and> list_all is_ascii_hexdigit c)"

definition is_valid_integrity :: "string \<Rightarrow> bool" where
  "is_valid_integrity i =
     (case split_once CHR ''-'' i of
        None \<Rightarrow> False
      | Some (algo, b64) \<Rightarrow>
          if \<not> (algo = ''sha256'' \<or> algo = ''sha384'' \<or> algo = ''sha512'') then False
          else b64 \<noteq> [] \<and> length b64 mod 4 = 0 \<and>
            list_all (\<lambda>c. is_ascii_alphanumeric c \<or> c = CHR ''/'' \<or> c = CHR ''+'' \<or> c = CHR ''='') b64)"

definition validate_format :: "ConformanceRecord \<Rightarrow> (unit, ConformanceError) result" where
  "validate_format r =
     (if cf_package r = [] then Err EmptyPackage
      else if \<not> is_valid_package_name (cf_package r) then Err InvalidPackageName
      else if cf_version r = [] then Err EmptyVersion
      else if \<not> is_valid_version (cf_version r) then Err InvalidVersion
      else if \<not> is_valid_commit (cf_commit r) then Err InvalidCommit
      else if \<not> is_valid_integrity (cf_integrity r) then Err InvalidIntegrity
      else Ok ())"

definition matches_known_baseline :: "ConformanceRecord \<Rightarrow> bool" where
  "matches_known_baseline r = (cf_package r = KNOWN_PACKAGE \<and> cf_version r = KNOWN_VERSION \<and> cf_commit r = KNOWN_COMMIT \<and>
     cf_integrity r = KNOWN_INTEGRITY)"

datatype ConformanceState = Conf_Known | Conf_Absent | Conf_Unknown

record ConformanceLogEntry =
  cl_at :: string
  cl_state :: ConformanceState
  cl_reason :: string
  cl_matched :: "string option"

type_synonym ConformanceLog = "ConformanceLogEntry list"

definition record_conformance :: "string \<Rightarrow> ConformanceState \<Rightarrow> string \<Rightarrow> string option \<Rightarrow> ConformanceLog \<Rightarrow> ConformanceLog" where
  "record_conformance now state reason matched log =
     log @ [\<lparr>cl_at = now, cl_state = state, cl_reason = reason, cl_matched = matched\<rparr>]"

text \<open>The first record with a format error.\<close>

fun format_failure :: "ConformanceRecord list \<Rightarrow> (ConformanceRecord \<times> ConformanceError) option" where
  "format_failure [] = None"
| "format_failure (r # rs) = (case validate_format r of Err e \<Rightarrow> Some (r, e) | Ok _ \<Rightarrow> format_failure rs)"

definition conforms :: "string \<Rightarrow> ConformanceRecord list option \<Rightarrow> ConformanceLog \<Rightarrow> ConformanceState \<times> ConformanceLog" where
  "conforms now declaration log =
     (case declaration of
        None \<Rightarrow> (Conf_Absent, record_conformance now Conf_Absent
          ''no conformance declaration; dsh-std domain protocol not implemented (L0/L1 unchanged)'' None log)
      | Some records \<Rightarrow>
          if records = [] then (Conf_Absent, record_conformance now Conf_Absent
            ''declaration present but empty; no dsh-std package coordinates declared (L0/L1 unchanged)'' None log)
          else case format_failure records of
            Some (r, e) \<Rightarrow> (Conf_Unknown, record_conformance now Conf_Unknown
              (''conformance fixture failed format validation for '' @ cf_package r @ '': '' @ conformance_error_text e) None log)
          | None \<Rightarrow>
              (case find matches_known_baseline records of
                 Some r \<Rightarrow> (Conf_Known, record_conformance now Conf_Known
                   ''declared coordinates match the pinned baseline (EXTERNAL_BASELINE)''
                   (Some (cf_package r @ ''@'' @ cf_version r)) log)
               | None \<Rightarrow> (Conf_Unknown, record_conformance now Conf_Unknown
                   ''no declared record matches the pinned baseline (coordinate drift); fail-closed'' None log)))"

section \<open>Degradation and facets\<close>

datatype DegradeReason = ConformanceUnknown | ConformanceAbsent | NegotiationRejected | InvocationFailed

record L0Fallback =
  lf_reason :: DegradeReason
  lf_detail :: string
  lf_at :: string

record DegradeEntry =
  de_at :: string
  de_reason :: DegradeReason
  de_detail :: string
  de_l0_preserved :: bool

definition degrade_to_l0 :: "string \<Rightarrow> DegradeReason \<Rightarrow> string \<Rightarrow> DegradeEntry list \<Rightarrow> L0Fallback \<times> DegradeEntry list" where
  "degrade_to_l0 now reason detail log =
     (\<lparr>lf_reason = reason, lf_detail = detail, lf_at = now\<rparr>,
      log @ [\<lparr>de_at = now, de_reason = reason, de_detail = detail, de_l0_preserved = True\<rparr>])"

datatype FacetKind = Facet_Negotiation | Facet_Conformance | Facet_Invocation

fun facet_kind_str :: "FacetKind \<Rightarrow> string" where
  "facet_kind_str Facet_Negotiation = ''negotiation''"
| "facet_kind_str Facet_Conformance = ''conformance''"
| "facet_kind_str Facet_Invocation = ''invocation''"

definition parse_facet_kind :: "string \<Rightarrow> FacetKind option" where
  "parse_facet_kind s =
     (if s = ''negotiation'' then Some Facet_Negotiation
      else if s = ''conformance'' then Some Facet_Conformance
      else if s = ''invocation'' then Some Facet_Invocation
      else None)"

record Facet =
  fc_kind :: FacetKind
  fc_api_version :: string

definition is_compatible_with :: "Facet \<Rightarrow> Facet \<Rightarrow> bool" where
  "is_compatible_with f g = (fc_kind f = fc_kind g \<and> fc_api_version f = fc_api_version g)"

definition local_default :: "Facet list" where
  "local_default = map (\<lambda>k. \<lparr>fc_kind = k, fc_api_version = ''dsh-std.dsh-desktop.local/v1alpha1''\<rparr>)
     [Facet_Negotiation, Facet_Conformance, Facet_Invocation]"

definition supports_facet :: "Facet list \<Rightarrow> Facet \<Rightarrow> bool" where
  "supports_facet catalog f = list_ex (\<lambda>g. is_compatible_with g f) catalog"

definition intersect_facets :: "Facet list \<Rightarrow> Facet list \<Rightarrow> Facet list" where
  "intersect_facets catalog peer = filter (supports_facet catalog) peer"

section \<open>Histories of a session\<close>

datatype negotiation_call =
    N_Hello string HelloMessage
  | N_Agreement string string string AgreementDecision
  | N_Activate string
  | N_Reject string RejectionReason "string option"

fun negotiation_exec :: "negotiation_call \<Rightarrow> NegotiationSession \<Rightarrow> NegotiationSession" where
  "negotiation_exec (N_Hello now hello) s = snd (receive_hello now hello s)"
| "negotiation_exec (N_Agreement fresh at1 at2 d) s = snd (issue_agreement fresh at1 at2 d s)"
| "negotiation_exec (N_Activate now) s = snd (activate_session now s)"
| "negotiation_exec (N_Reject now reason message) s = snd (reject now reason message s)"

definition negotiation_step :: "NegotiationSession \<Rightarrow> negotiation_call \<Rightarrow> NegotiationSession \<Rightarrow> bool" where
  "negotiation_step s e s' = (s' = negotiation_exec e s)"

text \<open>An agreement that answers a Hello: it grants only what the Hello offers, once, and nothing that is also unavailable.\<close>

definition answers_hello :: "HelloMessage \<Rightarrow> AgreementMessage \<Rightarrow> bool" where
  "answers_hello hello a =
     (am_reply_to a = hl_id hello \<and> set (ap_granted (am_payload a)) \<subseteq> set (hp_supports (hl_payload hello)) \<and>
      distinct (ap_granted (am_payload a)) \<and> distinct (map uc_coordinate (ap_unavailable (am_payload a))) \<and>
      set (ap_granted (am_payload a)) \<inter> uc_coordinate ` set (ap_unavailable (am_payload a)) = {} \<and>
      length (ap_activation_id (am_payload a)) \<in> {1..128} \<and> length (am_id a) \<in> {8..128})"

text \<open>The activation records its agreement.\<close>

definition activation_of :: "AgreementMessage \<Rightarrow> SessionActivation \<Rightarrow> bool" where
  "activation_of a v = (na_activation_id v = ap_activation_id (am_payload a) \<and> na_granted v = ap_granted (am_payload a) \<and>
     na_unavailable v = ap_unavailable (am_payload a) \<and> na_lease_constraints v = ap_lease_constraints (am_payload a) \<and>
     (na_degraded v \<longleftrightarrow> ap_unavailable (am_payload a) \<noteq> []))"

fun phase_ok :: "NegotiationPhase \<Rightarrow> NegotiationSession \<Rightarrow> bool" where
  "phase_ok Proposed s = (ns_agreement s = None \<and> ns_activation s = None \<and> ns_rejection s = None)"
| "phase_ok Agreed s = (ns_agreement s \<noteq> None \<and> ns_activation s = None \<and> ns_rejection s = None)"
| "phase_ok Phase_Active s = (ns_activation s \<noteq> None \<and> ns_rejection s = None)"
| "phase_ok Phase_Rejected s = (ns_activation s = None \<and> ns_rejection s \<noteq> None)"

definition negotiation_inv :: "NegotiationSession \<Rightarrow> bool" where
  "negotiation_inv s =
     (phase_ok (ns_phase s) s \<and>
      (\<forall>a. ns_agreement s = Some a \<longrightarrow> (\<exists>hello. ns_hello s = Some hello \<and> answers_hello hello a)) \<and>
      (\<forall>v. ns_activation s = Some v \<longrightarrow> (\<exists>a. ns_agreement s = Some a \<and> activation_of a v)) \<and>
      (ns_degraded s \<longleftrightarrow> (\<exists>a. ns_agreement s = Some a \<and> ap_unavailable (am_payload a) \<noteq> [])))"

lemma all_fresh_iff: "all_fresh seen xs \<longleftrightarrow> distinct xs \<and> set xs \<inter> set seen = {}"
  by (induction xs arbitrary: seen) auto

lemma unique_iff:
  "all_unique_coordinates cs \<longleftrightarrow> distinct cs" "all_unique_unavailable us \<longleftrightarrow> distinct (map uc_coordinate us)"
  by (simp_all add: all_unique_coordinates_def all_unique_unavailable_def all_fresh_iff)

lemma includes_iff [simp]: "includes_coordinate cs c \<longleftrightarrow> c \<in> set cs"
  by (auto simp: includes_coordinate_def list_ex_iff)

lemma decision_ok:
  assumes "decision_error hello d = None" and "length (am_id (agreement_of fresh hello d)) \<in> {8..128}"
  shows "answers_hello hello (agreement_of fresh hello d)"
  using assms
  by (auto simp: decision_error_def answers_hello_def agreement_of_def unique_iff find_None_iff Suc_le_eq
      split: option.splits if_splits)

lemma receive_hello_cases:
  assumes "receive_hello now hello s = (r, s')"
  obtains (same) "s' = s"
  | (received) ev where "ns_phase s = Proposed" "ns_hello s = None" "s' = s\<lparr>ns_hello := Some hello, ns_history := ns_history s @ [ev]\<rparr>"
  using assms by (auto simp: receive_hello_def split: if_splits option.splits)

lemma issue_agreement_cases:
  assumes "issue_agreement fresh at1 at2 d s = (r, s')"
  obtains (same) "s' = s"
  | (issued) hello evs where "ns_phase s = Proposed" "ns_hello s = Some hello" "decision_error hello d = None"
      "length (am_id (agreement_of fresh hello d)) \<in> {8..128}"
      "s' = s\<lparr>ns_agreement := Some (agreement_of fresh hello d), ns_phase := Agreed,
         ns_degraded := (ns_degraded s \<or> ad_unavailable d \<noteq> []), ns_history := ns_history s @ evs\<rparr>"
  using assms by (auto simp: issue_agreement_def Let_def split: if_splits option.splits)

lemma negotiation_exec_inv:
  assumes "negotiation_inv s"
  shows "negotiation_inv (negotiation_exec e s)"
proof (cases e)
  case (N_Hello now hello)
  obtain r s' where x: "receive_hello now hello s = (r, s')" by fastforce
  from x have "negotiation_inv s'"
    by (cases rule: receive_hello_cases) (use assms in \<open>auto simp: negotiation_inv_def\<close>)
  thus ?thesis using N_Hello x by simp
next
  case (N_Agreement fresh at1 at2 d)
  obtain r s' where x: "issue_agreement fresh at1 at2 d s = (r, s')" by fastforce
  from x have "negotiation_inv s'"
  proof (cases rule: issue_agreement_cases)
    case (issued hello evs)
    have "answers_hello hello (agreement_of fresh hello d)" by (rule decision_ok [OF issued(3,4)])
    moreover have "ap_unavailable (am_payload (agreement_of fresh hello d)) = ad_unavailable d" by (simp add: agreement_of_def)
    ultimately show ?thesis using assms issued(1,2,5) by (auto simp: negotiation_inv_def)
  qed (use assms in simp)
  thus ?thesis using N_Agreement x by simp
next
  case (N_Activate now)
  show ?thesis
    using assms N_Activate
    by (cases "ns_phase s") (auto simp: activate_session_def negotiation_inv_def activation_of_def Let_def)
next
  case (N_Reject now reason message)
  show ?thesis
    using assms N_Reject by (cases "ns_phase s") (auto simp: reject_def negotiation_inv_def Let_def)
qed

interpretation negotiation: preserved negotiation_step negotiation_inv
  by unfold_locales (simp add: negotiation_step_def negotiation_exec_inv)

lemma begin_session_inv: "negotiation_inv (begin_session i)"
  by (simp add: negotiation_inv_def begin_session_def)

text \<open>An active or rejected session does not change any more.\<close>

lemma negotiation_final:
  assumes "ns_phase s \<in> {Phase_Active, Phase_Rejected}"
  shows "negotiation_exec e s = s"
  using assms
  by (cases e) (auto simp: receive_hello_def issue_agreement_def activate_session_def reject_def)

section \<open>Conformance, as a specification\<close>

lemma matches_iff: "matches_known_baseline r \<longleftrightarrow> r = known_baseline"
  by (cases r) (simp add: matches_known_baseline_def known_baseline_def)

lemma format_failure_None: "format_failure rs = None \<longleftrightarrow> (\<forall>r \<in> set rs. validate_format r = Ok ())"
  by (induction rs) (auto split: result.splits)

lemma known_baseline_valid: "validate_format known_baseline = Ok ()"
  by code_simp

text \<open>A version whose numbers are missing passes the check of an exact version.\<close>

lemma version_without_numbers: "is_valid_version ''..'' \<and> is_valid_version ''1..-rc.1+any thing''"
  by code_simp

text \<open>With a clock before the epoch the first message ids are too short for the check of \<open>issue_agreement\<close>.\<close>

lemma adapter_message_id_short: "length (adapter_message_id 0 n) < 8 \<longleftrightarrow> n < 10"
proof -
  have "length (show_nat n) = 1 \<longleftrightarrow> n < 10"
  proof (cases "n < 10")
    case False
    hence "show_nat n = show_base 10 (n div 10) @ [digit_char (n mod 10)]" by (simp add: show_nat_def show_base.simps [of 10 n])
    moreover have "show_base 10 (n div 10) \<noteq> []" by (subst show_base.simps) simp
    ultimately show ?thesis using False by simp
  qed (simp add: show_nat_def show_base.simps [of 10 n])
  moreover have "show_nat n \<noteq> []" unfolding show_nat_def by (subst show_base.simps) simp
  moreover have "show_base 16 0 = ''0''" by code_simp
  ultimately show ?thesis by (cases "show_nat n") (auto simp: adapter_message_id_def)
qed

section \<open>A session for the examples\<close>

definition negotiated_coordinate :: ProtocolCoordinate where
  "negotiated_coordinate = \<lparr>pc_api_version = ''t.local/v1alpha1'', pc_kind = ''Terminal''\<rparr>"

definition negotiated_hello :: HelloMessage where
  "negotiated_hello = \<lparr>hl_id = ''msg-0001'', hl_generation = 1,
     hl_participant = \<lparr>pa_component = ''agent'', pa_facet = ''tool'', pa_activation_id = None\<rparr>,
     hl_payload = \<lparr>hp_instance_id = ''instance'', hp_supports = [negotiated_coordinate], hp_requires = []\<rparr>\<rparr>"

definition negotiated_decision :: AgreementDecision where
  "negotiated_decision = \<lparr>ad_activation_id = ''act-1'', ad_granted = [negotiated_coordinate], ad_unavailable = [],
     ad_lease_constraints = None, ad_id = Some ''msg-0002'', ad_generation = None, ad_timestamp = None, ad_participant = None\<rparr>"

definition negotiated_calls :: "negotiation_call list" where
  "negotiated_calls = [N_Hello ''t1'' negotiated_hello, N_Agreement [] ''t2'' ''t3'' negotiated_decision, N_Activate ''t4'']"

definition negotiated :: NegotiationSession where
  "negotiated = fold negotiation_exec negotiated_calls (begin_session ''s'')"

lemma fold_run: "run negotiation_step s es (fold negotiation_exec es s)"
  by (induction es arbitrary: s) (auto intro: run.intros simp: negotiation_step_def)

lemma negotiated_active: "ns_phase negotiated = Phase_Active"
  by (simp add: negotiated_def negotiated_calls_def receive_hello_def negotiated_hello_def begin_session_def unique_iff issue_agreement_def
      decision_error_def negotiated_decision_def agreement_of_def activate_session_def Let_def)

section \<open>Properties\<close>

text \<open>
  C39. What a negotiation can end in. In every history of calls on a fresh session, an activation exists exactly in the active
  phase; it records an agreement that answers the received Hello, grants only what the Hello offers, none of it twice and none
  that is also unavailable, and is marked degraded exactly if something is unavailable. An active or rejected session is never
  changed by a further call.
\<close>

theorem negotiation_outcome:
  assumes "run negotiation_step (begin_session i) es s"
  shows "(ns_activation s \<noteq> None \<longleftrightarrow> ns_phase s = Phase_Active) \<and>
    (\<forall>v. ns_activation s = Some v \<longrightarrow> (\<exists>hello a. ns_hello s = Some hello \<and> ns_agreement s = Some a \<and> answers_hello hello a \<and> activation_of a v)) \<and>
    (ns_phase s \<in> {Phase_Active, Phase_Rejected} \<longrightarrow> negotiation_exec e s = s)"
proof -
  have inv: "negotiation_inv s" using negotiation.run_inv [OF assms begin_session_inv] .
  have "ns_activation s \<noteq> None \<longleftrightarrow> ns_phase s = Phase_Active" using inv by (cases "ns_phase s") (simp_all add: negotiation_inv_def)
  moreover have "\<forall>v. ns_activation s = Some v \<longrightarrow>
      (\<exists>hello a. ns_hello s = Some hello \<and> ns_agreement s = Some a \<and> answers_hello hello a \<and> activation_of a v)"
    using inv unfolding negotiation_inv_def by blast
  ultimately show ?thesis using negotiation_final by blast
qed

theorem negotiation_outcome_witness:
  "\<exists>v. ns_activation negotiated = Some v \<and> negotiation_exec (N_Reject ''t5'' RR_PeerRejected None) negotiated = negotiated"
proof -
  have "run negotiation_step (begin_session ''s'') negotiated_calls negotiated" unfolding negotiated_def by (rule fold_run)
  from negotiation_outcome [OF this] show ?thesis using negotiated_active by blast
qed

text \<open>
  C40. The conformance check is the three-valued test it is described as: without a declaration, or with an empty one, the state is
  absent; it is known exactly if every declared record is well formed and the pinned baseline is among them; in all other
  cases it is unknown. Every evaluation appends exactly one log entry, with the state it returns.
\<close>

theorem conforms_exact:
  "fst (conforms now declaration log) =
     (case declaration of
        None \<Rightarrow> Conf_Absent
      | Some records \<Rightarrow>
          if records = [] then Conf_Absent
          else if known_baseline \<in> set records \<and> list_all (\<lambda>r. validate_format r = Ok ()) records then Conf_Known
          else Conf_Unknown) \<and>
   (\<exists>entry. snd (conforms now declaration log) = log @ [entry] \<and> cl_state entry = fst (conforms now declaration log))"
proof (cases "declaration")
  case (Some records)
  have f: "find matches_known_baseline records = None \<longleftrightarrow> known_baseline \<notin> set records"
    by (auto simp: find_None_iff matches_iff)
  show ?thesis
    using Some f format_failure_None [of records]
    by (cases "format_failure records"; cases "find matches_known_baseline records")
      (auto simp: conforms_def record_conformance_def list_all_iff)
qed (simp add: conforms_def record_conformance_def)

end
