(* ===== verification/Spec2Isabelle.thy ===== *)
theory Spec2Isabelle
  imports Transport_Server Daemon_System Negotiation
begin

text \<open>
  Verification of the control plane of the DSH desktop shell: the Rust crates that run as the local daemon, the transport
  that reaches it, and the providers behind it.

  \<^bold>\<open>The program.\<close> A daemon (\<open>crates/daemon\<close>) serves the Shell and external components on this machine. A client connects
  over a named pipe or a Unix socket, presents a one-time credential and exchanges length-prefixed frames
  (\<open>crates/local-transport\<close>). A frame is a JSON envelope: a Hello negotiates capabilities and becomes grants and leases in
  the capability broker (\<open>crates/supervisor\<close>), an Invocation passes the broker's gate and reaches a capability handler.
  Behind the handlers are the PTY registry (\<open>crates/terminal-provider\<close>), the browser sessions
  (\<open>crates/browser-provider\<close>), the scheduler, the event router, and the supervisor of the user's DSH process
  (\<open>crates/managed-runtime\<close>).

  \<^bold>\<open>Conventions.\<close> A Rust \<open>String\<close> is the list of its UTF-8 bytes. \<open>Result\<close> is the type \<open>result\<close> with \<open>Ok\<close> and \<open>Err\<close>;
  an operation on \<open>&mut self\<close> returns its result and the new state. \<open>u64\<close> and \<open>usize\<close> are naturals with saturation,
  truncation and checks written out; \<open>u8\<close> and \<open>u32\<close> of the wire format are words. A \<open>HashMap\<close> is an association list
  with the laws of the locale \<open>kv_store\<close>. Every clock reading, random number and answer of the operating system is an
  argument of the definition that uses it. JSON (\<open>serde_json\<close>) and URLs (the \<open>url\<close> crate) are records of functions
  passed as parameters; what the proofs need of them is a named predicate such as \<open>codec_ok\<close>. Code that threads
  run concurrently is a step relation in which one step is one lock section or atomic access, and the locale \<open>preserved\<close>
  lifts an invariant of the steps to all executions.

  \<^bold>\<open>The theories.\<close>

    \<^item> \<open>Shell_Prelude\<close>: results, strings, bounded integers, hash maps; the locales \<open>kv_store\<close> and \<open>preserved\<close>.
    \<^item> \<open>Framing\<close> (\<open>local-transport/src/framing.rs\<close>): encoding and the incremental reader. Any sequence of frames survives any
      fragmentation of the stream, and the reader refines a parser of the whole byte string, errors included.
    \<^item> \<open>Credentials\<close> (\<open>credential.rs\<close>, \<open>limits.rs\<close>, the shared state of \<open>server.rs\<close>): a credential is accepted at most once
      and not after its expiry.
    \<^item> \<open>Transport\<close> (\<open>error.rs\<close>, \<open>handshake.rs\<close>, \<open>client.rs\<close>, the message loop of \<open>server.rs\<close>): the verdict of the handshake, the
      order of messages in both directions, and the partial frame that a read timeout loses.
    \<^item> \<open>Transport_Server\<close> (\<open>accept_loop\<close> and \<open>connection_worker\<close> of \<open>server.rs\<close>): all threads interleaved; the connection cap
      holds and the counters add up in every reachable state.
    \<^item> \<open>Broker\<close> (\<open>supervisor/src/broker.rs\<close>): grants, leases, revocation and the dispatch gate, characterised exactly.
    \<^item> \<open>Agent_Bridge\<close> (\<open>broker/agent.rs\<close>): an activation dispatches exactly what it negotiated, and a revoked one never again.
    \<^item> \<open>Civil_Time\<close> and \<open>Timestamps\<close>: the copies of the civil-date algorithm and of the RFC 3339 formatters and parsers
      (\<open>daemon\<close>, \<open>adapter-dsh-std\<close>, \<open>adapter-dsh\<close>, the Shell) against the Gregorian calendar and against each other.
    \<^item> \<open>Envelope\<close> (\<open>daemon/src/envelope.rs\<close>): frame validation and identifiers.
    \<^item> \<open>Bootstrap\<close> (\<open>main.rs\<close>, \<open>credential.rs\<close>, \<open>singleton.rs\<close>): startup and the bootstrap credential file.
    \<^item> \<open>Daemon_Server\<close> and \<open>Daemon_Authority\<close> (\<open>daemon/src/server.rs\<close>): all connections of the envelope server over one
      broker; who reaches a handler, what an authority class rests on, what a disconnect takes away, and the replies.
    \<^item> \<open>Scheduler\<close> (\<open>daemon/src/scheduler.rs\<close>): registration, cancellation and the worker pass, whose loop terminates.
    \<^item> \<open>Browser_Session\<close> (\<open>browser-provider\<close>): the URL policy and the life cycle of a session.
    \<^item> \<open>Event_Router\<close> (\<open>daemon/src/events.rs\<close>): queues and subscriptions; events never reach another connection.
    \<^item> \<open>Terminal_Host\<close> (\<open>terminal-provider/src/lib.rs\<close>, \<open>daemon/src/terminal.rs\<close>) and \<open>Browser_Host\<close> (\<open>daemon/src/browser.rs\<close>):
      the capability handlers with their ownership checks.
    \<^item> \<open>Managed_Environment\<close> (\<open>managed-runtime/src/environment.rs\<close> and the lock-free part of \<open>supervisor.rs\<close>): the catalog, the
      launch recipe, the reader of the child's output and the check of the endpoint it announces.
    \<^item> \<open>Managed_Runtime\<close> (the critical sections of \<open>supervisor.rs\<close>): the threads of start, status, binding, stop and restart
      interleaved; ownership of process trees, verified bindings, the crash budget, and two races.

  \<^bold>\<open>Bounds.\<close> Recursion is structural or has a termination proof; the reader of a child's output, the reader of
  frames and the worker pass of the scheduler are total functions on the events they meet. Sequence numbers and event counters
  that the code keeps in 64 bits are unbounded naturals.

  \<^bold>\<open>Not modelled.\<close> The carriers (\<open>named_pipe.rs\<close>, \<open>uds.rs\<close>) and the peer probes, the platform files of the terminal
  provider, process creation and signals, the lock file and file permissions are calls into the operating system; the model has
  their outcomes as inputs. The Tauri application (\<open>apps/desktop/src-tauri\<close>) is mostly glue between the web view, the daemon
  and the file system; only its date code is here. The DSH adapter (\<open>crates/adapter-dsh\<close>) is HTTP and
  WebSocket input and output. The external API example, the TypeScript packages, the schemas and the release scripts are
  separate programs.
\<close>

section \<open>Properties of the whole daemon\<close>

text \<open>
  C1. Terminal sessions are isolated, end to end. In every execution of the daemon, with all its connections and threads, if a
  step changes anything of an existing terminal session then it serves a frame on the connection that created the session; the
  frame is an invocation of the terminal capability that an activation of that connection holds and the broker admits; and for a
  session of an agent the broker's gate passes for the agent, generation and scope recorded at its creation.
\<close>

theorem terminal_isolation:
  assumes "codec_ok (payload_codec.truncate J)" and "ds_host srv0 = new_daemon_host inps"
    and "run (shell_step J (daemon_ops C U null)) (srv0, []) es (srv, ss)"
    and "shell_step J (daemon_ops C U null) (srv, ss) e (srv', ss')"
    and "hm_get (py_sessions (th_registry (dh_terminal (ds_host srv)))) i \<noteq> None"
    and "session_view i (dh_terminal (ds_host srv')) \<noteq> session_view i (dh_terminal (ds_host srv))"
  shows "\<exists>key bytes rd. e = Sh_Serve (D_Frame key bytes rd) \<and> admitted J (srv, ss) key bytes rd Terminal \<and>
    terminal_owner i (dh_terminal (ds_host srv)) = Some key \<and>
    (\<forall>bd. terminal_binding i (dh_terminal (ds_host srv)) = Some bd \<longrightarrow>
       (\<exists>ms. enforce_dispatch ms terminal_capability (sb_agent_id bd) (sb_generation bd) (sb_scope bd) (ds_broker srv) = Ok ()))"
  using terminal_step_authorized [OF assms(1,4) _ assms(5,6)] reachable_host_ok [OF assms(1-3)] unfolding host_ok_def by blast

theorem terminal_isolation_witness:
  "\<exists>srv st w'. run (shell_step sys_frames sys_ops) (sys_server, []) sys_events (srv, [(1, st)]) \<and>
     shell_step sys_frames sys_ops (srv, [(1, st)]) (Sh_Serve (D_Frame 1 [3] sample_readings)) w' \<and>
     session_view ''pty-7-1'' (dh_terminal (ds_host (fst w'))) \<noteq> session_view ''pty-7-1'' (dh_terminal (ds_host srv)) \<and>
     admitted sys_frames (srv, [(1, st)]) 1 [3] sample_readings Terminal"
proof -
  obtain srv st where r: "run (shell_step sys_frames sys_ops) (sys_server, []) sys_events (srv, [(1, st)])" and s: "sys_state srv st"
    by (rule sys_run)
  obtain srv' st' where step: "shell_step sys_frames sys_ops (srv, [(1, st)]) (Sh_Serve (D_Frame 1 [3] sample_readings)) (srv', [(1, st')])"
    and c: "session_view ''pty-7-1'' (dh_terminal (ds_host srv')) \<noteq> session_view ''pty-7-1'' (dh_terminal (ds_host srv))"
    by (rule sys_written [OF s])
  have h: "ds_host sys_server = new_daemon_host (\<lambda>_. sys_inputs)" by (simp add: sys_server_def)
  have i: "hm_get (py_sessions (th_registry (dh_terminal (ds_host srv)))) ''pty-7-1'' \<noteq> None"
    using s by (simp add: sys_state_def session_view_def)
  from terminal_isolation [OF sys_codec_ok(1) h r [unfolded sys_ops_def] step [unfolded sys_ops_def] i c]
  have "admitted sys_frames (srv, [(1, st)]) 1 [3] sample_readings Terminal" by simp
  thus ?thesis using r step c by (intro exI [of _ srv] exI [of _ st] exI [of _ "(srv', [(1, st')])"]) simp
qed





end
